theory Spec2Isabelle
  imports Complex_Main
begin

section \<open>Data poisoning attack notebooks: the convex problem\<close>

text \<open>
  The repository holds two notebooks (PyTorch: \<^verbatim>\<open>src/unnamed/part_000\<close>,
  TensorFlow: \<^verbatim>\<open>src/examples/tf/data_poisoning_attack.ipynb\<close>).  Both build a cvxpy
  problem from numpy arrays.  A float64 array of rank two is a list of rows of reals
  (floating point is idealised to the reals); a scalar cvxpy expression (shape \<open>()\<close>) is a
  real; an expression of shape \<open>(1, 1)\<close> is a one-by-one matrix.
\<close>

type_synonym matrix = "real list list"

definition has_shape :: "matrix \<Rightarrow> nat \<Rightarrow> nat \<Rightarrow> bool" where
  "has_shape M r c \<longleftrightarrow> length M = r \<and> list_all (\<lambda>row. length row = c) M"

subsection \<open>numpy and cvxpy operations used by the notebooks\<close>

text \<open>\<^verbatim>\<open>np.zeros((r, c))\<close>.\<close>

definition zeros :: "nat \<Rightarrow> nat \<Rightarrow> matrix" where
  "zeros r c = replicate r (replicate c 0)"

text \<open>\<^verbatim>\<open>ytrain.numpy()[:, np.newaxis]\<close>: the int64 labels as a column (shape \<open>(m, 1)\<close>).\<close>

definition newaxis :: "int list \<Rightarrow> matrix" where
  "newaxis ys = map (\<lambda>y. [real_of_int y]) ys"

text \<open>A column (shape \<open>(n, 1)\<close>) from its entries: the value of \<^verbatim>\<open>cp.Variable((n, 1))\<close>.\<close>

definition col :: "real list \<Rightarrow> matrix" where
  "col v = map (\<lambda>z. [z]) v"

text \<open>\<^verbatim>\<open>M.T\<close> of an array with at least one row.\<close>

primrec T :: "matrix \<Rightarrow> matrix" where
  "T [] = []"
| "T (r # rs) = (if rs = [] then map (\<lambda>x. [x]) r else map2 (#) r (T rs))"

definition dot :: "real list \<Rightarrow> real list \<Rightarrow> real" where
  "dot u v = sum_list (map2 (*) u v)"

text \<open>\<^verbatim>\<open>A @ B\<close>: entry \<open>(i, j)\<close> is row \<open>i\<close> of \<open>A\<close> times column \<open>j\<close> of \<open>B\<close>.\<close>

definition matmul :: "matrix \<Rightarrow> matrix \<Rightarrow> matrix" where
  "matmul A B = map (\<lambda>row. map (dot row) (T B)) A"

text \<open>
  \<^verbatim>\<open>A + B\<close>: an operand of shape \<open>(1, 1)\<close> on the right is promoted to every entry of the
  left one (this is how \<^verbatim>\<open>X @ a + b\<close> adds the intercept); otherwise entry by entry.
\<close>

definition add :: "matrix \<Rightarrow> matrix \<Rightarrow> matrix" where
  "add A B = (case B of [[c]] \<Rightarrow> map (map (\<lambda>x. x + c)) A | _ \<Rightarrow> map2 (map2 (+)) A B)"

definition minus :: "matrix \<Rightarrow> matrix \<Rightarrow> matrix" where
  "minus A B = map2 (map2 (-)) A B"

definition neg :: "matrix \<Rightarrow> matrix" where
  "neg A = map (map uminus) A"

text \<open>\<^verbatim>\<open>cp.multiply(A, B)\<close>: entry by entry.\<close>

definition multiply :: "matrix \<Rightarrow> matrix \<Rightarrow> matrix" where
  "multiply A B = map2 (map2 (*)) A B"

text \<open>\<^verbatim>\<open>cp.logistic(Z)\<close>: \<open>log (1 + exp z)\<close> entry by entry.\<close>

definition logistic :: "matrix \<Rightarrow> matrix" where
  "logistic Z = map (map (\<lambda>z. ln (1 + exp z))) Z"

text \<open>\<^verbatim>\<open>cp.hstack([A, B, ...])\<close>: the rows of the arguments side by side.\<close>

fun hstack :: "matrix list \<Rightarrow> matrix" where
  "hstack [] = []"
| "hstack [A] = A"
| "hstack (A # B # Ms) = map2 (@) A (hstack (B # Ms))"

text \<open>
  \<^verbatim>\<open>cp.log_sum_exp(M, axis=0, keepdims=True)\<close>: one row holding, for each column of \<open>M\<close>,
  the logarithm of the sum of the exponentials of its entries.
\<close>

definition log_sum_exp :: "matrix \<Rightarrow> matrix" where
  "log_sum_exp M = [map (\<lambda>col. ln (sum_list (map exp col))) (T M)]"

text \<open>\<^verbatim>\<open>cp.sum(M)\<close>: the sum of all entries, a scalar.\<close>

definition sum_entries :: "matrix \<Rightarrow> real" where
  "sum_entries M = sum_list (map sum_list M)"

text \<open>
  \<^verbatim>\<open>cp.norm(M, 1)\<close> of an expression of rank two is the matrix 1-norm: the largest
  column sum of absolute values.
\<close>

definition norm1 :: "matrix \<Rightarrow> real" where
  "norm1 M = (case map (\<lambda>col. sum_list (map abs col)) (T M) of
                [] \<Rightarrow> 0 | c # cs \<Rightarrow> fold max cs c)"

text \<open>\<^verbatim>\<open>cp.sum_squares(M)\<close>.\<close>

definition sum_squares :: "matrix \<Rightarrow> real" where
  "sum_squares M = sum_list (map (\<lambda>row. sum_list (map (\<lambda>x. x ^ 2) row)) M)"

text \<open>A matrix times a scalar expression, and a scalar expression plus a matrix.\<close>

definition smul :: "matrix \<Rightarrow> real \<Rightarrow> matrix" where
  "smul A s = map (map (\<lambda>x. x * s)) A"

definition sadd :: "real \<Rightarrow> matrix \<Rightarrow> matrix" where
  "sadd s A = map (map (\<lambda>x. s + x)) A"

subsection \<open>The objective of the PyTorch notebook\<close>

text \<open>
  \<^verbatim>\<open>log_likelihood = (1. / m) * cp.sum(
      cp.multiply(Y, X @ a + b) - cp.logistic(X @ a + b))
  regularization = - 0.1 * cp.norm(a, 1) - 0.1 * cp.sum_squares(a)
  prob = cp.Problem(cp.Maximize(log_likelihood + regularization))\<close>

  The expressions are functions of the value of the parameter \<open>X\<close> and of the variables
  \<open>a\<close> (shape \<open>(n, 1)\<close>) and \<open>b\<close> (shape \<open>(1, 1)\<close>); \<open>m\<close> and \<open>Y\<close> are constants of the cell.
\<close>

definition log_likelihood_torch :: "nat \<Rightarrow> matrix \<Rightarrow> matrix \<Rightarrow> matrix \<Rightarrow> matrix \<Rightarrow> real" where
  "log_likelihood_torch m Y X a b =
     (1 / real m) * sum_entries
       (minus (multiply Y (add (matmul X a) b)) (logistic (add (matmul X a) b)))"

definition regularization_torch :: "matrix \<Rightarrow> real" where
  "regularization_torch a = - (1 / 10) * norm1 a - (1 / 10) * sum_squares a"

definition objective_torch :: "nat \<Rightarrow> matrix \<Rightarrow> matrix \<Rightarrow> matrix \<Rightarrow> matrix \<Rightarrow> real" where
  "objective_torch m Y X a b = log_likelihood_torch m Y X a b + regularization_torch a"

subsection \<open>The objective of the TensorFlow notebook\<close>

text \<open>
  \<^verbatim>\<open>log_likelihood = (1. / m) * cp.sum(
      cp.multiply(Y, X @ a + b) -
      cp.log_sum_exp(cp.hstack([np.zeros((m, 1)), X @ a + b]).T, axis=0,
                     keepdims=True).T)
  regularization = - lambda1 * cp.norm(a, 1) - lambda2 * cp.sum_squares(a)
  prob = cp.Problem(cp.Maximize(log_likelihood + regularization))\<close>

  \<open>lambda1\<close> and \<open>lambda2\<close> are parameters of shape \<open>(1, 1)\<close>, so the regularization
  and the objective have shape \<open>(1, 1)\<close>.
\<close>

definition log_likelihood_tf :: "nat \<Rightarrow> matrix \<Rightarrow> matrix \<Rightarrow> matrix \<Rightarrow> matrix \<Rightarrow> real" where
  "log_likelihood_tf m Y X a b =
     (1 / real m) * sum_entries
       (minus (multiply Y (add (matmul X a) b))
              (T (log_sum_exp (T (hstack [zeros m 1, add (matmul X a) b])))))"

definition regularization_tf :: "matrix \<Rightarrow> matrix \<Rightarrow> matrix \<Rightarrow> matrix" where
  "regularization_tf lambda1 lambda2 a =
     minus (smul (neg lambda1) (norm1 a)) (smul lambda2 (sum_squares a))"

definition objective_tf ::
  "nat \<Rightarrow> matrix \<Rightarrow> matrix \<Rightarrow> matrix \<Rightarrow> matrix \<Rightarrow> matrix \<Rightarrow> matrix \<Rightarrow> matrix" where
  "objective_tf m Y X lambda1 lambda2 a b =
     sadd (log_likelihood_tf m Y X a b) (regularization_tf lambda1 lambda2 a)"

text \<open>The values the TensorFlow notebook supplies for the two weights.\<close>

definition lambda1_tf :: matrix where
  "lambda1_tf = [[1 / 10]]"

definition lambda2_tf :: matrix where
  "lambda2_tf = [[1 / 10]]"

subsection \<open>The objective as the specification writes it\<close>

text \<open>
  The maximum-likelihood objective of logistic regression with elastic-net
  regularization, over the training points \<open>x\<^sub>i\<close> (the rows of \<open>X\<close>), their labels \<open>Y\<^sub>i\<close>,
  the slope vector \<open>a\<close> and the intercept \<open>b\<close>:
  \<open>(1/m) \<Sum>\<^sub>i [Y\<^sub>i (x\<^sub>i\<^sup>T a + b) - log (1 + exp (x\<^sub>i\<^sup>T a + b))] - 0.1 \<parallel>a\<parallel>\<^sub>1 - 0.1 \<parallel>a\<parallel>\<^sub>2\<^sup>2\<close>.
\<close>

definition spec_objective :: "real list list \<Rightarrow> real list \<Rightarrow> real list \<Rightarrow> real \<Rightarrow> real" where
  "spec_objective xs ys a b =
     (1 / real (length xs)) *
       (\<Sum>(x, y)\<leftarrow>zip xs ys. y * (dot x a + b) - ln (1 + exp (dot x a + b)))
     - (1 / 10) * (\<Sum>z\<leftarrow>a. \<bar>z\<bar>) - (1 / 10) * (\<Sum>z\<leftarrow>a. z ^ 2)"

section \<open>The problem handed to the layer\<close>

text \<open>
  \<^verbatim>\<open>prob = cp.Problem(cp.Maximize(log_likelihood + regularization))\<close> has no constraints:
  a point is a pair of values for the variables \<open>a = cp.Variable((n, 1))\<close> and
  \<open>b = cp.Variable((1, 1))\<close>, and the problem is solved by the points where the objective is
  largest.  \<^verbatim>\<open>cp.Maximize\<close> of an expression of shape \<open>(1, 1)\<close> maximizes its entry.
\<close>

definition scalar_of :: "matrix \<Rightarrow> real" where
  "scalar_of M = hd (hd M)"

definition feasible :: "nat \<Rightarrow> matrix \<times> matrix \<Rightarrow> bool" where
  "feasible n v \<longleftrightarrow> has_shape (fst v) n 1 \<and> has_shape (snd v) 1 1"

text \<open>
  \<^verbatim>\<open>cp.Maximize(expr)\<close> and \<^verbatim>\<open>cp.Minimize(expr)\<close>: the sense of a problem and its objective as
  a function of the values of \<open>(a, b)\<close>.
\<close>

datatype problem = Maximize "matrix \<times> matrix \<Rightarrow> real" | Minimize "matrix \<times> matrix \<Rightarrow> real"

definition prob_torch :: "nat \<Rightarrow> matrix \<Rightarrow> matrix \<Rightarrow> problem" where
  "prob_torch m Y X = Maximize (\<lambda>v. objective_torch m Y X (fst v) (snd v))"

definition prob_tf :: "nat \<Rightarrow> matrix \<Rightarrow> matrix \<Rightarrow> matrix \<Rightarrow> matrix \<Rightarrow> problem" where
  "prob_tf m Y X lambda1 lambda2 =
     Maximize (\<lambda>v. scalar_of (objective_tf m Y X lambda1 lambda2 (fst v) (snd v)))"

text \<open>The points that solve a problem over variables \<open>a\<close> of shape \<open>(n, 1)\<close> and \<open>b\<close> of shape \<open>(1, 1)\<close>.\<close>

fun solutions :: "nat \<Rightarrow> problem \<Rightarrow> (matrix \<times> matrix) set" where
  "solutions n (Maximize f) = {v. feasible n v \<and> (\<forall>w. feasible n w \<longrightarrow> f w \<le> f v)}"
| "solutions n (Minimize f) = {v. feasible n v \<and> (\<forall>w. feasible n w \<longrightarrow> f v \<le> f w)}"

section \<open>The test loss and its gradient\<close>

subsection \<open>The loss of the PyTorch notebook\<close>

text \<open>
  \<^verbatim>\<open>a_tch, b_tch = fit_logreg(Xtrain)
  loss = 300 * torch.nn.BCEWithLogitsLoss()((Xtest @ a_tch + b_tch).squeeze(), ytest*1.0)\<close>

  \<^verbatim>\<open>.squeeze()\<close> turns the scores of shape \<open>(M, 1)\<close> into shape \<open>(M,)\<close> (for \<open>M > 1\<close>).
  \<^verbatim>\<open>torch.nn.BCEWithLogitsLoss()\<close> is the library's loss with its default reduction: the
  mean over \<open>n\<close> of \<open>- [y\<^sub>n log \<sigma>(x\<^sub>n) + (1 - y\<^sub>n) log (1 - \<sigma>(x\<^sub>n))]\<close>, with \<open>\<sigma>\<close> the sigmoid.
\<close>

definition squeeze :: "matrix \<Rightarrow> real list" where
  "squeeze M = concat M"

definition sigmoid :: "real \<Rightarrow> real" where
  "sigmoid z = 1 / (1 + exp (- z))"

definition BCEWithLogitsLoss :: "real list \<Rightarrow> real list \<Rightarrow> real" where
  "BCEWithLogitsLoss x y =
     (\<Sum>(xn, yn)\<leftarrow>zip x y. - (yn * ln (sigmoid xn) + (1 - yn) * ln (1 - sigmoid xn)))
       / real (length x)"

definition loss_torch :: "matrix \<Rightarrow> int list \<Rightarrow> matrix \<times> matrix \<Rightarrow> real" where
  "loss_torch Xtest ytest out =
     (case out of (a_tch, b_tch) \<Rightarrow>
        300 * BCEWithLogitsLoss (squeeze (add (matmul Xtest a_tch) b_tch))
                (map real_of_int ytest))"

subsection \<open>The loss of the TensorFlow notebook\<close>

text \<open>
  \<^verbatim>\<open>loss = tf.keras.losses.BinaryCrossentropy()
  slope, intercept = fit_logreg(Xtrain, lambda1_tf, lambda2_tf)
  # 30 is scale factor so visualization is pretty
  test_loss = 30 * loss(ytest, Xtest @ slope + intercept)\<close>

  \<^verbatim>\<open>tf.keras.losses.BinaryCrossentropy()\<close> is the library's loss with its defaults
  (\<^verbatim>\<open>from_logits=False\<close>): predictions of shape \<open>(M, 1)\<close> against labels of shape \<open>(M,)\<close>
  are squeezed to \<open>(M,)\<close> and read as probabilities, clipped to \<open>[\<epsilon>, 1 - \<epsilon>]\<close> with
  \<open>\<epsilon> = 10\<^sup>-\<^sup>7\<close>; the loss is the mean of \<open>- [t log (p + \<epsilon>) + (1 - t) log (1 - p + \<epsilon>)]\<close>.
\<close>

definition epsilon :: real where
  "epsilon = 1 / 10 ^ 7"

definition clip_by_value :: "real \<Rightarrow> real \<Rightarrow> real \<Rightarrow> real" where
  "clip_by_value t lo hi = min (max t lo) hi"

definition BinaryCrossentropy :: "int list \<Rightarrow> matrix \<Rightarrow> real" where
  "BinaryCrossentropy y_true y_pred =
     (let output = map (\<lambda>p. clip_by_value p epsilon (1 - epsilon)) (squeeze y_pred);
          target = map real_of_int y_true
      in (\<Sum>(t, p)\<leftarrow>zip target output.
             - (t * ln (p + epsilon) + (1 - t) * ln (1 - p + epsilon)))
           / real (length output))"

definition loss_tf :: "matrix \<Rightarrow> int list \<Rightarrow> matrix \<times> matrix \<Rightarrow> real" where
  "loss_tf Xtest ytest out =
     (case out of (slope, intercept) \<Rightarrow>
        BinaryCrossentropy ytest (add (matmul Xtest slope) intercept))"

definition test_loss_tf :: "matrix \<Rightarrow> int list \<Rightarrow> matrix \<times> matrix \<Rightarrow> real" where
  "test_loss_tf Xtest ytest out = 30 * loss_tf Xtest ytest out"

subsection \<open>The layer's output and the gradient\<close>

text \<open>
  The layer (\<^verbatim>\<open>CvxpyLayer(prob, [X], [a, b])\<close>; its code is not among the notebooks) returns
  one tensor for each variable: \<open>a\<close> of shape \<open>(n, 1)\<close> and \<open>b\<close> of shape \<open>(1, 1)\<close>, from the
  slope vector and the intercept its solver finds.
\<close>

definition layer_out :: "real list \<times> real \<Rightarrow> matrix \<times> matrix" where
  "layer_out \<theta> = (col (fst \<theta>), [[snd \<theta>]])"

text \<open>
  The partial derivative of a scalar function \<open>f\<close> of a tensor in the entry \<open>(i, j)\<close>, at \<open>X\<close>:
  what \<^verbatim>\<open>Xtrain.grad[i, j]\<close> (after \<^verbatim>\<open>loss.backward()\<close>) and
  \<^verbatim>\<open>tape.gradient(test_loss, Xtrain)[i, j]\<close> stand for.
\<close>

definition set_entry :: "matrix \<Rightarrow> nat \<Rightarrow> nat \<Rightarrow> real \<Rightarrow> matrix" where
  "set_entry X i j t = X[i := (X ! i)[j := t]]"

definition partial_derivative :: "(matrix \<Rightarrow> real) \<Rightarrow> matrix \<Rightarrow> nat \<Rightarrow> nat \<Rightarrow> real \<Rightarrow> bool" where
  "partial_derivative f X i j d \<longleftrightarrow>
     ((\<lambda>t. f (set_entry X i j t)) has_real_derivative d) (at (X ! i ! j))"

subsection \<open>The test loss as the specification writes it\<close>

text \<open>
  \<open>L\<^sup>t\<^sup>e\<^sup>s\<^sup>t(\<theta>) = (1/M) \<Sum>\<^sub>i \<ell>(\<theta>; x\<^sub>i, y\<^sub>i)\<close> over the test points, for \<open>\<theta> = (\<beta>, b)\<close>, with the logistic
  loss \<open>\<ell>(\<theta>; x, y) = log (1 + exp (\<beta>\<^sup>T x + b)) - y (\<beta>\<^sup>T x + b)\<close>, the negative of the summand of
  the log-likelihood.  (The notebooks' text prints \<open>\<ell>\<close> without the logarithm and with
  unbalanced brackets.)
\<close>

definition ell :: "real list \<Rightarrow> real \<Rightarrow> real list \<Rightarrow> real \<Rightarrow> real" where
  "ell beta b x y = ln (1 + exp (dot beta x + b)) - y * (dot beta x + b)"

definition L_test :: "real list list \<Rightarrow> real list \<Rightarrow> real list \<times> real \<Rightarrow> real" where
  "L_test xs ys \<theta> = (1 / real (length xs)) * (\<Sum>(x, y)\<leftarrow>zip xs ys. ell (fst \<theta>) (snd \<theta>) x y)"

section \<open>The notebooks as programs\<close>

text \<open>
  Each notebook is a linear script: its code cells run in order, a cell runs its
  statements in order, and a statement either completes and updates the state or raises
  and ends the run.  The state holds the notebook's variables (fields \<open>v_\<dots>\<close>, named after
  the Python variables) and what the libraries keep outside the namespace: the random
  generators, matplotlib's current figure, the files written, the charts shown, and a
  log of the library calls that completed.
\<close>

type_synonym rng = nat

datatype py_error = ZeroDivisionError | AttributeError | IndexError | RuntimeError
  | LibraryError string

datatype artist = Scatter "real list" "real list" | Arrow real real real real
  | XLim real real | YLim real real | Line "real list" "real option list" | Legend

type_synonym figure = "artist list"

text \<open>
  The layer object \<^verbatim>\<open>fit_logreg\<close>: from the values of the problem's parameters, in the
  order given to \<^verbatim>\<open>CvxpyLayer\<close>, to the problem it solves.
\<close>

type_synonym layer = "matrix list \<Rightarrow> problem"

text \<open>
  The name \<^verbatim>\<open>X\<close> is bound twice: to the array \<^verbatim>\<open>make_blobs\<close> returns, and later to
  \<^verbatim>\<open>cp.Parameter((m, n))\<close>, which has a shape and no value.
\<close>

datatype array_or_parameter = Array matrix | Parameter nat nat

record nb =
  np_rng :: rng
  fw_rng :: rng
  disk :: "string \<rightharpoonup> figure"
  screen :: "figure list"
  gcf :: figure
  calls :: "string list"
  v_n :: nat
  v_N :: nat
  v_X :: array_or_parameter
  v_y :: "int list"
  v_Xtrain :: matrix
  v_Xtest :: matrix
  v_ytrain :: "int list"
  v_ytest :: "int list"
  v_Xtrain_requires_grad :: bool
  v_Xtrain_dot_grad :: "matrix option"
  v_m :: nat
  v_Y :: matrix
  v_fit_logreg :: layer
  v_a_tch :: matrix
  v_b_tch :: matrix
  v_loss :: real
  v_slope :: matrix
  v_intercept :: matrix
  v_test_loss :: real
  v_Xtrain_grad :: "matrix option"
  v_lr :: "real list \<times> real"
  v_beta_train :: "real list"
  v_beta_test :: "real list"
  v_b_train :: real
  v_b_test :: real
  v_Xtrain_np :: matrix
  v_Xtrain_grad_np :: matrix
  v_ytrain_np :: "bool list"

text \<open>
  The libraries are not part of the repository.  What a notebook needs of them is a
  parameter: whether a call raises in a given state (\<open>raises\<close>, by the name of the call),
  the generator state a seed gives, the sampler behind \<^verbatim>\<open>make_blobs\<close>, the generator's
  \<^verbatim>\<open>permutation\<close>, the layer's solver (for a problem in variables \<open>a\<close> of \<open>n\<close> rows and \<open>b\<close>), the
  gradient automatic differentiation returns for a recorded scalar function at a point,
  and the fit of scikit-learn's \<^verbatim>\<open>LogisticRegression\<close> (flattened coefficients and
  intercept).
\<close>

record lib =
  raises :: "string \<Rightarrow> nb \<Rightarrow> py_error option"
  np_seed :: "nat \<Rightarrow> rng"
  fw_seed :: "nat \<Rightarrow> rng"
  make_blobs :: "rng \<Rightarrow> nat \<Rightarrow> nat \<Rightarrow> matrix \<Rightarrow> real \<Rightarrow> (matrix \<times> int list) \<times> rng"
  permutation :: "rng \<Rightarrow> nat \<Rightarrow> nat list \<times> rng"
  solve :: "nat \<Rightarrow> problem \<Rightarrow> real list \<times> real"
  autodiff :: "(matrix \<Rightarrow> real) \<Rightarrow> matrix \<Rightarrow> matrix"
  lr_fit :: "matrix \<Rightarrow> int list \<Rightarrow> real list \<times> real"

subsection \<open>Statements\<close>

type_synonym stmt = "nb \<Rightarrow> nb \<times> py_error option"

text \<open>An assignment of a value computed without a library call.\<close>

definition assign :: "(nb \<Rightarrow> nb) \<Rightarrow> stmt" where
  "assign upd s = (upd s, None)"

text \<open>
  A statement that calls the library: the call raises, and the state stays as it is, or
  it completes, is logged, and the statement's assignment is made.  A statement whose
  library calls change nothing in between is one such step, named after one of them.
\<close>

definition call :: "lib \<Rightarrow> string \<Rightarrow> (nb \<Rightarrow> nb) \<Rightarrow> stmt" where
  "call L name upd s =
     (case raises L name s of
        Some e \<Rightarrow> (s, Some e)
      | None \<Rightarrow> (upd (s\<lparr>calls := calls s @ [name]\<rparr>), None))"

text \<open>An operation of the interpreter or of the library that raises on its own condition.\<close>

definition guard :: "(nb \<Rightarrow> py_error option) \<Rightarrow> stmt \<Rightarrow> stmt" where
  "guard g c s = (case g s of Some e \<Rightarrow> (s, Some e) | None \<Rightarrow> c s)"

text \<open>Statements in sequence: the first exception ends the run, in the state it left.\<close>

fun seq :: "stmt list \<Rightarrow> stmt" where
  "seq [] s = (s, None)"
| "seq (c # cs) s = (case c s of (s', None) \<Rightarrow> seq cs s' | (s', Some e) \<Rightarrow> (s', Some e))"

text \<open>\<^verbatim>\<open>for i in range(count): body\<close>.\<close>

definition for_range :: "(nb \<Rightarrow> nat) \<Rightarrow> (nat \<Rightarrow> stmt) \<Rightarrow> stmt" where
  "for_range count body s = seq (map body [0..<count s]) s"

text \<open>
  \<^verbatim>\<open>with ctx as name: body\<close>, for a context manager whose exit handler changes nothing of the
  state modelled here and returns \<open>None\<close> (as \<^verbatim>\<open>tf.GradientTape\<close>'s does): an exception of the
  body is not suppressed.
\<close>

definition with_block :: "stmt \<Rightarrow> stmt list \<Rightarrow> stmt" where
  "with_block enter body s =
     (case enter s of (s', None) \<Rightarrow> seq body s' | (s', Some e) \<Rightarrow> (s', Some e))"

subsection \<open>Library functions with a documented result\<close>

text \<open>
  scikit-learn's \<^verbatim>\<open>train_test_split(X, y, test_size=t)\<close> with a float \<open>t\<close> and no
  \<^verbatim>\<open>train_size\<close>: \<open>n_test = ceil(t * n_samples)\<close>, \<open>n_train = n_samples - n_test\<close>; the
  generator's permutation of the indices gives the test indices (its first \<open>n_test\<close>
  entries) and the train indices (the next \<open>n_train\<close>); the result is
  \<open>X[train], X[test], y[train], y[test]\<close>.
\<close>

definition train_test_split ::
  "lib \<Rightarrow> rng \<Rightarrow> matrix \<Rightarrow> int list \<Rightarrow> real
     \<Rightarrow> (matrix \<times> matrix \<times> int list \<times> int list) \<times> rng" where
  "train_test_split L g X y test_size =
     (let n_samples = length X;
          n_test = nat \<lceil>test_size * real n_samples\<rceil>;
          n_train = n_samples - n_test;
          perm = fst (permutation L g n_samples);
          ind_test = take n_test perm;
          ind_train = take n_train (drop n_test perm)
      in ((map ((!) X) ind_train, map ((!) X) ind_test,
           map ((!) y) ind_train, map ((!) y) ind_test),
          snd (permutation L g n_samples)))"

text \<open>\<^verbatim>\<open>np.linspace(lo, hi, num)\<close>, with both end points.\<close>

definition linspace :: "real \<Rightarrow> real \<Rightarrow> nat \<Rightarrow> real list" where
  "linspace lo hi num = map (\<lambda>i. lo + (hi - lo) * real i / real (num - 1)) [0..<num]"

text \<open>\<^verbatim>\<open>.flatten()\<close> of an array of rank two.\<close>

definition flatten :: "matrix \<Rightarrow> real list" where
  "flatten M = concat M"

text \<open>
  \<^verbatim>\<open>M[mask, j]\<close>: column \<open>j\<close> of the rows selected by a boolean mask; \<open>None\<close> where numpy
  raises \<^verbatim>\<open>IndexError\<close>.
\<close>

definition masked_column :: "matrix \<Rightarrow> bool list \<Rightarrow> nat \<Rightarrow> real list option" where
  "masked_column M sel j =
     (if length sel = length M \<and> list_all (\<lambda>r. j < length r) M
      then Some (map (\<lambda>r. r ! j) (map fst (filter snd (zip M sel))))
      else None)"

text \<open>\<^verbatim>\<open>M[i, j]\<close>; \<open>None\<close> where numpy raises \<^verbatim>\<open>IndexError\<close>.\<close>

definition entry :: "matrix \<Rightarrow> nat \<Rightarrow> nat \<Rightarrow> real option" where
  "entry M i j = (if i < length M \<and> j < length (M ! i) then Some (M ! i ! j) else None)"

text \<open>
  \<^verbatim>\<open>hyperplane = lambda x, beta, b: - (b + beta[0] * x) / beta[1]\<close> on float64 values: a
  division by zero gives an infinity or a NaN (here \<open>None\<close>), not an exception.
\<close>

definition hyperplane :: "real \<Rightarrow> real list \<Rightarrow> real \<Rightarrow> real option" where
  "hyperplane x beta b =
     (if beta ! 1 = 0 then None else Some (- (b + beta ! 0 * x) / beta ! 1))"

text \<open>
  \<^verbatim>\<open>[hyperplane(x, beta, b) for x in np.linspace(-8, 8, 100)]\<close>; \<open>None\<close> where \<^verbatim>\<open>beta[1]\<close>
  raises \<^verbatim>\<open>IndexError\<close>.
\<close>

definition hyperplane_line :: "real list \<Rightarrow> real \<Rightarrow> real option list option" where
  "hyperplane_line beta b =
     (if length beta < 2 then None
      else Some (map (\<lambda>x. hyperplane x beta b) (linspace (- 8) 8 100)))"

text \<open>\<^verbatim>\<open>loss.backward()\<close> adds the gradient to what \<^verbatim>\<open>Xtrain.grad\<close> holds.\<close>

definition accumulate :: "matrix option \<Rightarrow> matrix \<Rightarrow> matrix" where
  "accumulate old G = (case old of None \<Rightarrow> G | Some G0 \<Rightarrow> map2 (map2 (+)) G0 G)"

subsection \<open>Statements shared by the two notebooks\<close>

text \<open>\<^verbatim>\<open>np.random.seed(0)\<close>.\<close>

definition s_np_seed :: "lib \<Rightarrow> stmt" where
  "s_np_seed L = call L ''np.random.seed'' (\<lambda>s. s\<lparr>np_rng := np_seed L 0\<rparr>)"

text \<open>\<^verbatim>\<open>X, y = make_blobs(N, n, centers=np.array([[2, 2], [-2, -2]]), cluster_std=3)\<close>.\<close>

definition s_make_blobs :: "lib \<Rightarrow> stmt" where
  "s_make_blobs L = call L ''make_blobs''
     (\<lambda>s. s\<lparr>v_X := Array (fst (fst (make_blobs L (np_rng s) (v_N s) (v_n s)
                                  [[2, 2], [- 2, - 2]] 3))),
            v_y := snd (fst (make_blobs L (np_rng s) (v_N s) (v_n s) [[2, 2], [- 2, - 2]] 3)),
            np_rng := snd (make_blobs L (np_rng s) (v_N s) (v_n s) [[2, 2], [- 2, - 2]] 3)\<rparr>)"

text \<open>
  \<^verbatim>\<open>Xtrain, Xtest, ytrain, ytest = train_test_split(X, y, test_size=.5)\<close>.  In the
  notebooks \<^verbatim>\<open>X\<close> holds the array of \<^verbatim>\<open>make_blobs\<close> here; a \<^verbatim>\<open>cp.Parameter\<close> has no rows to
  split, and scikit-learn rejects it with a \<^verbatim>\<open>ValueError\<close>.
\<close>

definition s_train_test_split :: "lib \<Rightarrow> stmt" where
  "s_train_test_split L =
     guard (\<lambda>s. case v_X s of Array A \<Rightarrow> None
                              | Parameter r c \<Rightarrow> Some (LibraryError ''ValueError''))
       (call L ''train_test_split''
          (\<lambda>s. case v_X s of
                  Array A \<Rightarrow>
                    (case train_test_split L (np_rng s) A (v_y s) (1 / 2) of
                       ((Xtr, Xte, ytr, yte), g) \<Rightarrow>
                         s\<lparr>v_Xtrain := Xtr, v_Xtest := Xte, v_ytrain := ytr, v_ytest := yte,
                           np_rng := g\<rparr>)
                | Parameter r c \<Rightarrow> s))"

text \<open>
  The statements that build the dataset, the same in both notebooks:
  \<^verbatim>\<open>np.random.seed(0); n = 2; N = 60\<close>, then \<^verbatim>\<open>make_blobs\<close> and \<^verbatim>\<open>train_test_split\<close>.
\<close>

definition generate_data :: "lib \<Rightarrow> stmt list" where
  "generate_data L =
     [s_np_seed L,
      assign (\<lambda>s. s\<lparr>v_n := 2\<rparr>),
      assign (\<lambda>s. s\<lparr>v_N := 60\<rparr>),
      s_make_blobs L,
      s_train_test_split L]"

text \<open>\<^verbatim>\<open>X = cp.Parameter((m, n))\<close>: the name \<^verbatim>\<open>X\<close> no longer holds the array.\<close>

definition s_X_Parameter :: "lib \<Rightarrow> stmt" where
  "s_X_Parameter L = call L ''cp.Parameter'' (\<lambda>s. s\<lparr>v_X := Parameter (v_m s) (v_n s)\<rparr>)"

text \<open>\<^verbatim>\<open>m = Xtrain.shape[0]\<close>.\<close>

definition s_m :: stmt where
  "s_m = assign (\<lambda>s. s\<lparr>v_m := length (v_Xtrain s)\<rparr>)"

text \<open>\<^verbatim>\<open>Y = ytrain.numpy()[:, np.newaxis]\<close>.\<close>

definition s_Y :: "lib \<Rightarrow> stmt" where
  "s_Y L = call L ''numpy'' (\<lambda>s. s\<lparr>v_Y := newaxis (v_ytrain s)\<rparr>)"

text \<open>
  \<^verbatim>\<open>log_likelihood = (1. / m) * cp.sum(...)\<close>: the interpreter divides by \<open>m\<close> first, then
  cvxpy builds the expression.  The expressions \<^verbatim>\<open>log_likelihood\<close>, \<^verbatim>\<open>regularization\<close> and
  \<^verbatim>\<open>prob\<close>, and the variables and parameters \<^verbatim>\<open>a\<close>, \<^verbatim>\<open>b\<close>, \<^verbatim>\<open>lambda1\<close>, \<^verbatim>\<open>lambda2\<close> hold no
  data: the state keeps them only through \<^verbatim>\<open>fit_logreg\<close>.
\<close>

definition s_log_likelihood :: "lib \<Rightarrow> stmt" where
  "s_log_likelihood L =
     guard (\<lambda>s. if v_m s = 0 then Some ZeroDivisionError else None) (call L ''cp.sum'' id)"

text \<open>\<^verbatim>\<open>lr.fit(Xtest.numpy(), ytest.numpy())\<close>.\<close>

definition s_lr_fit :: "lib \<Rightarrow> stmt" where
  "s_lr_fit L = call L ''lr.fit'' (\<lambda>s. s\<lparr>v_lr := lr_fit L (v_Xtest s) (v_ytest s)\<rparr>)"

text \<open>\<^verbatim>\<open>Xtrain_grad_np = Xtrain_grad.numpy()\<close>; \<^verbatim>\<open>None\<close> has no attribute \<^verbatim>\<open>numpy\<close>.\<close>

definition s_Xtrain_grad_np :: "lib \<Rightarrow> stmt" where
  "s_Xtrain_grad_np L =
     guard (\<lambda>s. if v_Xtrain_grad s = None then Some AttributeError else None)
       (call L ''numpy'' (\<lambda>s. s\<lparr>v_Xtrain_grad_np := the (v_Xtrain_grad s)\<rparr>))"

text \<open>\<^verbatim>\<open>ytrain_np = ytrain.numpy().astype(np.bool)\<close>.\<close>

definition s_ytrain_np :: "lib \<Rightarrow> stmt" where
  "s_ytrain_np L = call L ''astype'' (\<lambda>s. s\<lparr>v_ytrain_np := map (\<lambda>v. v \<noteq> 0) (v_ytrain s)\<rparr>)"

text \<open>
  \<^verbatim>\<open>plt.scatter(Xtrain_np[ytrain_np, 0], Xtrain_np[ytrain_np, 1], s=25, ...)\<close> when \<open>pos\<close>,
  and the same with \<^verbatim>\<open>~ytrain_np\<close> otherwise.
\<close>

definition s_scatter :: "lib \<Rightarrow> bool \<Rightarrow> stmt" where
  "s_scatter L pos =
     guard (\<lambda>s. if masked_column (v_Xtrain_np s) (map (\<lambda>t. t = pos) (v_ytrain_np s)) 0 = None
                   \<or> masked_column (v_Xtrain_np s) (map (\<lambda>t. t = pos) (v_ytrain_np s)) 1 = None
                then Some IndexError else None)
       (call L ''plt.scatter''
          (\<lambda>s. s\<lparr>gcf := gcf s @
                  [Scatter (the (masked_column (v_Xtrain_np s) (map (\<lambda>t. t = pos) (v_ytrain_np s)) 0))
                           (the (masked_column (v_Xtrain_np s) (map (\<lambda>t. t = pos) (v_ytrain_np s)) 1))]\<rparr>))"

text \<open>
  \<^verbatim>\<open>plt.arrow(Xtrain_np[i, 0], Xtrain_np[i, 1], Xtrain_grad_np[i, 0], Xtrain_grad_np[i, 1])\<close>,
  the body of \<^verbatim>\<open>for i in range(m)\<close>.
\<close>

definition s_arrow :: "lib \<Rightarrow> nat \<Rightarrow> stmt" where
  "s_arrow L i =
     guard (\<lambda>s. if entry (v_Xtrain_np s) i 0 = None \<or> entry (v_Xtrain_np s) i 1 = None
                   \<or> entry (v_Xtrain_grad_np s) i 0 = None \<or> entry (v_Xtrain_grad_np s) i 1 = None
                then Some IndexError else None)
       (call L ''plt.arrow''
          (\<lambda>s. s\<lparr>gcf := gcf s @
                  [Arrow (the (entry (v_Xtrain_np s) i 0)) (the (entry (v_Xtrain_np s) i 1))
                         (the (entry (v_Xtrain_grad_np s) i 0))
                         (the (entry (v_Xtrain_grad_np s) i 1))]\<rparr>))"

text \<open>
  \<^verbatim>\<open>plt.plot(np.linspace(-8, 8, 100), [hyperplane(x, beta, b) for x in
  np.linspace(-8, 8, 100)], ...)\<close>, for the train line and for the test line.
\<close>

definition s_plot :: "lib \<Rightarrow> (nb \<Rightarrow> real list) \<Rightarrow> (nb \<Rightarrow> real) \<Rightarrow> stmt" where
  "s_plot L beta b =
     guard (\<lambda>s. if hyperplane_line (beta s) (b s) = None then Some IndexError else None)
       (call L ''plt.plot''
          (\<lambda>s. s\<lparr>gcf := gcf s @
                  [Line (linspace (- 8) 8 100) (the (hyperplane_line (beta s) (b s)))]\<rparr>))"

text \<open>
  The plotting statements common to both notebooks, from \<^verbatim>\<open>plt.figure()\<close> to
  \<^verbatim>\<open>plt.legend()\<close>.
\<close>

definition plot_statements :: "lib \<Rightarrow> stmt list" where
  "plot_statements L =
     [call L ''plt.figure'' (\<lambda>s. s\<lparr>gcf := []\<rparr>),
      s_scatter L True,
      s_scatter L False,
      for_range v_m (s_arrow L),
      call L ''plt.xlim'' (\<lambda>s. s\<lparr>gcf := gcf s @ [XLim (- 8) 8]\<rparr>),
      call L ''plt.ylim'' (\<lambda>s. s\<lparr>gcf := gcf s @ [YLim (- 8) 8]\<rparr>),
      s_plot L v_beta_train v_b_train,
      s_plot L v_beta_test v_b_test,
      call L ''plt.legend'' (\<lambda>s. s\<lparr>gcf := gcf s @ [Legend]\<rparr>)]"

text \<open>\<^verbatim>\<open>plt.savefig(name)\<close> and \<^verbatim>\<open>plt.show()\<close>.\<close>

definition s_savefig :: "lib \<Rightarrow> string \<Rightarrow> stmt" where
  "s_savefig L name = call L ''plt.savefig'' (\<lambda>s. s\<lparr>disk := (disk s)(name \<mapsto> gcf s)\<rparr>)"

definition s_show :: "lib \<Rightarrow> stmt" where
  "s_show L = call L ''plt.show'' (\<lambda>s. s\<lparr>screen := screen s @ [gcf s]\<rparr>)"

subsection \<open>The PyTorch notebook\<close>

definition cell1_torch :: "lib \<Rightarrow> stmt list" where
  "cell1_torch L =
     [call L ''import cvxpy'' id,
      call L ''import matplotlib.pyplot'' id,
      call L ''import numpy'' id,
      call L ''import torch'' id,
      call L ''import cvxpylayers.torch'' id]"

text \<open>
  \<^verbatim>\<open>fit_logreg = CvxpyLayer(prob, [X], [a, b])\<close>, for the problem \<^verbatim>\<open>prob\<close> built from \<open>m\<close> and
  \<open>Y\<close>; the layer takes one value, for the parameter \<^verbatim>\<open>X\<close>.
\<close>

definition s_CvxpyLayer_torch :: "lib \<Rightarrow> stmt" where
  "s_CvxpyLayer_torch L = call L ''CvxpyLayer''
     (\<lambda>s. s\<lparr>v_fit_logreg :=
              (\<lambda>ps. case ps of
                       [X] \<Rightarrow> prob_torch (v_m s) (v_Y s) X
                     | _ \<Rightarrow> Maximize (\<lambda>v. 0))\<rparr>)"

text \<open>
  \<^verbatim>\<open>Xtrain, Xtest, ytrain, ytest = map(torch.from_numpy, [Xtrain, Xtest, ytrain, ytest])\<close>:
  four conversions, then the names are bound to the new tensors, which hold the same
  numbers, require no gradient and have none.
\<close>

definition s_from_numpy :: "lib \<Rightarrow> stmt" where
  "s_from_numpy L =
     seq [call L ''torch.from_numpy'' id, call L ''torch.from_numpy'' id,
          call L ''torch.from_numpy'' id, call L ''torch.from_numpy'' id,
          assign (\<lambda>s. s\<lparr>v_Xtrain_requires_grad := False, v_Xtrain_dot_grad := None\<rparr>)]"

text \<open>
  The declaration of the problem and of the layer: \<^verbatim>\<open>a = cp.Variable((n, 1))\<close>,
  \<^verbatim>\<open>b = cp.Variable((1, 1))\<close>, \<^verbatim>\<open>X = cp.Parameter((m, n))\<close>, \<^verbatim>\<open>Y\<close>, \<^verbatim>\<open>log_likelihood\<close>,
  \<^verbatim>\<open>regularization\<close>, \<^verbatim>\<open>prob\<close> and \<^verbatim>\<open>fit_logreg\<close>.
\<close>

definition declare_problem_torch :: "lib \<Rightarrow> stmt list" where
  "declare_problem_torch L =
     [call L ''cp.Variable'' id,
      call L ''cp.Variable'' id,
      s_X_Parameter L,
      s_Y L,
      s_log_likelihood L,
      call L ''cp.norm'' id,
      call L ''cp.Problem'' id,
      s_CvxpyLayer_torch L]"

definition cell3_torch :: "lib \<Rightarrow> stmt list" where
  "cell3_torch L =
     [call L ''import sklearn.datasets'' id,
      call L ''import sklearn.model_selection'' id,
      call L ''torch.manual_seed'' (\<lambda>s. s\<lparr>fw_rng := fw_seed L 0\<rparr>)]
     @ generate_data L @
     [s_from_numpy L,
      call L ''requires_grad_'' (\<lambda>s. s\<lparr>v_Xtrain_requires_grad := True\<rparr>),
      s_m]
     @ declare_problem_torch L"

text \<open>
  \<^verbatim>\<open>a_tch, b_tch = fit_logreg(Xtrain)\<close>, the loss, \<^verbatim>\<open>loss.backward()\<close> (which needs a
  tensor that requires a gradient) and \<^verbatim>\<open>Xtrain_grad = Xtrain.grad\<close>.
\<close>

definition s_forward_torch :: "lib \<Rightarrow> stmt" where
  "s_forward_torch L = call L ''fit_logreg''
     (\<lambda>s. s\<lparr>v_a_tch := fst (layer_out (solve L (v_n s) (v_fit_logreg s [v_Xtrain s]))),
            v_b_tch := snd (layer_out (solve L (v_n s) (v_fit_logreg s [v_Xtrain s])))\<rparr>)"

definition s_loss_torch :: "lib \<Rightarrow> stmt" where
  "s_loss_torch L = call L ''BCEWithLogitsLoss''
     (\<lambda>s. s\<lparr>v_loss := loss_torch (v_Xtest s) (v_ytest s) (v_a_tch s, v_b_tch s)\<rparr>)"

definition s_backward :: "lib \<Rightarrow> stmt" where
  "s_backward L =
     guard (\<lambda>s. if v_Xtrain_requires_grad s then None else Some RuntimeError)
       (call L ''loss.backward''
          (\<lambda>s. s\<lparr>v_Xtrain_dot_grad := Some (accumulate (v_Xtrain_dot_grad s)
                   (autodiff L
                      (\<lambda>X. loss_torch (v_Xtest s) (v_ytest s)
                              (layer_out (solve L (v_n s) (v_fit_logreg s [X]))))
                      (v_Xtrain s)))\<rparr>))"

definition cell5_torch :: "lib \<Rightarrow> stmt list" where
  "cell5_torch L =
     [call L ''import sklearn.linear_model'' id,
      s_forward_torch L,
      s_loss_torch L,
      s_backward L,
      assign (\<lambda>s. s\<lparr>v_Xtrain_grad := v_Xtrain_dot_grad s\<rparr>)]"

text \<open>
  The statements of the last cell before the plot: the classifier fitted to the test set
  (\<^verbatim>\<open>lr\<close>), the two hyperplanes (\<^verbatim>\<open>beta_train\<close>, \<^verbatim>\<open>beta_test\<close>, \<^verbatim>\<open>b_train\<close>, \<^verbatim>\<open>b_test\<close>; the
  \<^verbatim>\<open>hyperplane\<close> lambda is the function \<^const>\<open>hyperplane\<close>) and the numpy copies of the
  data.
\<close>

definition prepare_plot_torch :: "lib \<Rightarrow> stmt list" where
  "prepare_plot_torch L =
     [call L ''LogisticRegression'' id,
      s_lr_fit L,
      call L ''flatten'' (\<lambda>s. s\<lparr>v_beta_train := flatten (v_a_tch s)\<rparr>),
      call L ''flatten'' (\<lambda>s. s\<lparr>v_beta_test := fst (v_lr s)\<rparr>),
      call L ''numpy'' (\<lambda>s. s\<lparr>v_b_train := scalar_of (v_b_tch s)\<rparr>),
      assign (\<lambda>s. s\<lparr>v_b_test := snd (v_lr s)\<rparr>),
      call L ''numpy'' (\<lambda>s. s\<lparr>v_Xtrain_np := v_Xtrain s\<rparr>),
      s_Xtrain_grad_np L,
      s_ytrain_np L]"

definition cell7_torch :: "lib \<Rightarrow> stmt list" where
  "cell7_torch L =
     prepare_plot_torch L @ plot_statements L @
     [s_savefig L ''data_poisoning.pdf'',
      s_show L]"

definition notebook_torch :: "lib \<Rightarrow> stmt" where
  "notebook_torch L = seq (cell1_torch L @ cell3_torch L @ cell5_torch L @ cell7_torch L)"

subsection \<open>The TensorFlow notebook\<close>

definition cell1_tf :: "lib \<Rightarrow> stmt list" where
  "cell1_tf L =
     [call L ''import cvxpy'' id,
      call L ''import matplotlib.pyplot'' id,
      call L ''import numpy'' id,
      call L ''import tensorflow'' id,
      call L ''import cvxpylayers.tensorflow.cvxpylayer'' id]"

text \<open>
  \<^verbatim>\<open>fit_logreg = CvxpyLayer(prob, [X, lambda1, lambda2], [a, b])\<close>; the objective has
  shape \<open>(1, 1)\<close>, and the layer takes three values, for \<^verbatim>\<open>X\<close>, \<^verbatim>\<open>lambda1\<close> and \<^verbatim>\<open>lambda2\<close>.
\<close>

definition s_CvxpyLayer_tf :: "lib \<Rightarrow> stmt" where
  "s_CvxpyLayer_tf L = call L ''CvxpyLayer''
     (\<lambda>s. s\<lparr>v_fit_logreg :=
              (\<lambda>ps. case ps of
                       [X, lambda1, lambda2] \<Rightarrow> prob_tf (v_m s) (v_Y s) X lambda1 lambda2
                     | _ \<Rightarrow> Maximize (\<lambda>v. 0))\<rparr>)"

text \<open>
  \<^verbatim>\<open>Xtrain, Xtest, ytrain, ytest = map(tf.constant, [Xtrain, Xtest, ytrain, ytest])\<close>.
\<close>

definition s_tf_constant :: "lib \<Rightarrow> stmt" where
  "s_tf_constant L =
     seq [call L ''tf.constant'' id, call L ''tf.constant'' id,
          call L ''tf.constant'' id, call L ''tf.constant'' id]"

text \<open>
  \<^verbatim>\<open>lambda1_tf\<close> and \<^verbatim>\<open>lambda2_tf\<close> (the constants \<^const>\<open>lambda1_tf\<close> and
  \<^const>\<open>lambda2_tf\<close>), then the declaration of the problem and of the layer, with the two
  weights as parameters \<^verbatim>\<open>lambda1\<close> and \<^verbatim>\<open>lambda2\<close>.
\<close>

definition declare_problem_tf :: "lib \<Rightarrow> stmt list" where
  "declare_problem_tf L =
     [call L ''tf.constant'' id,
      call L ''tf.constant'' id,
      call L ''cp.Variable'' id,
      call L ''cp.Variable'' id,
      call L ''cp.Parameter'' id,
      call L ''cp.Parameter'' id,
      s_X_Parameter L,
      s_Y L,
      s_log_likelihood L,
      call L ''cp.norm'' id,
      call L ''cp.Problem'' id,
      s_CvxpyLayer_tf L]"

definition cell3_tf :: "lib \<Rightarrow> stmt list" where
  "cell3_tf L =
     [call L ''import sklearn.datasets'' id,
      call L ''import sklearn.model_selection'' id,
      call L ''tf.random.set_seed'' (\<lambda>s. s\<lparr>fw_rng := fw_seed L 0\<rparr>)]
     @ generate_data L @
     [s_tf_constant L,
      s_m]
     @ declare_problem_tf L"

text \<open>
  \<^verbatim>\<open>slope, intercept = fit_logreg(Xtrain, lambda1_tf, lambda2_tf)\<close>, the scaled loss, and
  \<^verbatim>\<open>Xtrain_grad = tape.gradient(test_loss, Xtrain)\<close>.
\<close>

definition s_forward_tf :: "lib \<Rightarrow> stmt" where
  "s_forward_tf L = call L ''fit_logreg''
     (\<lambda>s. s\<lparr>v_slope := fst (layer_out (solve L (v_n s)
                (v_fit_logreg s [v_Xtrain s, lambda1_tf, lambda2_tf]))),
            v_intercept := snd (layer_out (solve L (v_n s)
                (v_fit_logreg s [v_Xtrain s, lambda1_tf, lambda2_tf])))\<rparr>)"

definition s_test_loss_tf :: "lib \<Rightarrow> stmt" where
  "s_test_loss_tf L = call L ''loss''
     (\<lambda>s. s\<lparr>v_test_loss := test_loss_tf (v_Xtest s) (v_ytest s) (v_slope s, v_intercept s)\<rparr>)"

definition s_tape_gradient :: "lib \<Rightarrow> stmt" where
  "s_tape_gradient L = call L ''tape.gradient''
     (\<lambda>s. s\<lparr>v_Xtrain_grad := Some
              (autodiff L
                 (\<lambda>X. test_loss_tf (v_Xtest s) (v_ytest s)
                         (layer_out (solve L (v_n s)
                            (v_fit_logreg s [X, lambda1_tf, lambda2_tf]))))
                 (v_Xtrain s))\<rparr>)"

definition cell5_tf :: "lib \<Rightarrow> stmt list" where
  "cell5_tf L =
     [call L ''import sklearn.linear_model'' id,
      call L ''BinaryCrossentropy'' id,
      with_block (call L ''tf.GradientTape'' id)
        [call L ''tape.watch'' id,
         s_forward_tf L,
         s_test_loss_tf L],
      s_tape_gradient L]"

definition prepare_plot_tf :: "lib \<Rightarrow> stmt list" where
  "prepare_plot_tf L =
     [call L ''LogisticRegression'' id,
      s_lr_fit L,
      call L ''flatten'' (\<lambda>s. s\<lparr>v_beta_train := flatten (v_slope s)\<rparr>),
      call L ''flatten'' (\<lambda>s. s\<lparr>v_beta_test := fst (v_lr s)\<rparr>),
      call L ''numpy'' (\<lambda>s. s\<lparr>v_b_train := scalar_of (v_intercept s)\<rparr>),
      assign (\<lambda>s. s\<lparr>v_b_test := snd (v_lr s)\<rparr>),
      call L ''numpy'' (\<lambda>s. s\<lparr>v_Xtrain_np := v_Xtrain s\<rparr>),
      s_Xtrain_grad_np L,
      s_ytrain_np L]"

definition cell7_tf :: "lib \<Rightarrow> stmt list" where
  "cell7_tf L =
     prepare_plot_tf L @ plot_statements L @
     [s_show L]"

definition notebook_tf :: "lib \<Rightarrow> stmt" where
  "notebook_tf L = seq (cell1_tf L @ cell3_tf L @ cell5_tf L @ cell7_tf L)"

subsection \<open>What the libraries promise about shapes\<close>

text \<open>
  \<^verbatim>\<open>make_blobs(N, n, ...)\<close> returns \<open>N\<close> points with \<open>n\<close> coordinates and \<open>N\<close> labels;
  \<^verbatim>\<open>permutation(k)\<close> returns the numbers below \<open>k\<close> in some order; the layer returns a slope
  with one entry for each row of the variable \<open>a\<close>; a gradient has the shape of the point
  it is taken at; a fitted logistic regression has one coefficient for each feature.
\<close>

definition lib_contract :: "lib \<Rightarrow> bool" where
  "lib_contract L \<longleftrightarrow>
     (\<forall>g N n c sd. has_shape (fst (fst (make_blobs L g N n c sd))) N n
                    \<and> length (snd (fst (make_blobs L g N n c sd))) = N) \<and>
     (\<forall>g k. length (fst (permutation L g k)) = k \<and> set (fst (permutation L g k)) = {..<k}) \<and>
     (\<forall>n obj. length (fst (solve L n obj)) = n) \<and>
     (\<forall>f X. map length (autodiff L f X) = map length X) \<and>
     (\<forall>X y M n. has_shape X M n \<longrightarrow> 0 < M \<longrightarrow> length (fst (lr_fit L X y)) = n)"

subsection \<open>A sample library and a fresh kernel\<close>

text \<open>
  A library in which no call raises: sample point \<open>i\<close> is \<open>(i, \<dots>, i)\<close> with label \<open>i mod 2\<close>,
  the permutation counts down, the layer returns zero, every gradient is zero.
\<close>

definition sample_lib :: lib where
  "sample_lib =
     \<lparr>raises = (\<lambda>name s. None),
      np_seed = (\<lambda>k. k),
      fw_seed = (\<lambda>k. k),
      make_blobs = (\<lambda>g N n c sd. ((map (\<lambda>i. replicate n (real i)) [0..<N],
                                    map (\<lambda>i. int (i mod 2)) [0..<N]), Suc g)),
      permutation = (\<lambda>g k. (rev [0..<k], Suc g)),
      solve = (\<lambda>n obj. (replicate n 0, 0)),
      autodiff = (\<lambda>f X. map (map (\<lambda>x. 0)) X),
      lr_fit = (\<lambda>X y. (replicate (length (hd X)) 0, 0))\<rparr>"

definition fresh_kernel :: nb where
  "fresh_kernel =
     \<lparr>np_rng = 0, fw_rng = 0, disk = Map.empty, screen = [], gcf = [], calls = [],
      v_n = 0, v_N = 0, v_X = Array [], v_y = [], v_Xtrain = [], v_Xtest = [], v_ytrain = [],
      v_ytest = [], v_Xtrain_requires_grad = False, v_Xtrain_dot_grad = None, v_m = 0,
      v_Y = [], v_fit_logreg = (\<lambda>ps. Maximize (\<lambda>v. 0)), v_a_tch = [], v_b_tch = [], v_loss = 0,
      v_slope = [], v_intercept = [], v_test_loss = 0, v_Xtrain_grad = None,
      v_lr = ([], 0), v_beta_train = [], v_beta_test = [], v_b_train = 0, v_b_test = 0,
      v_Xtrain_np = [], v_Xtrain_grad_np = [], v_ytrain_np = []\<rparr>"

section \<open>Assertions about runs\<close>

text \<open>
  \<open>spec P c Q E\<close>: started in a state where \<open>P\<close> holds, the statement \<open>c\<close> either completes
  in a state where \<open>Q\<close> holds, or raises \<open>e\<close> in a state \<open>s'\<close> with \<open>E s' e\<close>.
\<close>

definition spec ::
  "(nb \<Rightarrow> bool) \<Rightarrow> stmt \<Rightarrow> (nb \<Rightarrow> bool) \<Rightarrow> (nb \<Rightarrow> py_error \<Rightarrow> bool) \<Rightarrow> bool" where
  "spec P c Q E \<longleftrightarrow>
     (\<forall>s s' r. P s \<longrightarrow> c s = (s', r) \<longrightarrow> (case r of None \<Rightarrow> Q s' | Some e \<Rightarrow> E s' e))"

text \<open>
  A list of statements with an assertion for each position: \<open>A k\<close> holds before the
  statement at position \<open>k\<close> and \<open>A (k + 1)\<close> after it.
\<close>

fun chain ::
  "(nat \<Rightarrow> nb \<Rightarrow> bool) \<Rightarrow> nat \<Rightarrow> stmt list \<Rightarrow> (nb \<Rightarrow> py_error \<Rightarrow> bool) \<Rightarrow> bool" where
  "chain A k [] E \<longleftrightarrow> True"
| "chain A k (c # cs) E \<longleftrightarrow> spec (A k) c (A (Suc k)) E \<and> chain A (Suc k) cs E"

text \<open>The exception \<open>e\<close> is what a library call raises in the state \<open>s\<close>.\<close>

definition raised :: "lib \<Rightarrow> nb \<Rightarrow> py_error \<Rightarrow> bool" where
  "raised L s e \<longleftrightarrow> (\<exists>name. raises L name s = Some e)"

text \<open>The dataset of a state, and the dataset the seeded generator gives.\<close>

definition dataset :: "nb \<Rightarrow> matrix \<times> matrix \<times> int list \<times> int list" where
  "dataset s = (v_Xtrain s, v_Xtest s, v_ytrain s, v_ytest s)"

definition seeded_blobs :: "lib \<Rightarrow> (matrix \<times> int list) \<times> rng" where
  "seeded_blobs L = make_blobs L (np_seed L 0) 60 2 [[2, 2], [- 2, - 2]] 3"

definition seeded_dataset :: "lib \<Rightarrow> matrix \<times> matrix \<times> int list \<times> int list" where
  "seeded_dataset L =
     fst (train_test_split L (snd (seeded_blobs L))
            (fst (fst (seeded_blobs L))) (snd (fst (seeded_blobs L))) (1 / 2))"

text \<open>
  The state after the dataset is built: \<open>N = 60\<close> points in \<open>n = 2\<close> dimensions from
  \<^verbatim>\<open>make_blobs\<close> with centers \<open>(2, 2)\<close> and \<open>(-2, -2)\<close> and standard deviation \<open>3\<close>, split with
  \<open>test_size = 0.5\<close>, and \<open>m\<close> the number of training points.
\<close>

definition split_done :: "lib \<Rightarrow> nb \<Rightarrow> bool" where
  "split_done L s \<longleftrightarrow>
     v_n s = 2 \<and> v_N s = 60 \<and> v_y s = snd (fst (seeded_blobs L)) \<and>
     dataset s = seeded_dataset L"

definition generated :: "lib \<Rightarrow> nb \<Rightarrow> bool" where
  "generated L s \<longleftrightarrow> split_done L s \<and> v_m s = length (v_Xtrain s)"

text \<open>The shapes of the data: thirty training points and thirty test points in the plane.\<close>

definition data_ready :: "nb \<Rightarrow> bool" where
  "data_ready s \<longleftrightarrow>
     v_n s = 2 \<and> v_m s = 30 \<and> has_shape (v_Xtrain s) 30 2 \<and> has_shape (v_Xtest s) 30 2 \<and>
     length (v_ytrain s) = 30 \<and> length (v_ytest s) = 30"

text \<open>
  The calls that mark the four phases of a notebook: the dataset is generated, the layer
  is applied, the gradient is computed, the chart is shown.
\<close>

definition is_phase :: "string \<Rightarrow> bool" where
  "is_phase name \<longleftrightarrow>
     name \<in> set [''make_blobs'', ''fit_logreg'', ''loss.backward'', ''tape.gradient'', ''plt.show'']"

text \<open>The phase calls a log holds, in order.\<close>

definition phases :: "nb \<Rightarrow> string list" where
  "phases s = filter is_phase (calls s)"

text \<open>The state after the third cell of the PyTorch notebook and of the TensorFlow notebook.\<close>

definition ready_torch :: "lib \<Rightarrow> nb \<Rightarrow> bool" where
  "ready_torch L s \<longleftrightarrow>
     generated L s \<and> v_Xtrain_requires_grad s \<and> v_Xtrain_dot_grad s = None"

definition ready_tf :: "lib \<Rightarrow> nb \<Rightarrow> bool" where
  "ready_tf L s \<longleftrightarrow> generated L s"

text \<open>
  What the declaration of the problem leaves: \<^verbatim>\<open>X\<close> is a parameter of shape \<open>(m, n)\<close>, \<^verbatim>\<open>Y\<close> the
  column of the training labels, and \<^verbatim>\<open>fit_logreg\<close> the layer of the problem \<^verbatim>\<open>prob\<close>.
\<close>

definition declared_torch :: "lib \<Rightarrow> nb \<Rightarrow> bool" where
  "declared_torch L s \<longleftrightarrow>
     ready_torch L s \<and> v_X s = Parameter (v_m s) (v_n s) \<and> v_Y s = newaxis (v_ytrain s) \<and>
     v_fit_logreg s = (\<lambda>ps. case ps of [X] \<Rightarrow> prob_torch (v_m s) (v_Y s) X
                                      | _ \<Rightarrow> Maximize (\<lambda>v. 0))"

definition declared_tf :: "lib \<Rightarrow> nb \<Rightarrow> bool" where
  "declared_tf L s \<longleftrightarrow>
     ready_tf L s \<and> v_X s = Parameter (v_m s) (v_n s) \<and> v_Y s = newaxis (v_ytrain s) \<and>
     v_fit_logreg s = (\<lambda>ps. case ps of
                               [X, lambda1, lambda2] \<Rightarrow> prob_tf (v_m s) (v_Y s) X lambda1 lambda2
                             | _ \<Rightarrow> Maximize (\<lambda>v. 0))"

text \<open>
  The state after the gradient cell (the data, a gradient shaped like the training
  points, and a slope with two entries) and before the first plotting call.
\<close>

definition fitted :: "(nb \<Rightarrow> matrix) \<Rightarrow> nb \<Rightarrow> bool" where
  "fitted slope_of s \<longleftrightarrow>
     data_ready s \<and>
     (\<exists>G. v_Xtrain_grad s = Some G \<and> map length G = map length (v_Xtrain s)) \<and>
     length (flatten (slope_of s)) = 2"

definition plot_ready :: "nb \<Rightarrow> bool" where
  "plot_ready s \<longleftrightarrow>
     v_m s = 30 \<and> has_shape (v_Xtrain_np s) 30 2 \<and>
     has_shape (v_Xtrain_grad_np s) 30 2 \<and>
     length (v_ytrain_np s) = 30 \<and> length (v_beta_train s) = 2 \<and> length (v_beta_test s) = 2"

text \<open>
  What a run has put out so far: the phase calls logged, the files on disk and the
  figures shown; what an exception leaves of the files and the screen; and the files
  other than \<^verbatim>\<open>data_poisoning.pdf\<close>.
\<close>

definition outputs :: "string list \<Rightarrow> (string \<rightharpoonup> figure) \<Rightarrow> figure list \<Rightarrow> nb \<Rightarrow> bool" where
  "outputs cs d sc s \<longleftrightarrow> phases s = cs \<and> disk s = d \<and> screen s = sc"

definition kept :: "(string \<rightharpoonup> figure) \<Rightarrow> figure list \<Rightarrow> nb \<Rightarrow> py_error \<Rightarrow> bool" where
  "kept d sc s e \<longleftrightarrow> disk s = d \<and> screen s = sc"

definition off_pdf :: "(string \<rightharpoonup> figure) \<Rightarrow> nb \<Rightarrow> bool" where
  "off_pdf d s \<longleftrightarrow> (\<forall>f. f \<noteq> ''data_poisoning.pdf'' \<longrightarrow> disk s f = d f)"

text \<open>The sample library with a display on which \<^verbatim>\<open>plt.xlim\<close> always fails.\<close>

definition failing_lib :: lib where
  "failing_lib =
     sample_lib\<lparr>raises := (\<lambda>name s. if name = ''plt.xlim''
                                    then Some (LibraryError ''RuntimeError'') else None)\<rparr>"

section \<open>The library call behind each statement\<close>

text \<open>
  What a statement does with the library: it makes one named call (\<open>Does\<close>), it makes none
  (\<open>Own\<close>: a plain assignment), or it is made of several statements run in order
  (\<open>Several\<close>: an unpacked \<^verbatim>\<open>map\<close>, the body of a \<^verbatim>\<open>with\<close>, the rounds of a \<^verbatim>\<open>for\<close>).
\<close>

datatype shape = Does string | Own | Several "shape list"

fun calls_of :: "shape \<Rightarrow> string list" where
  "calls_of (Does name) = [name]"
| "calls_of Own = []"
| "calls_of (Several shs) = concat (map calls_of shs)"

text \<open>
  \<open>follows L sh c s\<close>: run in the state \<open>s\<close>, the statement \<open>c\<close> does what \<open>sh\<close> says and handles
  no failure.  Where \<open>sh\<close> is \<open>Does name\<close>: if the call \<open>name\<close> raises in \<open>s\<close>, the statement raises
  the same exception and leaves the state as it was; if the call returns, the statement
  completes, and the call is the one call it has logged.  Where \<open>sh\<close> is \<open>Own\<close>: the statement
  completes and logs no call.  Where \<open>sh\<close> is \<open>Several shs\<close>: the statements it is made of
  follow \<open>shs\<close> one after the other, each in the state the one before has left, up to the
  first that raises.
\<close>

inductive follows :: "lib \<Rightarrow> shape \<Rightarrow> stmt \<Rightarrow> nb \<Rightarrow> bool"
  and follows_list :: "lib \<Rightarrow> shape list \<Rightarrow> stmt list \<Rightarrow> nb \<Rightarrow> bool"
  for L :: lib where
  Does_raises:
    "raises L name s = Some e \<Longrightarrow> c s = (s, Some e) \<Longrightarrow> follows L (Does name) c s"
| Does_returns:
    "raises L name s = None \<Longrightarrow> c s = (s', None) \<Longrightarrow> calls s' = calls s @ [name]
     \<Longrightarrow> follows L (Does name) c s"
| Own:
    "c s = (s', None) \<Longrightarrow> calls s' = calls s \<Longrightarrow> follows L Own c s"
| Seq:
    "follows_list L shs cs s \<Longrightarrow> follows L (Several shs) (seq cs) s"
| With:
    "follows_list L shs (enter # body) s \<Longrightarrow> follows L (Several shs) (with_block enter body) s"
| For:
    "follows_list L shs (map body [0..<count s]) s
     \<Longrightarrow> follows L (Several shs) (for_range count body) s"
| Nil:
    "follows_list L [] [] s"
| Cons_raises:
    "follows L sh c s \<Longrightarrow> c s = (s', Some e) \<Longrightarrow> follows_list L (sh # shs) (c # cs) s"
| Cons_returns:
    "follows L sh c s \<Longrightarrow> c s = (s', None) \<Longrightarrow> follows_list L shs cs s'
     \<Longrightarrow> follows_list L (sh # shs) (c # cs) s"

text \<open>
  Statements that follow their shapes wherever the assertion of their position holds.
\<close>

fun fits :: "lib \<Rightarrow> (nat \<Rightarrow> nb \<Rightarrow> bool) \<Rightarrow> nat \<Rightarrow> shape list \<Rightarrow> stmt list \<Rightarrow> bool" where
  "fits L A k [] [] \<longleftrightarrow> True"
| "fits L A k (sh # shs) (c # cs) \<longleftrightarrow> (\<forall>s. A k s \<longrightarrow> follows L sh c s) \<and> fits L A (Suc k) shs cs"
| "fits L A k _ _ \<longleftrightarrow> False"

text \<open>
  The library call of each statement of the notebooks, in the order of the source, cell
  by cell.  The \<^verbatim>\<open>for\<close> loop of the chart draws one arrow for each of the thirty training
  points.
\<close>

definition steps_generate_data :: "shape list" where
  "steps_generate_data =
     [Does ''np.random.seed'', Own, Own, Does ''make_blobs'', Does ''train_test_split'']"

definition steps_prepare_plot :: "shape list" where
  "steps_prepare_plot =
     [Does ''LogisticRegression'', Does ''lr.fit'', Does ''flatten'', Does ''flatten'',
      Does ''numpy'', Own, Does ''numpy'', Does ''numpy'', Does ''astype'']"

definition steps_plot :: "shape list" where
  "steps_plot =
     [Does ''plt.figure'', Does ''plt.scatter'', Does ''plt.scatter'',
      Several (replicate 30 (Does ''plt.arrow'')),
      Does ''plt.xlim'', Does ''plt.ylim'', Does ''plt.plot'', Does ''plt.plot'',
      Does ''plt.legend'']"

definition steps_cell1_torch :: "shape list" where
  "steps_cell1_torch =
     [Does ''import cvxpy'', Does ''import matplotlib.pyplot'', Does ''import numpy'',
      Does ''import torch'', Does ''import cvxpylayers.torch'']"

definition steps_tensors_torch :: "shape list" where
  "steps_tensors_torch =
     [Several [Does ''torch.from_numpy'', Does ''torch.from_numpy'',
               Does ''torch.from_numpy'', Does ''torch.from_numpy'', Own],
      Does ''requires_grad_'', Own]"

definition steps_declare_torch :: "shape list" where
  "steps_declare_torch =
     [Does ''cp.Variable'', Does ''cp.Variable'', Does ''cp.Parameter'', Does ''numpy'',
      Does ''cp.sum'', Does ''cp.norm'', Does ''cp.Problem'', Does ''CvxpyLayer'']"

definition steps_cell3_torch :: "shape list" where
  "steps_cell3_torch =
     [Does ''import sklearn.datasets'', Does ''import sklearn.model_selection'',
      Does ''torch.manual_seed'']
     @ steps_generate_data @ steps_tensors_torch @ steps_declare_torch"

definition steps_cell5_torch :: "shape list" where
  "steps_cell5_torch =
     [Does ''import sklearn.linear_model'', Does ''fit_logreg'', Does ''BCEWithLogitsLoss'',
      Does ''loss.backward'', Own]"

definition steps_cell7_torch :: "shape list" where
  "steps_cell7_torch =
     steps_prepare_plot @ steps_plot @ [Does ''plt.savefig'', Does ''plt.show'']"

definition steps_torch :: "shape list" where
  "steps_torch = steps_cell1_torch @ steps_cell3_torch @ steps_cell5_torch @ steps_cell7_torch"

definition steps_cell1_tf :: "shape list" where
  "steps_cell1_tf =
     [Does ''import cvxpy'', Does ''import matplotlib.pyplot'', Does ''import numpy'',
      Does ''import tensorflow'', Does ''import cvxpylayers.tensorflow.cvxpylayer'']"

definition steps_tensors_tf :: "shape list" where
  "steps_tensors_tf =
     [Several [Does ''tf.constant'', Does ''tf.constant'', Does ''tf.constant'',
               Does ''tf.constant''],
      Own]"

definition steps_declare_tf :: "shape list" where
  "steps_declare_tf =
     [Does ''tf.constant'', Does ''tf.constant'', Does ''cp.Variable'', Does ''cp.Variable'',
      Does ''cp.Parameter'', Does ''cp.Parameter'', Does ''cp.Parameter'', Does ''numpy'',
      Does ''cp.sum'', Does ''cp.norm'', Does ''cp.Problem'', Does ''CvxpyLayer'']"

definition steps_cell3_tf :: "shape list" where
  "steps_cell3_tf =
     [Does ''import sklearn.datasets'', Does ''import sklearn.model_selection'',
      Does ''tf.random.set_seed'']
     @ steps_generate_data @ steps_tensors_tf @ steps_declare_tf"

definition steps_cell5_tf :: "shape list" where
  "steps_cell5_tf =
     [Does ''import sklearn.linear_model'', Does ''BinaryCrossentropy'',
      Several [Does ''tf.GradientTape'', Does ''tape.watch'', Does ''fit_logreg'',
               Does ''loss''],
      Does ''tape.gradient'']"

definition steps_cell7_tf :: "shape list" where
  "steps_cell7_tf = steps_prepare_plot @ steps_plot @ [Does ''plt.show'']"

definition steps_tf :: "shape list" where
  "steps_tf = steps_cell1_tf @ steps_cell3_tf @ steps_cell5_tf @ steps_cell7_tf"

section \<open>Properties of the convex problem\<close>

subsection \<open>Shapes and transposes\<close>

lemma shape_col_ex: "has_shape Z m 1 \<Longrightarrow> \<exists>zs. Z = col zs \<and> length zs = m"
proof (induction Z arbitrary: m)
  case Nil
  then show ?case by (simp add: has_shape_def col_def)
next
  case (Cons r Z)
  from Cons.prems have r: "length r = 1" and Z: "has_shape Z (length Z) 1" and m: "m = Suc (length Z)"
    by (auto simp: has_shape_def)
  from r obtain z where rz: "r = [z]" by (cases r) auto
  from Cons.IH[OF Z] obtain zs where "Z = col zs" "length zs = length Z" by blast
  then have "r # Z = col (z # zs) \<and> length (z # zs) = m" using rz m by (simp add: col_def)
  then show ?case by blast
qed

lemma T_col: "v \<noteq> [] \<Longrightarrow> T (col v) = [v]"
proof (induction v)
  case Nil then show ?case by simp
next
  case (Cons z v)
  show ?case
  proof (cases "v = []")
    case True then show ?thesis by (simp add: col_def)
  next
    case False
    with Cons.IH have "T (col v) = [v]" by simp
    moreover have "col v \<noteq> []" using False by (simp add: col_def)
    ultimately show ?thesis by (simp add: col_def)
  qed
qed

lemma T_row: "T [r] = col r"
  by (simp add: col_def)

lemma T_pairs: "T (map (\<lambda>z. [0, z]) zs) = (if zs = [] then [] else [replicate (length zs) 0, zs])"
proof (induction zs)
  case Nil then show ?case by simp
next
  case (Cons z zs)
  then show ?case by (cases "zs = []") simp_all
qed

lemma T_two: "length r0 = length r1 \<Longrightarrow> T [r0, r1] = map2 (\<lambda>x y. [x, y]) r0 r1"
  by (induction r0 r1 rule: list_induct2) simp_all

lemma hstack_zeros_col: "hstack [zeros (length zs) 1, col zs] = map (\<lambda>z. [0, z]) zs"
  by (induction zs) (simp_all add: zeros_def col_def)

lemma lse_rows: "map (\<lambda>col. ln (sum_list (map exp col))) (T [replicate (length zs) 0, zs])
   = map (\<lambda>z. ln (1 + exp z)) zs"
  by (induction zs) simp_all

lemma log_sum_exp_is_logistic:
  "T (log_sum_exp (T (hstack [zeros (length zs) 1, col zs]))) = logistic (col zs)"
proof (cases "zs = []")
  case True
  then show ?thesis by (simp add: log_sum_exp_def logistic_def zeros_def col_def)
next
  case False
  have "T (hstack [zeros (length zs) 1, col zs]) = [replicate (length zs) 0, zs]"
    using False unfolding hstack_zeros_col by (simp add: T_pairs)
  then have "log_sum_exp (T (hstack [zeros (length zs) 1, col zs]))
      = [map (\<lambda>z. ln (1 + exp z)) zs]"
    unfolding log_sum_exp_def using lse_rows[of zs] by simp
  then show ?thesis
    unfolding T_row by (simp add: logistic_def col_def)
qed


lemma matmul_col: "v \<noteq> [] \<Longrightarrow> matmul X (col v) = col (map (\<lambda>row. dot row v) X)"
  by (simp add: matmul_def T_col) (simp add: col_def)

lemma add_scalar: "add (col zs) [[c]] = col (map (\<lambda>z. z + c) zs)"
  by (simp add: add_def col_def)

lemma shape_one: "has_shape b 1 1 \<Longrightarrow> \<exists>c. b = [[c]]"
  using shape_col_ex[of b 1] by (auto simp: col_def length_Suc_conv)

lemma scores_col:
  assumes "has_shape X m n" and "has_shape a n 1" and "has_shape b 1 1" and "0 < n"
  shows "\<exists>zs. add (matmul X a) b = col zs \<and> length zs = m"
proof -
  from shape_col_ex[OF assms(2)] obtain v where v: "a = col v" "length v = n" by blast
  with assms(4) have v0: "v \<noteq> []" by auto
  from shape_one[OF assms(3)] obtain c where c: "b = [[c]]" by blast
  have "add (matmul X a) b = col (map (\<lambda>z. z + c) (map (\<lambda>row. dot row v) X))"
    unfolding v(1) c matmul_col[OF v0] add_scalar ..
  moreover have "length (map (\<lambda>z. z + c) (map (\<lambda>row. dot row v) X)) = m"
    using assms(1) by (simp add: has_shape_def)
  ultimately show ?thesis by blast
qed

lemma log_likelihood_tf_eq:
  assumes "has_shape X m n" and "has_shape a n 1" and "has_shape b 1 1" and "0 < n"
  shows "log_likelihood_tf m Y X a b = log_likelihood_torch m Y X a b"
proof -
  from scores_col[OF assms] obtain zs where zs: "add (matmul X a) b = col zs" "length zs = m"
    by blast
  show ?thesis
    unfolding log_likelihood_tf_def log_likelihood_torch_def zs(1)
    using log_sum_exp_is_logistic[of zs] zs(2) by simp
qed

lemma regularization_tf_eq:
  "regularization_tf lambda1_tf lambda2_tf a = [[regularization_torch a]]"
  by (simp add: regularization_tf_def regularization_torch_def lambda1_tf_def lambda2_tf_def
      minus_def smul_def neg_def)


text \<open>
  C8.  With the values \<open>lambda1 = lambda2 = 0.1\<close> that the TensorFlow notebook supplies, its
  objective (log-likelihood through \<^verbatim>\<open>cp.log_sum_exp\<close> over the stacked pair \<open>[0, X a + b]\<close>,
  weights as parameters) is the same function of \<open>(a, b)\<close> as the PyTorch notebook's
  objective (\<^verbatim>\<open>cp.logistic\<close>, weights \<open>0.1\<close> written out), for every value of the
  parameter \<open>X\<close> of shape \<open>(m, n)\<close> and all \<open>a\<close> of shape \<open>(n, 1)\<close> and \<open>b\<close> of shape \<open>(1, 1)\<close>.
  The TensorFlow objective has shape \<open>(1, 1)\<close>; its single entry is the PyTorch value.
\<close>

theorem tf_objective_is_torch_objective:
  assumes "has_shape X m n" and "has_shape a n 1" and "has_shape b 1 1" and "0 < n"
  shows "objective_tf m Y X lambda1_tf lambda2_tf a b = [[objective_torch m Y X a b]]"
  unfolding objective_tf_def objective_torch_def log_likelihood_tf_eq[OF assms] regularization_tf_eq
  by (simp add: sadd_def)

theorem tf_objective_is_torch_objective_witness:
  "has_shape [[1, 2], [3, 4]] 2 2 \<and> has_shape [[1], [0]] 2 1 \<and> has_shape [[0]] 1 1 \<and> (0::nat) < 2 \<and>
   objective_tf 2 [[1], [0]] [[1, 2], [3, 4]] lambda1_tf lambda2_tf [[1], [0]] [[0]]
     = [[objective_torch 2 [[1], [0]] [[1, 2], [3, 4]] [[1], [0]] [[0]]]]"
proof -
  have X: "has_shape [[1, 2], [3, 4]] 2 2" by (simp add: has_shape_def)
  have a: "has_shape [[1], [0]] 2 1" by (simp add: has_shape_def)
  have b: "has_shape [[0]] 1 1" by (simp add: has_shape_def)
  have n: "(0::nat) < 2" by simp
  from tf_objective_is_torch_objective[OF X a b n, of "[[1], [0]]"] X a b n
  show ?thesis by blast
qed

subsection \<open>The objective is the elastic-net maximum-likelihood objective\<close>

lemma norm1_col: "v \<noteq> [] \<Longrightarrow> norm1 (col v) = (\<Sum>z\<leftarrow>v. \<bar>z\<bar>)"
  by (simp add: norm1_def T_col)

lemma sum_squares_col: "sum_squares (col v) = (\<Sum>z\<leftarrow>v. z ^ 2)"
  by (induction v) (simp_all add: sum_squares_def col_def)

lemma log_likelihood_sum:
  "length ys = length xs \<Longrightarrow>
   sum_entries (minus (multiply (newaxis ys) (col (map f xs))) (logistic (col (map f xs))))
   = (\<Sum>(x, y)\<leftarrow>zip xs (map real_of_int ys). y * f x - ln (1 + exp (f x)))"
proof (induction ys xs rule: list_induct2)
  case Nil
  then show ?case by (simp add: sum_entries_def minus_def multiply_def newaxis_def col_def logistic_def)
next
  case (Cons y ys x xs)
  then show ?case
    by (simp add: sum_entries_def minus_def multiply_def newaxis_def col_def logistic_def)
qed

lemma objective_torch_spec:
  assumes "length ytrain = length X" and "v \<noteq> []"
  shows "objective_torch (length X) (newaxis ytrain) X (col v) [[c]]
         = spec_objective X (map real_of_int ytrain) v c"
proof -
  have "add (matmul X (col v)) [[c]] = col (map (\<lambda>row. dot row v + c) X)"
    unfolding matmul_col[OF assms(2)] add_scalar by (simp add: comp_def)
  then show ?thesis
    unfolding objective_torch_def log_likelihood_torch_def regularization_torch_def
      spec_objective_def
    using log_likelihood_sum[OF assms(1), of "\<lambda>row. dot row v + c"]
    by (simp add: norm1_col[OF assms(2)] sum_squares_col)
qed


lemma objectives_spec:
  assumes "has_shape X m n" and "length ytrain = m" and "length v = n" and "0 < n" and "0 < m"
  shows "objective_torch m (newaxis ytrain) X (col v) [[c]]
           = spec_objective X (map real_of_int ytrain) v c
       \<and> objective_tf m (newaxis ytrain) X lambda1_tf lambda2_tf (col v) [[c]]
           = [[spec_objective X (map real_of_int ytrain) v c]]"
proof -
  from assms(1) have m: "m = length X" by (simp add: has_shape_def)
  from assms(3,4) have v: "v \<noteq> []" by auto
  have a: "has_shape (col v) n 1" using assms(3) by (simp add: has_shape_def col_def list_all_iff)
  have b: "has_shape [[c]] 1 1" by (simp add: has_shape_def)
  have torch: "objective_torch m (newaxis ytrain) X (col v) [[c]]
                 = spec_objective X (map real_of_int ytrain) v c"
    unfolding m using objective_torch_spec[of ytrain X v c] assms(2) v m by simp
  have "objective_tf m (newaxis ytrain) X lambda1_tf lambda2_tf (col v) [[c]]
          = [[objective_torch m (newaxis ytrain) X (col v) [[c]]]]"
    unfolding objective_tf_def objective_torch_def
      log_likelihood_tf_eq[OF assms(1) a b assms(4)] regularization_tf_eq
    by (simp add: sadd_def)
  with torch show ?thesis by simp
qed

section \<open>Properties of the test loss and of the gradient\<close>

subsection \<open>The PyTorch loss is 300 times the test loss\<close>

lemma bce_term: "- (y * ln (sigmoid z) + (1 - y) * ln (1 - sigmoid z)) = ln (1 + exp z) - y * z"
proof -
  have p: "0 < 1 + exp z" by (simp add: add_pos_pos)
  have s: "sigmoid z = exp z / (1 + exp z)"
    unfolding sigmoid_def by (simp add: exp_minus field_simps)
  have s1: "1 - sigmoid z = 1 / (1 + exp z)"
    using p unfolding s by (simp add: field_simps)
  have "ln (sigmoid z) = z - ln (1 + exp z)"
    unfolding s using p by (simp add: ln_div)
  moreover have "ln (1 - sigmoid z) = - ln (1 + exp z)"
    unfolding s1 using p by (simp add: ln_div)
  ultimately show ?thesis by (simp only:) (simp add: algebra_simps)
qed

lemma bce_term': "- (y * ln (sigmoid z)) - (1 - y) * ln (1 - sigmoid z) = ln (1 + exp z) - y * z"
  using bce_term[of y z] by simp

lemma dot_commute: "dot u v = dot v u"
  unfolding dot_def
proof (induction u arbitrary: v)
  case Nil then show ?case by simp
next
  case (Cons a u) then show ?case by (cases v) (simp_all add: mult.commute)
qed

lemma squeeze_col: "squeeze (col zs) = zs"
  by (induction zs) (simp_all add: squeeze_def col_def)

lemma scores_eq:
  assumes "beta \<noteq> []"
  shows "squeeze (add (matmul Xtest (col beta)) [[c]]) = map (\<lambda>x. dot beta x + c) Xtest"
  unfolding matmul_col[OF assms] add_scalar squeeze_col by (simp add: comp_def dot_commute)

lemma bce_sum:
  "length ys = length xs \<Longrightarrow>
   (\<Sum>(xn, yn)\<leftarrow>zip (map f xs) ys. - (yn * ln (sigmoid xn) + (1 - yn) * ln (1 - sigmoid xn)))
   = (\<Sum>(x, y)\<leftarrow>zip xs ys. ln (1 + exp (f x)) - y * f x)"
  by (induction ys xs rule: list_induct2) (simp_all add: bce_term')

lemma loss_torch_is_300_L_test:
  assumes "length ytest = length Xtest" and "fst \<theta> \<noteq> []"
  shows "loss_torch Xtest ytest (layer_out \<theta>) = 300 * L_test Xtest (map real_of_int ytest) \<theta>"
  unfolding loss_torch_def layer_out_def L_test_def BCEWithLogitsLoss_def ell_def
  using bce_sum[of "map real_of_int ytest" Xtest "\<lambda>x. dot (fst \<theta>) x + snd \<theta>"] assms
  by (simp add: scores_eq)

subsection \<open>The two problems\<close>

lemma objective_tf_unfold:
  assumes "has_shape X m n" and "has_shape a n 1" and "has_shape b 1 1" and "0 < n"
  shows "objective_tf m Y X lambda1_tf lambda2_tf a b
           = [[log_likelihood_torch m Y X a b + regularization_torch a]]"
  unfolding objective_tf_def log_likelihood_tf_eq[OF assms] regularization_tf_eq
  by (simp add: sadd_def)

lemma same_solutions:
  assumes "has_shape X m n" and "0 < n"
  shows "solutions n (prob_tf m Y X lambda1_tf lambda2_tf) = solutions n (prob_torch m Y X)"
proof -
  have "scalar_of (objective_tf m Y X lambda1_tf lambda2_tf (fst w) (snd w))
          = objective_torch m Y X (fst w) (snd w)" if "feasible n w" for w
    using that objective_tf_unfold[OF assms(1) _ _ assms(2), of "fst w" "snd w" Y]
    by (simp add: feasible_def scalar_of_def objective_torch_def)
  then show ?thesis
    unfolding prob_tf_def prob_torch_def by auto
qed

section \<open>Properties of the notebooks as programs\<close>

subsection \<open>Rules for assertions\<close>

lemma spec_callI:
  assumes "\<And>s e. P s \<Longrightarrow> raises L name s = Some e \<Longrightarrow> E s e"
    and "\<And>s. P s \<Longrightarrow> Q (upd (s\<lparr>calls := calls s @ [name]\<rparr>))"
  shows "spec P (call L name upd) Q E"
  using assms by (auto simp: spec_def call_def split: option.splits)

lemma spec_assignI:
  assumes "\<And>s. P s \<Longrightarrow> Q (upd s)"
  shows "spec P (assign upd) Q E"
  using assms by (auto simp: spec_def assign_def)

lemma spec_guardI:
  assumes "\<And>s e. P s \<Longrightarrow> g s = Some e \<Longrightarrow> E s e"
    and "spec (\<lambda>s. P s \<and> g s = None) c Q E"
  shows "spec P (guard g c) Q E"
  using assms by (auto simp: spec_def guard_def split: option.splits)

lemma spec_seq_Nil: "spec Q (seq []) Q E"
  by (simp add: spec_def)

lemma spec_seq_Cons:
  assumes "spec P c R E" and "spec R (seq cs) Q E"
  shows "spec P (seq (c # cs)) Q E"
  unfolding spec_def
proof (intro allI impI)
  fix s s' r assume P: "P s" and run: "seq (c # cs) s = (s', r)"
  obtain s1 r1 where c: "c s = (s1, r1)" by (cases "c s")
  show "case r of None \<Rightarrow> Q s' | Some e \<Rightarrow> E s' e"
  proof (cases r1)
    case None
    with c run have "seq cs s1 = (s', r)" by simp
    moreover from assms(1) P c None have "R s1" by (auto simp: spec_def)
    ultimately show ?thesis using assms(2) by (auto simp: spec_def)
  next
    case (Some e)
    with c run have "s' = s1" "r = Some e" by simp_all
    with assms(1) P c Some show ?thesis by (auto simp: spec_def)
  qed
qed

lemma seq_append:
  "seq (cs @ ds) s = (case seq cs s of (s', None) \<Rightarrow> seq ds s' | (s', Some e) \<Rightarrow> (s', Some e))"
  by (induction cs arbitrary: s) (auto split: prod.splits option.splits)

lemma spec_seq_append:
  assumes "spec P (seq cs) R E" and "spec R (seq ds) Q E"
  shows "spec P (seq (cs @ ds)) Q E"
  using assms unfolding spec_def seq_append
  by (fastforce split: prod.splits option.splits)

lemma spec_conseq:
  assumes "spec P c Q E" and "\<And>s. P' s \<Longrightarrow> P s" and "\<And>s. Q s \<Longrightarrow> Q' s"
    and "\<And>s e. E s e \<Longrightarrow> E' s e"
  shows "spec P' c Q' E'"
  unfolding spec_def
proof (intro allI impI)
  fix s s' r assume "P' s" "c s = (s', r)"
  with assms(1,2) have "case r of None \<Rightarrow> Q s' | Some e \<Rightarrow> E s' e" by (auto simp: spec_def)
  then show "case r of None \<Rightarrow> Q' s' | Some e \<Rightarrow> E' s' e"
    using assms(3,4) by (cases r) auto
qed

lemma spec_chain:
  "chain A k cs E \<Longrightarrow> spec (A k) (seq cs) (A (k + length cs)) E"
proof (induction cs arbitrary: k)
  case Nil
  then show ?case by (simp add: spec_def)
next
  case (Cons c cs)
  from Cons.prems have c: "spec (A k) c (A (Suc k)) E" and cs: "chain A (Suc k) cs E" by simp_all
  from Cons.IH[OF cs] have "spec (A (Suc k)) (seq cs) (A (k + length (c # cs))) E" by simp
  with c show ?case by (rule spec_seq_Cons)
qed

lemma spec_seq_all:
  assumes "\<And>c. c \<in> set cs \<Longrightarrow> spec I c I E"
  shows "spec I (seq cs) I E"
  using assms
proof (induction cs)
  case Nil
  then show ?case by (simp add: spec_def)
next
  case (Cons c cs)
  then show ?case by (intro spec_seq_Cons[where R = I]) auto
qed

lemma spec_for:
  assumes "\<And>i. i < k \<Longrightarrow> spec I (body i) I E" and "\<And>s. I s \<Longrightarrow> count s = k"
  shows "spec I (for_range count body) I E"
  unfolding spec_def
proof (intro allI impI)
  fix s s' r assume I: "I s" and run: "for_range count body s = (s', r)"
  have "spec I (seq (map body [0..<k])) I E"
    by (rule spec_seq_all) (use assms(1) in auto)
  moreover from run assms(2)[OF I] have "seq (map body [0..<k]) s = (s', r)"
    by (simp add: for_range_def)
  ultimately show "case r of None \<Rightarrow> I s' | Some e \<Rightarrow> E s' e"
    using I by (auto simp: spec_def)
qed

lemma spec_for_any:
  assumes "\<And>i. spec I (body i) I E"
  shows "spec I (for_range count body) I E"
  unfolding spec_def
proof (intro allI impI)
  fix s s' r assume I: "I s" and run: "for_range count body s = (s', r)"
  have "spec I (seq (map body [0..<count s])) I E"
    by (rule spec_seq_all) (use assms in auto)
  with I run show "case r of None \<Rightarrow> I s' | Some e \<Rightarrow> E s' e"
    by (auto simp: spec_def for_range_def)
qed

lemma spec_with:
  assumes "spec P enter R E" and "spec R (seq body) Q E"
  shows "spec P (with_block enter body) Q E"
  using assms unfolding spec_def with_block_def
  by (fastforce split: prod.splits option.splits)

lemmas spec_intros = spec_callI spec_assignI spec_guardI spec_seq_all spec_for_any spec_with

subsection \<open>The third cell\<close>

lemma spec_chain_len:
  "chain A 0 cs E \<Longrightarrow> length cs = n \<Longrightarrow> spec (A 0) (seq cs) (A n) E"
  using spec_chain[of A 0 cs E] by simp

lemma generate_data_spec:
  assumes "\<And>name s e. raises L name s = Some e \<Longrightarrow> E s e"
  shows "spec (\<lambda>s. True) (seq (generate_data L)) (split_done L) E"
proof -
  define A where "A k s \<longleftrightarrow>
     (1 \<le> k \<and> k \<le> 3 \<longrightarrow> np_rng s = np_seed L 0) \<and>
     (2 \<le> k \<longrightarrow> v_n s = 2) \<and> (3 \<le> k \<longrightarrow> v_N s = 60) \<and>
     (4 \<le> k \<longrightarrow> v_X s = Array (fst (fst (seeded_blobs L)))
               \<and> v_y s = snd (fst (seeded_blobs L))) \<and>
     (k = 4 \<longrightarrow> np_rng s = snd (seeded_blobs L)) \<and>
     (5 \<le> k \<longrightarrow> dataset s = seeded_dataset L)" for k :: nat and s
  have "chain A 0 (generate_data L) E"
    unfolding generate_data_def s_np_seed_def s_make_blobs_def s_train_test_split_def
    using assms
    by (auto intro!: spec_intros simp: A_def raised_def seeded_blobs_def seeded_dataset_def
        dataset_def split: prod.splits array_or_parameter.splits)
  then have "spec (A 0) (seq (generate_data L)) (A 5) E"
    by (rule spec_chain_len) (simp add: generate_data_def)
  then show ?thesis
    by (rule spec_conseq) (auto simp: A_def split_done_def)
qed


lemma spec_seq_one:
  "spec P c Q E \<Longrightarrow> spec P (seq [c]) Q E"
  by (rule spec_seq_Cons[where R = Q]) (simp_all add: spec_def)

lemma from_numpy_spec:
  assumes "\<And>name s e. raises L name s = Some e \<Longrightarrow> E s e"
  shows "spec (split_done L) (s_from_numpy L)
           (\<lambda>s. split_done L s \<and> v_Xtrain_dot_grad s = None) E"
proof -
  define A where "A k s \<longleftrightarrow> split_done L s \<and> (5 \<le> k \<longrightarrow> v_Xtrain_dot_grad s = None)"
    for k :: nat and s
  let ?cs = "[call L ''torch.from_numpy'' id, call L ''torch.from_numpy'' id,
          call L ''torch.from_numpy'' id, call L ''torch.from_numpy'' id,
          assign (\<lambda>s. s\<lparr>v_Xtrain_requires_grad := False, v_Xtrain_dot_grad := None\<rparr>)]"
  have "chain A 0 ?cs E"
    using assms
    by (auto intro!: spec_intros simp: A_def raised_def split_done_def dataset_def)
  then have "spec (A 0) (seq ?cs) (A 5) E"
    by (rule spec_chain_len) simp
  then show ?thesis
    unfolding s_from_numpy_def by (rule spec_conseq) (auto simp: A_def)
qed

lemma tensors_torch_spec:
  assumes "\<And>name s e. raises L name s = Some e \<Longrightarrow> E s e"
  shows "spec (split_done L)
           (seq [s_from_numpy L,
                 call L ''requires_grad_'' (\<lambda>s. s\<lparr>v_Xtrain_requires_grad := True\<rparr>), s_m])
           (ready_torch L) E"
proof -
  let ?P1 = "\<lambda>s. split_done L s \<and> v_Xtrain_dot_grad s = None"
  let ?P2 = "\<lambda>s. split_done L s \<and> v_Xtrain_dot_grad s = None \<and> v_Xtrain_requires_grad s"
  have 2: "spec ?P1 (call L ''requires_grad_'' (\<lambda>s. s\<lparr>v_Xtrain_requires_grad := True\<rparr>)) ?P2 E"
    using assms by (auto intro!: spec_intros simp: raised_def split_done_def dataset_def)
  have 3: "spec ?P2 s_m (ready_torch L) E"
    unfolding s_m_def
    by (auto intro!: spec_intros simp: ready_torch_def generated_def split_done_def dataset_def)
  show ?thesis
    by (intro spec_seq_Cons[OF from_numpy_spec[OF assms]] spec_seq_Cons[OF 2] spec_seq_one[OF 3])
qed

lemma declare_problem_torch_spec:
  assumes "\<And>name s e. raises L name s = Some e \<Longrightarrow> E s e"
    and "\<And>s. generated L s \<Longrightarrow> v_m s = 0 \<Longrightarrow> E s ZeroDivisionError"
  shows "spec (ready_torch L) (seq (declare_problem_torch L)) (declared_torch L) E"
proof -
  define A where "A k s \<longleftrightarrow>
     ready_torch L s \<and>
     (3 \<le> k \<longrightarrow> v_X s = Parameter (v_m s) (v_n s)) \<and>
     (4 \<le> k \<longrightarrow> v_Y s = newaxis (v_ytrain s)) \<and>
     (8 \<le> k \<longrightarrow> v_fit_logreg s = (\<lambda>ps. case ps of [X] \<Rightarrow> prob_torch (v_m s) (v_Y s) X
                                                  | _ \<Rightarrow> Maximize (\<lambda>v. 0)))"
    for k :: nat and s
  have "chain A 0 (declare_problem_torch L) E"
    unfolding declare_problem_torch_def s_X_Parameter_def s_Y_def s_log_likelihood_def
      s_CvxpyLayer_torch_def
    using assms
    by (auto intro!: spec_intros
        simp: A_def ready_torch_def generated_def split_done_def dataset_def
        split: if_splits)
  then have "spec (A 0) (seq (declare_problem_torch L)) (A 8) E"
    by (rule spec_chain_len) (simp add: declare_problem_torch_def)
  then show ?thesis
    by (rule spec_conseq) (auto simp: A_def declared_torch_def)
qed

lemma imports_spec:
  assumes "\<And>name s e. raises L name s = Some e \<Longrightarrow> E s e"
  shows "spec (\<lambda>s. True) (seq [call L n1 id, call L n2 id, call L n3 upd]) (\<lambda>s. True) E"
  using assms by (auto intro!: spec_intros simp: raised_def)

lemma cell3_torch_spec:
  assumes "\<And>name s e. raises L name s = Some e \<Longrightarrow> E s e"
    and "\<And>s. generated L s \<Longrightarrow> v_m s = 0 \<Longrightarrow> E s ZeroDivisionError"
  shows "spec (\<lambda>s. True) (seq (cell3_torch L)) (declared_torch L) E"
  unfolding cell3_torch_def
  by (intro spec_seq_append[OF imports_spec] spec_seq_append[OF generate_data_spec]
      spec_seq_append[OF tensors_torch_spec] declare_problem_torch_spec assms)

lemma tensors_tf_spec:
  assumes "\<And>name s e. raises L name s = Some e \<Longrightarrow> E s e"
  shows "spec (split_done L) (seq [s_tf_constant L, s_m]) (ready_tf L) E"
proof -
  have 1: "spec (split_done L) (s_tf_constant L) (split_done L) E"
    unfolding s_tf_constant_def using assms
    by (auto intro!: spec_intros simp: raised_def split_done_def dataset_def)
  have 2: "spec (split_done L) s_m (ready_tf L) E"
    unfolding s_m_def
    by (auto intro!: spec_intros simp: ready_tf_def generated_def split_done_def dataset_def)
  show ?thesis
    by (intro spec_seq_Cons[OF 1] spec_seq_one[OF 2])
qed

lemma declare_problem_tf_spec:
  assumes "\<And>name s e. raises L name s = Some e \<Longrightarrow> E s e"
    and "\<And>s. generated L s \<Longrightarrow> v_m s = 0 \<Longrightarrow> E s ZeroDivisionError"
  shows "spec (ready_tf L) (seq (declare_problem_tf L)) (declared_tf L) E"
proof -
  define A where "A k s \<longleftrightarrow>
     ready_tf L s \<and>
     (7 \<le> k \<longrightarrow> v_X s = Parameter (v_m s) (v_n s)) \<and>
     (8 \<le> k \<longrightarrow> v_Y s = newaxis (v_ytrain s)) \<and>
     (12 \<le> k \<longrightarrow> v_fit_logreg s =
         (\<lambda>ps. case ps of
                  [X, lambda1, lambda2] \<Rightarrow> prob_tf (v_m s) (v_Y s) X lambda1 lambda2
                | _ \<Rightarrow> Maximize (\<lambda>v. 0)))"
    for k :: nat and s
  have "chain A 0 (declare_problem_tf L) E"
    unfolding declare_problem_tf_def s_X_Parameter_def s_Y_def s_log_likelihood_def
      s_CvxpyLayer_tf_def
    using assms
    by (auto intro!: spec_intros
        simp: A_def ready_tf_def generated_def split_done_def dataset_def
        split: if_splits)
  then have "spec (A 0) (seq (declare_problem_tf L)) (A 12) E"
    by (rule spec_chain_len) (simp add: declare_problem_tf_def)
  then show ?thesis
    by (rule spec_conseq) (auto simp: A_def declared_tf_def)
qed

lemma cell3_tf_spec:
  assumes "\<And>name s e. raises L name s = Some e \<Longrightarrow> E s e"
    and "\<And>s. generated L s \<Longrightarrow> v_m s = 0 \<Longrightarrow> E s ZeroDivisionError"
  shows "spec (\<lambda>s. True) (seq (cell3_tf L)) (declared_tf L) E"
  unfolding cell3_tf_def
  by (intro spec_seq_append[OF imports_spec] spec_seq_append[OF generate_data_spec]
      spec_seq_append[OF tensors_tf_spec] declare_problem_tf_spec assms)

subsection \<open>Shapes under the libraries' promises\<close>

lemma seeded_blobs_shape:
  assumes "lib_contract L"
  shows "has_shape (fst (fst (seeded_blobs L))) 60 2" and "length (snd (fst (seeded_blobs L))) = 60"
  using assms unfolding lib_contract_def seeded_blobs_def by blast+

lemma split_shapes:
  assumes "lib_contract L" and "has_shape X 60 2" and "length y = 60"
  shows "case fst (train_test_split L g X y (1 / 2)) of
           (Xtr, Xte, ytr, yte) \<Rightarrow>
              has_shape Xtr 30 2 \<and> has_shape Xte 30 2 \<and> length ytr = 30 \<and> length yte = 30"
proof -
  let ?p = "fst (permutation L g 60)"
  from assms(1) have p: "length ?p = 60" "set ?p = {..<60}" by (auto simp: lib_contract_def)
  have n: "nat \<lceil>(1 / 2) * real (60::nat)\<rceil> = 30" by simp
  have row: "length (X ! i) = 2" if "i < 60" for i
    using assms(2) that by (auto simp: has_shape_def list_all_length)
  have sub1: "set (take 30 (drop 30 ?p)) \<subseteq> {..<60}"
    using p(2) by (metis set_drop_subset set_take_subset subset_trans)
  have sub2: "set (take 30 ?p) \<subseteq> {..<60}"
    using p(2) by (metis set_take_subset)
  show ?thesis
    using assms(2,3) p sub1 sub2 row
    unfolding train_test_split_def Let_def
    by (auto simp: has_shape_def n list_all_iff)
qed

lemma generated_data_ready:
  assumes "lib_contract L" and "generated L s"
  shows "data_ready s"
proof -
  from assms(2) have d: "dataset s = seeded_dataset L" and n: "v_n s = 2"
    and m: "v_m s = length (v_Xtrain s)"
    by (simp_all add: generated_def split_done_def)
  from split_shapes[OF assms(1) seeded_blobs_shape[OF assms(1)], of "snd (seeded_blobs L)"] d
  have "has_shape (v_Xtrain s) 30 2 \<and> has_shape (v_Xtest s) 30 2 \<and>
        length (v_ytrain s) = 30 \<and> length (v_ytest s) = 30"
    by (simp add: seeded_dataset_def dataset_def split: prod.splits)
  with n m show ?thesis by (simp add: data_ready_def has_shape_def)
qed

subsection \<open>The gradient cell\<close>

lemma raisedI: "raises L name s = Some e \<Longrightarrow> raised L s e"
  by (auto simp: raised_def)

lemma flatten_layer_out: "flatten (fst (layer_out \<theta>)) = fst \<theta>"
  by (induction "fst \<theta>" arbitrary: \<theta>) (simp_all add: layer_out_def flatten_def col_def)

lemma contract_solve: "lib_contract L \<Longrightarrow> length (fst (solve L n obj)) = n"
  by (simp add: lib_contract_def)

lemma contract_autodiff: "lib_contract L \<Longrightarrow> map length (autodiff L f X) = map length X"
  by (simp add: lib_contract_def)

lemma contract_lr_fit:
  "lib_contract L \<Longrightarrow> has_shape X 30 2 \<Longrightarrow> length (fst (lr_fit L X y)) = 2"
  unfolding lib_contract_def by (metis zero_less_numeral)

lemma cell5_torch_spec:
  assumes "lib_contract L"
  shows "spec (ready_torch L) (seq (cell5_torch L)) (fitted v_a_tch) (raised L)"
proof -
  define A where "A k s \<longleftrightarrow>
     data_ready s \<and> v_Xtrain_requires_grad s \<and>
     (k \<le> 3 \<longrightarrow> v_Xtrain_dot_grad s = None) \<and>
     (2 \<le> k \<longrightarrow> length (flatten (v_a_tch s)) = 2) \<and>
     (4 \<le> k \<longrightarrow> (\<exists>G. v_Xtrain_dot_grad s = Some G \<and> map length G = map length (v_Xtrain s))) \<and>
     (5 \<le> k \<longrightarrow> (\<exists>G. v_Xtrain_grad s = Some G \<and> map length G = map length (v_Xtrain s)))"
    for k :: nat and s
  have "chain A 0 (cell5_torch L) (raised L)"
    unfolding cell5_torch_def s_forward_torch_def s_loss_torch_def s_backward_def
    by (auto intro!: spec_intros raisedI
        simp: A_def data_ready_def flatten_layer_out contract_solve[OF assms]
          contract_autodiff[OF assms] accumulate_def)
  then have "spec (A 0) (seq (cell5_torch L)) (A 5) (raised L)"
    by (rule spec_chain_len) (simp add: cell5_torch_def)
  then show ?thesis
    by (rule spec_conseq)
      (auto simp: A_def fitted_def ready_torch_def generated_data_ready[OF assms])
qed

lemma cell5_tf_spec:
  assumes "lib_contract L"
  shows "spec (ready_tf L) (seq (cell5_tf L)) (fitted v_slope) (raised L)"
proof -
  define B where "B k s \<longleftrightarrow> data_ready s \<and> (2 \<le> k \<longrightarrow> length (flatten (v_slope s)) = 2)"
    for k :: nat and s
  let ?body = "[call L ''tape.watch'' id, s_forward_tf L, s_test_loss_tf L]"
  have "chain B 0 ?body (raised L)"
    unfolding s_forward_tf_def s_test_loss_tf_def
    by (auto intro!: spec_intros raisedI
        simp: B_def data_ready_def flatten_layer_out contract_solve[OF assms])
  then have body: "spec (B 0) (seq ?body) (B 3) (raised L)"
    by (rule spec_chain_len) simp
  have enter: "spec (B 0) (call L ''tf.GradientTape'' id) (B 0) (raised L)"
    by (auto intro!: spec_intros raisedI simp: B_def data_ready_def)
  have w: "spec (B 0) (with_block (call L ''tf.GradientTape'' id) ?body) (B 3) (raised L)"
    using enter body by (rule spec_with)
  define A where "A k s \<longleftrightarrow>
     data_ready s \<and> (3 \<le> k \<longrightarrow> length (flatten (v_slope s)) = 2) \<and>
     (4 \<le> k \<longrightarrow> (\<exists>G. v_Xtrain_grad s = Some G \<and> map length G = map length (v_Xtrain s)))"
    for k :: nat and s
  have AB: "A 2 = B 0" "A 3 = B 3"
    by (auto simp: A_def B_def fun_eq_iff)
  have "spec (A 2) (with_block (call L ''tf.GradientTape'' id) ?body) (A (Suc 2)) (raised L)"
    using w AB by (simp add: eval_nat_numeral)
  then have "chain A 0 (cell5_tf L) (raised L)"
    unfolding cell5_tf_def s_tape_gradient_def
    by (auto intro!: spec_callI raisedI
        simp: A_def data_ready_def contract_autodiff[OF assms] eval_nat_numeral)
  then have "spec (A 0) (seq (cell5_tf L)) (A 4) (raised L)"
    by (rule spec_chain_len) (simp add: cell5_tf_def)
  then show ?thesis
    by (rule spec_conseq)
      (auto simp: A_def fitted_def ready_tf_def generated_data_ready[OF assms])
qed

subsection \<open>The plotting cell\<close>

lemma same_shape:
  assumes "map length G = map length X" and "has_shape X r c"
  shows "has_shape G r c"
proof -
  from assms(1) have len: "length G = length X" by (metis length_map)
  have "length (G ! i) = c" if "i < length G" for i
  proof -
    from that len have "length (G ! i) = length (X ! i)"
      using assms(1) by (metis nth_map)
    with assms(2) that len show ?thesis by (simp add: has_shape_def list_all_length)
  qed
  with len assms(2) show ?thesis by (simp add: has_shape_def list_all_length)
qed

lemma prepare_plot_spec:
  assumes "lib_contract L"
    and cs: "cs = [call L ''LogisticRegression'' id,
      s_lr_fit L,
      call L ''flatten'' (\<lambda>s. s\<lparr>v_beta_train := flatten (slope_of s)\<rparr>),
      call L ''flatten'' (\<lambda>s. s\<lparr>v_beta_test := fst (v_lr s)\<rparr>),
      call L ''numpy'' (\<lambda>s. s\<lparr>v_b_train := scalar_of (icpt_of s)\<rparr>),
      assign (\<lambda>s. s\<lparr>v_b_test := snd (v_lr s)\<rparr>),
      call L ''numpy'' (\<lambda>s. s\<lparr>v_Xtrain_np := v_Xtrain s\<rparr>),
      s_Xtrain_grad_np L,
      s_ytrain_np L]"
    and frame: "\<And>s f. slope_of (v_lr_update f s) = slope_of s"
      "\<And>s f. slope_of (calls_update f s) = slope_of s"
  shows "spec (fitted slope_of) (seq cs) plot_ready (raised L)"
proof -
  define A where "A k s \<longleftrightarrow>
     data_ready s \<and>
     (\<exists>G. v_Xtrain_grad s = Some G \<and> map length G = map length (v_Xtrain s)) \<and>
     (k \<le> 2 \<longrightarrow> length (flatten (slope_of s)) = 2) \<and>
     (2 \<le> k \<longrightarrow> length (fst (v_lr s)) = 2) \<and>
     (3 \<le> k \<longrightarrow> length (v_beta_train s) = 2) \<and>
     (4 \<le> k \<longrightarrow> length (v_beta_test s) = 2) \<and>
     (7 \<le> k \<longrightarrow> v_Xtrain_np s = v_Xtrain s) \<and>
     (8 \<le> k \<longrightarrow> map length (v_Xtrain_grad_np s) = map length (v_Xtrain s)) \<and>
     (9 \<le> k \<longrightarrow> length (v_ytrain_np s) = 30)"
    for k :: nat and s
  have "chain A 0 cs (raised L)"
    unfolding cs s_lr_fit_def s_Xtrain_grad_np_def s_ytrain_np_def
    by (auto intro!: spec_intros raisedI
        simp: A_def data_ready_def contract_lr_fit[OF assms(1)] frame split: if_splits)
  then have "spec (A 0) (seq cs) (A 9) (raised L)"
    by (rule spec_chain_len) (simp add: cs)
  then show ?thesis
    by (rule spec_conseq)
      (auto simp: A_def fitted_def plot_ready_def data_ready_def same_shape)
qed

lemma prepare_plot_torch_spec:
  assumes "lib_contract L"
  shows "spec (fitted v_a_tch) (seq (prepare_plot_torch L)) plot_ready (raised L)"
  by (rule prepare_plot_spec[OF assms, where icpt_of = v_b_tch])
    (simp_all add: prepare_plot_torch_def)

lemma prepare_plot_tf_spec:
  assumes "lib_contract L"
  shows "spec (fitted v_slope) (seq (prepare_plot_tf L)) plot_ready (raised L)"
  by (rule prepare_plot_spec[OF assms, where icpt_of = v_intercept])
    (simp_all add: prepare_plot_tf_def)

lemma masked_column_None:
  assumes "has_shape M r 2" and "length sel = r" and "j < 2"
  shows "(masked_column M sel j = None) = False"
  using assms by (auto simp: masked_column_def has_shape_def list_all_iff)

lemma entry_None:
  assumes "has_shape M r 2" and "i < r" and "j < 2"
  shows "(entry M i j = None) = False"
  using assms by (auto simp: entry_def has_shape_def list_all_length)

lemma hyperplane_line_None: "length beta = 2 \<Longrightarrow> (hyperplane_line beta b = None) = False"
  by (simp add: hyperplane_line_def)

lemma plot_statements_spec:
  "spec plot_ready (seq (plot_statements L)) plot_ready (raised L)"
proof (rule spec_seq_all)
  fix c assume c: "c \<in> set (plot_statements L)"
  have arrow: "spec plot_ready (for_range v_m (s_arrow L)) plot_ready (raised L)"
  proof (rule spec_for[where k = 30])
    fix i :: nat assume i: "i < 30"
    show "spec plot_ready (s_arrow L i) plot_ready (raised L)"
      unfolding s_arrow_def
      using i
      by (auto intro!: spec_intros raisedI simp: plot_ready_def entry_None split: if_splits)
  qed (simp add: plot_ready_def)
  from c show "spec plot_ready c plot_ready (raised L)"
    unfolding plot_statements_def s_scatter_def s_plot_def
    using arrow
    by (auto intro!: spec_callI spec_guardI raisedI
        simp: plot_ready_def masked_column_None hyperplane_line_None split: if_splits)
qed

subsection \<open>Every exception of a run is one a library call raised\<close>

lemma quiet_true:
  "set cs \<subseteq> {c. \<exists>name upd. c = call L name upd} \<Longrightarrow>
   spec (\<lambda>s. True) (seq cs) (\<lambda>s. True) (raised L)"
  by (rule spec_seq_all) (auto intro!: spec_callI raisedI)

lemma cell1_torch_spec: "spec (\<lambda>s. True) (seq (cell1_torch L)) (\<lambda>s. True) (raised L)"
  unfolding cell1_torch_def by (rule quiet_true) auto

lemma cell1_tf_spec: "spec (\<lambda>s. True) (seq (cell1_tf L)) (\<lambda>s. True) (raised L)"
  unfolding cell1_tf_def by (rule quiet_true) auto

lemma cell3_torch_declared:
  assumes "lib_contract L"
  shows "spec (\<lambda>s. True) (seq (cell3_torch L)) (declared_torch L) (raised L)"
  by (rule cell3_torch_spec) (auto simp: raisedI dest: generated_data_ready[OF assms] simp: data_ready_def)

lemma cell3_torch_raised:
  assumes "lib_contract L"
  shows "spec (\<lambda>s. True) (seq (cell3_torch L)) (ready_torch L) (raised L)"
  by (rule spec_conseq[OF cell3_torch_declared[OF assms]]) (simp_all add: declared_torch_def)

lemma cell3_tf_declared:
  assumes "lib_contract L"
  shows "spec (\<lambda>s. True) (seq (cell3_tf L)) (declared_tf L) (raised L)"
  by (rule cell3_tf_spec) (auto simp: raisedI dest: generated_data_ready[OF assms] simp: data_ready_def)

lemma cell3_tf_raised:
  assumes "lib_contract L"
  shows "spec (\<lambda>s. True) (seq (cell3_tf L)) (ready_tf L) (raised L)"
  by (rule spec_conseq[OF cell3_tf_declared[OF assms]]) (simp_all add: declared_tf_def)

lemma cell7_torch_spec:
  assumes "lib_contract L"
  shows "spec (fitted v_a_tch) (seq (cell7_torch L)) (\<lambda>s. True) (raised L)"
proof -
  have "spec plot_ready (seq [s_savefig L ''data_poisoning.pdf'', s_show L]) (\<lambda>s. True) (raised L)"
    unfolding s_savefig_def s_show_def
    by (intro spec_seq_Cons[where R = "\<lambda>s. True"] spec_callI raisedI) (simp_all add: spec_def)
  then show ?thesis
    unfolding cell7_torch_def
    by (intro spec_seq_append[OF prepare_plot_torch_spec[OF assms]]
        spec_seq_append[OF plot_statements_spec])
qed

lemma cell7_tf_spec:
  assumes "lib_contract L"
  shows "spec (fitted v_slope) (seq (cell7_tf L)) (\<lambda>s. True) (raised L)"
proof -
  have "spec plot_ready (seq [s_show L]) (\<lambda>s. True) (raised L)"
    unfolding s_show_def
    by (intro spec_seq_Cons[where R = "\<lambda>s. True"] spec_callI raisedI) (simp_all add: spec_def)
  then show ?thesis
    unfolding cell7_tf_def
    by (intro spec_seq_append[OF prepare_plot_tf_spec[OF assms]]
        spec_seq_append[OF plot_statements_spec])
qed

lemma notebook_torch_spec:
  assumes "lib_contract L"
  shows "spec (\<lambda>s. True) (notebook_torch L) (\<lambda>s. True) (raised L)"
  unfolding notebook_torch_def
  by (intro spec_seq_append[OF cell1_torch_spec] spec_seq_append[OF cell3_torch_raised]
      spec_seq_append[OF cell5_torch_spec] cell7_torch_spec assms)

lemma notebook_tf_spec:
  assumes "lib_contract L"
  shows "spec (\<lambda>s. True) (notebook_tf L) (\<lambda>s. True) (raised L)"
  unfolding notebook_tf_def
  by (intro spec_seq_append[OF cell1_tf_spec] spec_seq_append[OF cell3_tf_raised]
      spec_seq_append[OF cell5_tf_spec] cell7_tf_spec assms)

lemma spec_error:
  "spec P c Q E \<Longrightarrow> P s \<Longrightarrow> c s = (s', Some e) \<Longrightarrow> E s' e"
  unfolding spec_def by (metis option.simps(5))

lemma spec_result:
  "spec P c Q E \<Longrightarrow> P s \<Longrightarrow> c s = (s', None) \<Longrightarrow> Q s'"
  unfolding spec_def by (metis option.simps(4))

lemma seq_error_iff:
  "seq cs s = (s', Some e) \<longleftrightarrow>
     (\<exists>k<length cs. \<exists>s0. seq (take k cs) s = (s0, None) \<and> (cs ! k) s0 = (s', Some e))"
proof (induction cs arbitrary: s)
  case Nil
  then show ?case by simp
next
  case (Cons c cs)
  obtain s1 r1 where c: "c s = (s1, r1)" by (cases "c s")
  show ?case
  proof (cases r1)
    case None
    have "seq (c # cs) s = (s', Some e) \<longleftrightarrow> seq cs s1 = (s', Some e)"
      using c None by simp
    also have "\<dots> \<longleftrightarrow> (\<exists>k<length cs. \<exists>s0. seq (take k cs) s1 = (s0, None)
                   \<and> (cs ! k) s0 = (s', Some e))"
      by (rule Cons.IH)
    also have "\<dots> \<longleftrightarrow> (\<exists>k<length (c # cs). \<exists>s0. seq (take k (c # cs)) s = (s0, None)
                   \<and> ((c # cs) ! k) s0 = (s', Some e))" (is "?L \<longleftrightarrow> ?R")
    proof
      assume ?L
      then obtain k s0 where "k < length cs" "seq (take k cs) s1 = (s0, None)"
        "(cs ! k) s0 = (s', Some e)" by blast
      then have "Suc k < length (c # cs) \<and> seq (take (Suc k) (c # cs)) s = (s0, None)
          \<and> ((c # cs) ! Suc k) s0 = (s', Some e)"
        using c None by simp
      then show ?R by blast
    next
      assume ?R
      then obtain k s0 where k: "k < length (c # cs)" "seq (take k (c # cs)) s = (s0, None)"
        "((c # cs) ! k) s0 = (s', Some e)" by blast
      show ?L
      proof (cases k)
        case 0
        with k c None show ?thesis by simp
      next
        case (Suc j)
        with k c None have "j < length cs \<and> seq (take j cs) s1 = (s0, None)
            \<and> (cs ! j) s0 = (s', Some e)" by simp
        then show ?thesis by blast
      qed
    qed
    finally show ?thesis .
  next
    case (Some e1)
    show ?thesis
    proof
      assume "seq (c # cs) s = (s', Some e)"
      with c Some have "c s = (s', Some e)" by simp
      then have "0 < length (c # cs) \<and> seq (take 0 (c # cs)) s = (s, None)
          \<and> ((c # cs) ! 0) s = (s', Some e)" by simp
      then show "\<exists>k<length (c # cs). \<exists>s0. seq (take k (c # cs)) s = (s0, None)
          \<and> ((c # cs) ! k) s0 = (s', Some e)" by blast
    next
      assume "\<exists>k<length (c # cs). \<exists>s0. seq (take k (c # cs)) s = (s0, None)
          \<and> ((c # cs) ! k) s0 = (s', Some e)"
      then obtain k s0 where k: "k < length (c # cs)" "seq (take k (c # cs)) s = (s0, None)"
        "((c # cs) ! k) s0 = (s', Some e)" by blast
      show "seq (c # cs) s = (s', Some e)"
      proof (cases k)
        case 0
        with k c Some show ?thesis by simp
      next
        case (Suc j)
        with k c Some show ?thesis by simp
      qed
    qed
  qed
qed

lemma sample_lib_contract: "lib_contract sample_lib"
  by (auto simp: lib_contract_def sample_lib_def has_shape_def list_all_iff)

lemma sample_lib_never_raised: "\<not> raised sample_lib s e"
  by (simp add: raised_def sample_lib_def)

lemma sample_run_torch: "snd (notebook_torch sample_lib s) = None"
proof (cases "notebook_torch sample_lib s")
  case (Pair s' r)
  show ?thesis
  proof (cases r)
    case None
    with Pair show ?thesis by simp
  next
    case (Some e)
    with Pair spec_error[OF notebook_torch_spec[OF sample_lib_contract] TrueI]
    have "raised sample_lib s' e" by blast
    then show ?thesis by (simp add: sample_lib_never_raised)
  qed
qed

lemma sample_run_tf: "snd (notebook_tf sample_lib s) = None"
proof (cases "notebook_tf sample_lib s")
  case (Pair s' r)
  show ?thesis
  proof (cases r)
    case None
    with Pair show ?thesis by simp
  next
    case (Some e)
    with Pair spec_error[OF notebook_tf_spec[OF sample_lib_contract] TrueI]
    have "raised sample_lib s' e" by blast
    then show ?thesis by (simp add: sample_lib_never_raised)
  qed
qed

subsection \<open>The phases, the files and the screen\<close>

lemmas outputs_simps = outputs_def kept_def phases_def is_phase_def

lemma cell1_torch_quiet: "spec (outputs cs d sc) (seq (cell1_torch L)) (outputs cs d sc) (kept d sc)"
  by (rule spec_seq_all) (auto intro!: spec_intros simp: cell1_torch_def outputs_simps)

lemma cell1_tf_quiet: "spec (outputs cs d sc) (seq (cell1_tf L)) (outputs cs d sc) (kept d sc)"
  by (rule spec_seq_all) (auto intro!: spec_intros simp: cell1_tf_def outputs_simps)

lemma generate_data_log:
  "spec (outputs cs d sc) (seq (generate_data L)) (outputs (cs @ [''make_blobs'']) d sc) (kept d sc)"
proof -
  define A where "A k = outputs (cs @ (if 4 \<le> k then [''make_blobs''] else [])) d sc" for k :: nat
  have "chain A 0 (generate_data L) (kept d sc)"
    unfolding generate_data_def s_np_seed_def s_make_blobs_def s_train_test_split_def
    by (auto intro!: spec_intros simp: A_def outputs_simps
        split: prod.splits array_or_parameter.splits)
  then have "spec (A 0) (seq (generate_data L)) (A 5) (kept d sc)"
    by (rule spec_chain_len) (simp add: generate_data_def)
  then show ?thesis by (simp add: A_def)
qed

lemma cell3_torch_log:
  "spec (outputs cs d sc) (seq (cell3_torch L)) (outputs (cs @ [''make_blobs'']) d sc) (kept d sc)"
proof -
  have 1: "spec (outputs cs d sc) (seq [call L ''import sklearn.datasets'' id,
      call L ''import sklearn.model_selection'' id,
      call L ''torch.manual_seed'' (\<lambda>s. s\<lparr>fw_rng := fw_seed L 0\<rparr>)]) (outputs cs d sc) (kept d sc)"
    by (rule spec_seq_all) (auto intro!: spec_intros simp: outputs_simps)
  have 3: "spec (outputs cs' d sc) (seq [s_from_numpy L,
      call L ''requires_grad_'' (\<lambda>s. s\<lparr>v_Xtrain_requires_grad := True\<rparr>), s_m])
      (outputs cs' d sc) (kept d sc)" for cs'
    by (rule spec_seq_all) (auto intro!: spec_intros simp: s_from_numpy_def s_m_def outputs_simps)
  have 4: "spec (outputs cs' d sc) (seq (declare_problem_torch L)) (outputs cs' d sc) (kept d sc)" for cs'
    by (rule spec_seq_all)
      (auto intro!: spec_intros simp: declare_problem_torch_def s_X_Parameter_def s_Y_def
        s_log_likelihood_def s_CvxpyLayer_torch_def outputs_simps)
  show ?thesis
    unfolding cell3_torch_def
    by (intro spec_seq_append[OF 1] spec_seq_append[OF generate_data_log]
        spec_seq_append[OF 3] 4)
qed

lemma cell3_tf_log:
  "spec (outputs cs d sc) (seq (cell3_tf L)) (outputs (cs @ [''make_blobs'']) d sc) (kept d sc)"
proof -
  have 1: "spec (outputs cs d sc) (seq [call L ''import sklearn.datasets'' id,
      call L ''import sklearn.model_selection'' id,
      call L ''tf.random.set_seed'' (\<lambda>s. s\<lparr>fw_rng := fw_seed L 0\<rparr>)]) (outputs cs d sc) (kept d sc)"
    by (rule spec_seq_all) (auto intro!: spec_intros simp: outputs_simps)
  have 3: "spec (outputs cs' d sc) (seq [s_tf_constant L, s_m]) (outputs cs' d sc) (kept d sc)" for cs'
    by (rule spec_seq_all) (auto intro!: spec_intros simp: s_tf_constant_def s_m_def outputs_simps)
  have 4: "spec (outputs cs' d sc) (seq (declare_problem_tf L)) (outputs cs' d sc) (kept d sc)" for cs'
    by (rule spec_seq_all)
      (auto intro!: spec_intros simp: declare_problem_tf_def s_X_Parameter_def s_Y_def
        s_log_likelihood_def s_CvxpyLayer_tf_def outputs_simps)
  show ?thesis
    unfolding cell3_tf_def
    by (intro spec_seq_append[OF 1] spec_seq_append[OF generate_data_log]
        spec_seq_append[OF 3] 4)
qed

lemma cell5_torch_log:
  "spec (outputs cs d sc) (seq (cell5_torch L))
     (outputs (cs @ [''fit_logreg'', ''loss.backward'']) d sc) (kept d sc)"
proof -
  define A where "A k = outputs (cs @ (if k < 2 then [] else if k < 4 then [''fit_logreg'']
      else [''fit_logreg'', ''loss.backward''])) d sc" for k :: nat
  have "chain A 0 (cell5_torch L) (kept d sc)"
    unfolding cell5_torch_def s_forward_torch_def s_loss_torch_def s_backward_def
    by (auto intro!: spec_intros simp: A_def outputs_simps)
  then have "spec (A 0) (seq (cell5_torch L)) (A 5) (kept d sc)"
    by (rule spec_chain_len) (simp add: cell5_torch_def)
  then show ?thesis by (simp add: A_def)
qed

lemma cell5_tf_log:
  "spec (outputs cs d sc) (seq (cell5_tf L))
     (outputs (cs @ [''fit_logreg'', ''tape.gradient'']) d sc) (kept d sc)"
proof -
  define B where "B k = outputs (cs @ (if k < 2 then [] else [''fit_logreg''])) d sc" for k :: nat
  let ?body = "[call L ''tape.watch'' id, s_forward_tf L, s_test_loss_tf L]"
  have "chain B 0 ?body (kept d sc)"
    unfolding s_forward_tf_def s_test_loss_tf_def
    by (auto intro!: spec_intros simp: B_def outputs_simps)
  then have body: "spec (B 0) (seq ?body) (B 3) (kept d sc)"
    by (rule spec_chain_len) simp
  have enter: "spec (B 0) (call L ''tf.GradientTape'' id) (B 0) (kept d sc)"
    by (auto intro!: spec_intros simp: B_def outputs_simps)
  have w: "spec (outputs cs d sc) (with_block (call L ''tf.GradientTape'' id) ?body)
             (outputs (cs @ [''fit_logreg'']) d sc) (kept d sc)"
    using spec_with[OF enter body] by (simp add: B_def)
  have 1: "spec (outputs cs d sc) (call L ''import sklearn.linear_model'' id) (outputs cs d sc) (kept d sc)"
    by (auto intro!: spec_intros simp: outputs_simps)
  have 2: "spec (outputs cs d sc) (call L ''BinaryCrossentropy'' id) (outputs cs d sc) (kept d sc)"
    by (auto intro!: spec_intros simp: outputs_simps)
  have 4: "spec (outputs (cs @ [''fit_logreg'']) d sc) (s_tape_gradient L)
             (outputs (cs @ [''fit_logreg'', ''tape.gradient'']) d sc) (kept d sc)"
    unfolding s_tape_gradient_def by (auto intro!: spec_intros simp: outputs_simps)
  show ?thesis
    unfolding cell5_tf_def
    by (intro spec_seq_Cons[OF 1] spec_seq_Cons[OF 2] spec_seq_Cons[OF w] spec_seq_one[OF 4])
qed

lemma prepare_plot_torch_quiet:
  "spec (outputs cs d sc) (seq (prepare_plot_torch L)) (outputs cs d sc) (kept d sc)"
  by (rule spec_seq_all)
    (auto intro!: spec_intros simp: prepare_plot_torch_def s_lr_fit_def s_Xtrain_grad_np_def
      s_ytrain_np_def outputs_simps)

lemma prepare_plot_tf_quiet:
  "spec (outputs cs d sc) (seq (prepare_plot_tf L)) (outputs cs d sc) (kept d sc)"
  by (rule spec_seq_all)
    (auto intro!: spec_intros simp: prepare_plot_tf_def s_lr_fit_def s_Xtrain_grad_np_def
      s_ytrain_np_def outputs_simps)

lemma plot_statements_quiet:
  "spec (outputs cs d sc) (seq (plot_statements L)) (outputs cs d sc) (kept d sc)"
  by (rule spec_seq_all)
    (auto intro!: spec_intros simp: plot_statements_def s_scatter_def s_arrow_def s_plot_def
      outputs_simps)

lemma kept_off_pdf: "spec P c Q (kept d sc) \<Longrightarrow> spec P c Q (\<lambda>s e. off_pdf d s)"
  by (erule spec_conseq) (simp_all add: kept_def off_pdf_def)

lemma kept_disk: "spec P c Q (kept d sc) \<Longrightarrow> spec P c Q (\<lambda>s e. disk s = d)"
  by (erule spec_conseq) (simp_all add: kept_def)

lemma finish_torch_log:
  "spec (outputs cs d sc) (seq [s_savefig L ''data_poisoning.pdf'', s_show L])
     (\<lambda>s. phases s = cs @ [''plt.show''] \<and> disk s = d(''data_poisoning.pdf'' \<mapsto> gcf s)
          \<and> screen s = sc @ [gcf s])
     (\<lambda>s e. off_pdf d s)"
proof -
  define A where "A k s \<longleftrightarrow>
     (if k = 0 then outputs cs d sc s
      else if k = 1 then phases s = cs \<and> disk s = d(''data_poisoning.pdf'' \<mapsto> gcf s) \<and> screen s = sc
      else phases s = cs @ [''plt.show''] \<and> disk s = d(''data_poisoning.pdf'' \<mapsto> gcf s)
           \<and> screen s = sc @ [gcf s])" for k :: nat and s
  have "chain A 0 [s_savefig L ''data_poisoning.pdf'', s_show L] (\<lambda>s e. off_pdf d s)"
    unfolding s_savefig_def s_show_def
    by (auto intro!: spec_intros simp: A_def outputs_simps off_pdf_def)
  then have "spec (A 0) (seq [s_savefig L ''data_poisoning.pdf'', s_show L]) (A 2)
      (\<lambda>s e. off_pdf d s)"
    by (rule spec_chain_len) simp
  then show ?thesis
    by (rule spec_conseq) (simp_all add: A_def)
qed

lemma finish_tf_log:
  "spec (outputs cs d sc) (seq [s_show L])
     (\<lambda>s. phases s = cs @ [''plt.show''] \<and> disk s = d \<and> screen s = sc @ [gcf s])
     (\<lambda>s e. disk s = d)"
  unfolding s_show_def
  by (rule spec_seq_one) (auto intro!: spec_intros simp: outputs_simps)

lemma notebook_torch_log:
  "spec (outputs cs d sc) (notebook_torch L)
     (\<lambda>s. phases s = cs @ [''make_blobs'', ''fit_logreg'', ''loss.backward'', ''plt.show'']
          \<and> disk s = d(''data_poisoning.pdf'' \<mapsto> gcf s) \<and> screen s = sc @ [gcf s])
     (\<lambda>s e. off_pdf d s)"
proof -
  have 7: "spec (outputs cs' d sc) (seq (cell7_torch L))
     (\<lambda>s. phases s = cs' @ [''plt.show''] \<and> disk s = d(''data_poisoning.pdf'' \<mapsto> gcf s)
          \<and> screen s = sc @ [gcf s]) (\<lambda>s e. off_pdf d s)" for cs'
    unfolding cell7_torch_def
    by (intro spec_seq_append[OF kept_off_pdf[OF prepare_plot_torch_quiet]]
        spec_seq_append[OF kept_off_pdf[OF plot_statements_quiet]] finish_torch_log)
  have "spec (outputs cs d sc) (notebook_torch L)
     (\<lambda>s. phases s = ((cs @ [''make_blobs'']) @ [''fit_logreg'', ''loss.backward'']) @ [''plt.show'']
          \<and> disk s = d(''data_poisoning.pdf'' \<mapsto> gcf s) \<and> screen s = sc @ [gcf s])
     (\<lambda>s e. off_pdf d s)"
    unfolding notebook_torch_def
    by (intro spec_seq_append[OF kept_off_pdf[OF cell1_torch_quiet]]
        spec_seq_append[OF kept_off_pdf[OF cell3_torch_log]]
        spec_seq_append[OF kept_off_pdf[OF cell5_torch_log]] 7)
  then show ?thesis by simp
qed

lemma notebook_tf_log:
  "spec (outputs cs d sc) (notebook_tf L)
     (\<lambda>s. phases s = cs @ [''make_blobs'', ''fit_logreg'', ''tape.gradient'', ''plt.show'']
          \<and> disk s = d \<and> screen s = sc @ [gcf s])
     (\<lambda>s e. disk s = d)"
proof -
  have 7: "spec (outputs cs' d sc) (seq (cell7_tf L))
     (\<lambda>s. phases s = cs' @ [''plt.show''] \<and> disk s = d \<and> screen s = sc @ [gcf s])
     (\<lambda>s e. disk s = d)" for cs'
    unfolding cell7_tf_def
    by (intro spec_seq_append[OF kept_disk[OF prepare_plot_tf_quiet]]
        spec_seq_append[OF kept_disk[OF plot_statements_quiet]] finish_tf_log)
  have "spec (outputs cs d sc) (notebook_tf L)
     (\<lambda>s. phases s = ((cs @ [''make_blobs'']) @ [''fit_logreg'', ''tape.gradient'']) @ [''plt.show'']
          \<and> disk s = d \<and> screen s = sc @ [gcf s])
     (\<lambda>s e. disk s = d)"
    unfolding notebook_tf_def
    by (intro spec_seq_append[OF kept_disk[OF cell1_tf_quiet]]
        spec_seq_append[OF kept_disk[OF cell3_tf_log]]
        spec_seq_append[OF kept_disk[OF cell5_tf_log]] 7)
  then show ?thesis by simp
qed

lemma outputs_here: "outputs (phases s) (disk s) (screen s) s"
  by (simp add: outputs_def)

subsection \<open>The gradient cell leaves the data alone\<close>

lemma spec_with_inv:
  assumes "spec I enter I E" and "spec I (seq body) I E"
  shows "spec I (with_block enter body) I E"
  using assms by (rule spec_with)

lemma cell5_torch_frame:
  "spec (\<lambda>s. dataset s = D) (seq (cell5_torch L)) (\<lambda>s. dataset s = D) (\<lambda>s e. dataset s = D)"
  by (rule spec_seq_all)
    (auto intro!: spec_callI spec_assignI spec_guardI
      simp: cell5_torch_def s_forward_torch_def s_loss_torch_def s_backward_def dataset_def)

lemma cell5_tf_frame:
  "spec (\<lambda>s. dataset s = D) (seq (cell5_tf L)) (\<lambda>s. dataset s = D) (\<lambda>s e. dataset s = D)"
  by (rule spec_seq_all)
    (auto intro!: spec_with_inv spec_seq_all spec_callI spec_assignI spec_guardI
      simp: cell5_tf_def s_forward_tf_def s_test_loss_tf_def s_tape_gradient_def dataset_def)

lemma backward_frame:
  "s_backward L s = (s', r) \<Longrightarrow>
   s'\<lparr>v_Xtrain_dot_grad := v_Xtrain_dot_grad s, calls := calls s\<rparr> = s"
  by (auto simp: s_backward_def guard_def call_def split: if_splits option.splits)

lemma tape_gradient_frame:
  "s_tape_gradient L s = (s', r) \<Longrightarrow>
   s'\<lparr>v_Xtrain_grad := v_Xtrain_grad s, calls := calls s\<rparr> = s"
  by (auto simp: s_tape_gradient_def call_def split: option.splits)

subsection \<open>The dataset\<close>

lemma cell3_torch_generated:
  "seq (cell3_torch L) s = (s', None) \<Longrightarrow> generated L s'"
  using spec_result[OF cell3_torch_spec[where E = "\<lambda>s e. True"], of L s s']
  by (simp add: declared_torch_def ready_torch_def)

lemma cell3_tf_generated:
  "seq (cell3_tf L) s = (s', None) \<Longrightarrow> generated L s'"
  using spec_result[OF cell3_tf_spec[where E = "\<lambda>s e. True"], of L s s']
  by (simp add: declared_tf_def ready_tf_def)

lemma cell3_declared:
  "seq (cell3_torch L) s = (s', None) \<Longrightarrow> declared_torch L s'"
  "seq (cell3_tf L) s = (s', None) \<Longrightarrow> declared_tf L s'"
  using spec_result[OF cell3_torch_spec[where E = "\<lambda>s e. True"], of L s s']
    spec_result[OF cell3_tf_spec[where E = "\<lambda>s e. True"], of L s s']
  by simp_all

lemma split_rows:
  assumes "length X = 60" and "length p = 60" and "p = fst (permutation L g 60)"
  shows "fst (train_test_split L g X y (1 / 2))
           = (map ((!) X) (drop 30 p), map ((!) X) (take 30 p),
              map ((!) y) (drop 30 p), map ((!) y) (take 30 p))"
  using assms unfolding train_test_split_def Let_def by simp

lemma contract_permutation:
  assumes "lib_contract L"
  shows "length (fst (permutation L g k)) = k" and "set (fst (permutation L g k)) = {..<k}"
    and "distinct (fst (permutation L g k))"
proof -
  from assms show l: "length (fst (permutation L g k)) = k"
    and s: "set (fst (permutation L g k)) = {..<k}"
    by (simp_all add: lib_contract_def)
  from l s show "distinct (fst (permutation L g k))"
    by (simp add: card_distinct)
qed

subsection \<open>Runs with the sample libraries\<close>

lemma count_phase:
  "is_phase x \<Longrightarrow> count_list (calls s) x = count_list (phases s) x"
  unfolding phases_def by (induction "calls s" arbitrary: s) (auto simp: count_list_eq_length_filter
      intro: arg_cong[where f = length] filter_cong)

lemma run_result: "c s = (fst (c s), snd (c s))"
  by simp

lemma sample_cell3_torch: "snd (seq (cell3_torch sample_lib) s) = None"
proof (cases "seq (cell3_torch sample_lib) s")
  case (Pair s' r)
  show ?thesis
  proof (cases r)
    case None
    with Pair show ?thesis by simp
  next
    case (Some e)
    with Pair spec_error[OF cell3_torch_raised[OF sample_lib_contract] TrueI]
    have "raised sample_lib s' e" by blast
    then show ?thesis by (simp add: sample_lib_never_raised)
  qed
qed

lemma sample_cell3_tf: "snd (seq (cell3_tf sample_lib) s) = None"
proof (cases "seq (cell3_tf sample_lib) s")
  case (Pair s' r)
  show ?thesis
  proof (cases r)
    case None
    with Pair show ?thesis by simp
  next
    case (Some e)
    with Pair spec_error[OF cell3_tf_raised[OF sample_lib_contract] TrueI]
    have "raised sample_lib s' e" by blast
    then show ?thesis by (simp add: sample_lib_never_raised)
  qed
qed

lemma failing_lib_contract: "lib_contract failing_lib"
  using sample_lib_contract by (simp add: lib_contract_def failing_lib_def)

lemma quiet_run:
  assumes "spec (\<lambda>s. True) c (\<lambda>s. True) (raised L)" and "\<forall>name t. raises L name t = None"
  shows "snd (c s) = None"
proof (cases "c s")
  case (Pair s' r)
  show ?thesis
  proof (cases r)
    case None
    with Pair show ?thesis by simp
  next
    case (Some e)
    with Pair spec_error[OF assms(1) TrueI] have "raised L s' e" by blast
    with assms(2) show ?thesis by (simp add: raised_def)
  qed
qed

section \<open>Each statement raises what its library call raises\<close>

subsection \<open>Rules\<close>

lemma follows_callI:
  assumes "\<And>t. calls (upd t) = calls t"
  shows "follows L (Does name) (call L name upd) s"
proof (cases "raises L name s")
  case None
  then show ?thesis
    by (intro Does_returns[where s' = "upd (s\<lparr>calls := calls s @ [name]\<rparr>)"])
      (simp_all add: call_def assms)
next
  case (Some e)
  then show ?thesis by (intro Does_raises[where e = e]) (simp_all add: call_def)
qed

lemma follows_guardI:
  assumes "g s = None" and "\<And>t. calls (upd t) = calls t"
  shows "follows L (Does name) (guard g (call L name upd)) s"
proof -
  have eq: "guard g (call L name upd) s = call L name upd s"
    using assms(1) by (simp add: guard_def)
  from follows_callI[of upd L name s, OF assms(2)] show ?thesis
    by (cases rule: follows.cases) (auto intro: Does_raises Does_returns simp: eq)
qed

lemma follows_assignI: "calls (upd s) = calls s \<Longrightarrow> follows L Own (assign upd) s"
  by (rule Own[where s' = "upd s"]) (simp_all add: assign_def)

lemma follows_listI:
  "chain A k cs E \<Longrightarrow> fits L A k shs cs \<Longrightarrow> A k s \<Longrightarrow> follows_list L shs cs s"
proof (induction cs arbitrary: k shs s)
  case Nil
  then show ?case by (cases shs) (auto intro: follows_follows_list.Nil)
next
  case (Cons c cs)
  from Cons.prems(2) obtain sh shs' where shs: "shs = sh # shs'" by (cases shs) auto
  from Cons.prems(2,3) shs have f: "follows L sh c s" and rest: "fits L A (Suc k) shs' cs"
    by auto
  obtain s' r where c: "c s = (s', r)" by (cases "c s")
  show ?case
  proof (cases r)
    case None
    from Cons.prems(1,3) c None have "A (Suc k) s'" by (auto simp: spec_def)
    with Cons.IH[of "Suc k" shs' s'] Cons.prems(1) rest
    have "follows_list L shs' cs s'" by simp
    with f c None show ?thesis unfolding shs by (auto intro: Cons_returns)
  next
    case (Some e)
    with f c show ?thesis unfolding shs by (auto intro: Cons_raises)
  qed
qed

lemma chain_const: "(\<And>c. c \<in> set cs \<Longrightarrow> spec I c I E) \<Longrightarrow> chain (\<lambda>k. I) k cs E"
  by (induction cs arbitrary: k) auto

lemma follows_list_inv:
  assumes "\<And>c. c \<in> set cs \<Longrightarrow> spec I c I E" and "fits L (\<lambda>k. I) 0 shs cs" and "I s"
  shows "follows_list L shs cs s"
  using chain_const[of cs I E 0, OF assms(1)] assms(2,3) by (rule follows_listI)

lemma follows_list_append:
  assumes "follows_list L shs1 cs1 s"
    and "\<And>s'. seq cs1 s = (s', None) \<Longrightarrow> follows_list L shs2 cs2 s'"
  shows "follows_list L (shs1 @ shs2) (cs1 @ cs2) s"
  using assms
proof (induction cs1 arbitrary: shs1 s)
  case Nil
  from Nil.prems(1) have "shs1 = []" by (cases rule: follows_list.cases) auto
  with Nil.prems(2)[of s] show ?case by simp
next
  case (Cons c cs)
  from Cons.prems(1) show ?case
  proof (cases rule: follows_list.cases)
    case (Cons_raises sh s' e shs)
    then show ?thesis by (auto intro: follows_follows_list.Cons_raises)
  next
    case (Cons_returns sh s' shs)
    have "follows_list L (shs @ shs2) (cs @ cs2) s'"
      by (rule Cons.IH[OF Cons_returns(4)]) (use Cons.prems(2) Cons_returns(3) in simp)
    with Cons_returns show ?thesis by (auto intro: follows_follows_list.Cons_returns)
  qed
qed

lemma follows_list_append_spec:
  assumes "\<And>s. P s \<Longrightarrow> follows_list L shs1 cs1 s" and "spec P (seq cs1) Q E"
    and "\<And>s. Q s \<Longrightarrow> follows_list L shs2 cs2 s" and "P s"
  shows "follows_list L (shs1 @ shs2) (cs1 @ cs2) s"
proof (rule follows_list_append[OF assms(1)[OF assms(4)]])
  fix s' assume "seq cs1 s = (s', None)"
  with assms(2,4) have "Q s'" by (auto simp: spec_def)
  then show "follows_list L shs2 cs2 s'" by (rule assms(3))
qed

lemma follows_list_loop:
  assumes "\<And>i. i < n \<Longrightarrow> spec I (body i) I E"
    and "\<And>i s. i < n \<Longrightarrow> I s \<Longrightarrow> follows L sh (body i) s"
  shows "I s \<Longrightarrow> k \<le> n \<Longrightarrow> follows_list L (replicate (n - k) sh) (map body [k..<n]) s"
proof (induction "n - k" arbitrary: k s)
  case 0
  then show ?case by (auto intro: follows_follows_list.Nil)
next
  case (Suc d)
  then have k: "k < n" and d: "d = n - Suc k" by simp_all
  have l: "[k..<n] = k # [Suc k..<n]" using k by (simp add: upt_rec)
  have r: "replicate (n - k) sh = sh # replicate (n - Suc k) sh"
    using k by (metis Suc.hyps(2) d replicate_Suc)
  from assms(2)[OF k Suc.prems(1)] have f: "follows L sh (body k) s" .
  obtain s' r' where c: "body k s = (s', r')" by (cases "body k s")
  show ?case
  proof (cases r')
    case None
    from assms(1)[OF k] Suc.prems(1) c None have "I s'" by (auto simp: spec_def)
    from Suc.hyps(1)[OF d this] k
    have "follows_list L (replicate (n - Suc k) sh) (map body [Suc k..<n]) s'" by simp
    with f c None show ?thesis unfolding l r by (auto intro: Cons_returns)
  next
    case (Some e)
    with f c show ?thesis unfolding l r by (auto intro: Cons_raises)
  qed
qed

subsection \<open>What a run that follows its calls does\<close>

lemma take_concat_less:
  "k < length xs \<Longrightarrow> take k (xs @ ys) = take k xs \<and> (xs @ ys) ! k = xs ! k"
  by (simp add: nth_append)

lemma follows_run:
  "follows L sh c s \<Longrightarrow>
     (\<forall>s'. c s = (s', None) \<longrightarrow>
         calls s' = calls s @ calls_of sh \<and> (\<forall>n \<in> set (calls_of sh). \<exists>t. raises L n t = None)) \<and>
     (\<forall>s' e. c s = (s', Some e) \<longrightarrow>
         (\<exists>k < length (calls_of sh). calls s' = calls s @ take k (calls_of sh)
              \<and> raises L (calls_of sh ! k) s' = Some e))"
  "follows_list L shs cs s \<Longrightarrow>
     (\<forall>s'. seq cs s = (s', None) \<longrightarrow>
         calls s' = calls s @ concat (map calls_of shs)
         \<and> (\<forall>n \<in> set (concat (map calls_of shs)). \<exists>t. raises L n t = None)) \<and>
     (\<forall>s' e. seq cs s = (s', Some e) \<longrightarrow>
         (\<exists>k < length (concat (map calls_of shs)).
              calls s' = calls s @ take k (concat (map calls_of shs))
              \<and> raises L (concat (map calls_of shs) ! k) s' = Some e))"
proof (induction rule: follows_follows_list.inducts)
  case (Does_raises name s e c)
  then show ?case by simp
next
  case (Does_returns name s c s')
  then show ?case by auto
next
  case (Own c s s')
  then show ?case by simp
next
  case (Seq shs cs s)
  then show ?case by simp
next
  case (With shs enter body s)
  have "with_block enter body s = seq (enter # body) s"
    by (simp add: with_block_def)
  with With show ?case by simp
next
  case (For shs body count s)
  then show ?case by (simp add: for_range_def)
next
  case (Nil s)
  then show ?case by simp
next
  case (Cons_raises sh c s s' e shs cs)
  have c: "c s = (s', Some e)" by fact
  have "\<forall>s' e. c s = (s', Some e) \<longrightarrow>
         (\<exists>k < length (calls_of sh). calls s' = calls s @ take k (calls_of sh)
              \<and> raises L (calls_of sh ! k) s' = Some e)"
    using Cons_raises by blast
  with c obtain k where k: "k < length (calls_of sh)"
    "calls s' = calls s @ take k (calls_of sh)" "raises L (calls_of sh ! k) s' = Some e"
    by blast
  have "seq (c # cs) s = (s', Some e)" using c by simp
  moreover have "k < length (concat (map calls_of (sh # shs)))" using k(1) by simp
  moreover have "take k (concat (map calls_of (sh # shs))) = take k (calls_of sh)"
    "concat (map calls_of (sh # shs)) ! k = calls_of sh ! k"
    using k(1) by (simp_all add: nth_append)
  ultimately show ?case using k(2,3) by auto
next
  case (Cons_returns sh c s s' shs cs)
  have c: "c s = (s', None)" by fact
  have "\<forall>s'. c s = (s', None) \<longrightarrow>
         calls s' = calls s @ calls_of sh \<and> (\<forall>n \<in> set (calls_of sh). \<exists>t. raises L n t = None)"
    using Cons_returns by blast
  with c have 1: "calls s' = calls s @ calls_of sh"
    "\<forall>n \<in> set (calls_of sh). \<exists>t. raises L n t = None" by auto
  have IH: "(\<forall>s''. seq cs s' = (s'', None) \<longrightarrow>
         calls s'' = calls s' @ concat (map calls_of shs)
         \<and> (\<forall>n \<in> set (concat (map calls_of shs)). \<exists>t. raises L n t = None)) \<and>
     (\<forall>s'' e. seq cs s' = (s'', Some e) \<longrightarrow>
         (\<exists>k < length (concat (map calls_of shs)).
              calls s'' = calls s' @ take k (concat (map calls_of shs))
              \<and> raises L (concat (map calls_of shs) ! k) s'' = Some e))"
    using Cons_returns by blast
  have run: "seq (c # cs) s = seq cs s'" using c by simp
  have A: "\<forall>s''. seq (c # cs) s = (s'', None) \<longrightarrow>
          calls s'' = calls s @ concat (map calls_of (sh # shs))
          \<and> (\<forall>n \<in> set (concat (map calls_of (sh # shs))). \<exists>t. raises L n t = None)"
    using run IH 1 by auto
  have B: "\<forall>s'' e. seq (c # cs) s = (s'', Some e) \<longrightarrow>
         (\<exists>k < length (concat (map calls_of (sh # shs))).
            calls s'' = calls s @ take k (concat (map calls_of (sh # shs)))
            \<and> raises L (concat (map calls_of (sh # shs)) ! k) s'' = Some e)"
  proof (intro allI impI)
    fix s'' e assume "seq (c # cs) s = (s'', Some e)"
    with run IH obtain k where k: "k < length (concat (map calls_of shs))"
      "calls s'' = calls s' @ take k (concat (map calls_of shs))"
      "raises L (concat (map calls_of shs) ! k) s'' = Some e"
      by auto
    let ?k = "length (calls_of sh) + k"
    have "?k < length (concat (map calls_of (sh # shs)))" using k(1) by simp
    moreover have "calls s'' = calls s @ take ?k (concat (map calls_of (sh # shs)))"
      using k(2) 1(1) by simp
    moreover have "raises L (concat (map calls_of (sh # shs)) ! ?k) s'' = Some e"
      using k(3) by (simp add: nth_append)
    ultimately
    show "\<exists>k < length (concat (map calls_of (sh # shs))).
            calls s'' = calls s @ take k (concat (map calls_of (sh # shs)))
            \<and> raises L (concat (map calls_of (sh # shs)) ! k) s'' = Some e"
      by blast
  qed
  from A B show ?case by (rule conjI)
qed

lemma spec_trivial: "spec P c (\<lambda>s. True) (\<lambda>s e. True)"
  by (simp add: spec_def split: option.splits)

lemma follows_list_any: "fits L (\<lambda>k s. True) 0 shs cs \<Longrightarrow> follows_list L shs cs s"
  by (rule follows_list_inv[where I = "\<lambda>s. True" and E = "\<lambda>s e. True"])
    (simp_all add: spec_trivial)

lemmas follows_intros = follows_callI follows_guardI follows_assignI

subsection \<open>The statements of the notebooks\<close>

lemma follows_cell1_torch: "follows_list L steps_cell1_torch (cell1_torch L) s"
  unfolding steps_cell1_torch_def cell1_torch_def
  by (rule follows_list_any) (auto intro!: follows_intros)

lemma follows_cell1_tf: "follows_list L steps_cell1_tf (cell1_tf L) s"
  unfolding steps_cell1_tf_def cell1_tf_def
  by (rule follows_list_any) (auto intro!: follows_intros)

lemma follows_imports3:
  assumes "\<And>t. calls (upd t) = calls t"
  shows "follows_list L [Does n1, Does n2, Does n3]
     [call L n1 id, call L n2 id, call L n3 upd] s"
  by (rule follows_list_any) (auto intro!: follows_intros assms)

lemma follows_generate_data:
  "follows_list L steps_generate_data (generate_data L) s"
proof -
  define A where "A k s \<longleftrightarrow> (k = 4 \<longrightarrow> (\<exists>X. v_X s = Array X))" for k :: nat and s :: nb
  have "chain A 0 (generate_data L) (\<lambda>s e. True)"
    unfolding generate_data_def s_np_seed_def s_make_blobs_def s_train_test_split_def
    by (auto intro!: spec_intros simp: A_def)
  moreover have "fits L A 0 steps_generate_data (generate_data L)"
    unfolding generate_data_def steps_generate_data_def s_np_seed_def s_make_blobs_def
      s_train_test_split_def
    by (auto intro!: follows_intros simp: A_def split: prod.splits array_or_parameter.splits)
  moreover have "A 0 s" by (simp add: A_def)
  ultimately show ?thesis by (rule follows_listI)
qed

lemma follows_tensors_torch:
  "follows_list L steps_tensors_torch
     [s_from_numpy L,
      call L ''requires_grad_'' (\<lambda>s. s\<lparr>v_Xtrain_requires_grad := True\<rparr>), s_m] s"
proof -
  have "follows L (Several [Does ''torch.from_numpy'', Does ''torch.from_numpy'',
               Does ''torch.from_numpy'', Does ''torch.from_numpy'', Own]) (s_from_numpy L) t"
    for t
    unfolding s_from_numpy_def
    by (rule Seq, rule follows_list_any) (auto intro!: follows_intros)
  then show ?thesis
    unfolding steps_tensors_torch_def
    by (intro follows_list_any) (auto intro!: follows_intros simp: s_m_def)
qed

lemma follows_tensors_tf:
  "follows_list L steps_tensors_tf [s_tf_constant L, s_m] s"
proof -
  have "follows L (Several [Does ''tf.constant'', Does ''tf.constant'', Does ''tf.constant'',
               Does ''tf.constant'']) (s_tf_constant L) t" for t
    unfolding s_tf_constant_def
    by (rule Seq, rule follows_list_any) (auto intro!: follows_intros)
  then show ?thesis
    unfolding steps_tensors_tf_def
    by (intro follows_list_any) (auto intro!: follows_intros simp: s_m_def)
qed

lemma follows_declare_torch:
  assumes "v_m s = 30"
  shows "follows_list L steps_declare_torch (declare_problem_torch L) s"
proof (rule follows_list_inv[where I = "\<lambda>s. v_m s = 30" and E = "\<lambda>s e. True"])
  fix c assume "c \<in> set (declare_problem_torch L)"
  then show "spec (\<lambda>s. v_m s = 30) c (\<lambda>s. v_m s = 30) (\<lambda>s e. True)"
    unfolding declare_problem_torch_def s_X_Parameter_def s_Y_def s_log_likelihood_def
      s_CvxpyLayer_torch_def
    by (auto intro!: spec_intros)
next
  show "fits L (\<lambda>k s. v_m s = 30) 0 steps_declare_torch (declare_problem_torch L)"
    unfolding steps_declare_torch_def declare_problem_torch_def s_X_Parameter_def s_Y_def
      s_log_likelihood_def s_CvxpyLayer_torch_def
    by (auto intro!: follows_intros)
qed (rule assms)

lemma follows_declare_tf:
  assumes "v_m s = 30"
  shows "follows_list L steps_declare_tf (declare_problem_tf L) s"
proof (rule follows_list_inv[where I = "\<lambda>s. v_m s = 30" and E = "\<lambda>s e. True"])
  fix c assume "c \<in> set (declare_problem_tf L)"
  then show "spec (\<lambda>s. v_m s = 30) c (\<lambda>s. v_m s = 30) (\<lambda>s e. True)"
    unfolding declare_problem_tf_def s_X_Parameter_def s_Y_def s_log_likelihood_def
      s_CvxpyLayer_tf_def
    by (auto intro!: spec_intros)
next
  show "fits L (\<lambda>k s. v_m s = 30) 0 steps_declare_tf (declare_problem_tf L)"
    unfolding steps_declare_tf_def declare_problem_tf_def s_X_Parameter_def s_Y_def
      s_log_likelihood_def s_CvxpyLayer_tf_def
    by (auto intro!: follows_intros)
qed (rule assms)

lemma follows_cell3_torch:
  assumes "lib_contract L"
  shows "follows_list L steps_cell3_torch (cell3_torch L) s"
proof -
  have d: "follows_list L steps_declare_torch (declare_problem_torch L) t"
    if "ready_torch L t" for t
    using generated_data_ready[OF assms, of t] that
    by (intro follows_declare_torch) (simp add: ready_torch_def data_ready_def)
  have t: "follows_list L (steps_tensors_torch @ steps_declare_torch)
     ([s_from_numpy L,
       call L ''requires_grad_'' (\<lambda>s. s\<lparr>v_Xtrain_requires_grad := True\<rparr>), s_m]
      @ declare_problem_torch L) t" if "split_done L t" for t
    by (rule follows_list_append_spec[where P = "split_done L" and E = "\<lambda>s e. True",
          OF follows_tensors_torch tensors_torch_spec d that]) simp_all
  have g: "follows_list L (steps_generate_data @ steps_tensors_torch @ steps_declare_torch)
     (generate_data L @ [s_from_numpy L,
       call L ''requires_grad_'' (\<lambda>s. s\<lparr>v_Xtrain_requires_grad := True\<rparr>), s_m]
      @ declare_problem_torch L) t" for t
    by (rule follows_list_append_spec[where P = "\<lambda>s. True" and E = "\<lambda>s e. True",
          OF follows_generate_data generate_data_spec t TrueI]) simp_all
  show ?thesis
    unfolding steps_cell3_torch_def cell3_torch_def
    by (rule follows_list_append[OF follows_imports3 g]) simp
qed

lemma follows_cell3_tf:
  assumes "lib_contract L"
  shows "follows_list L steps_cell3_tf (cell3_tf L) s"
proof -
  have d: "follows_list L steps_declare_tf (declare_problem_tf L) t" if "ready_tf L t" for t
    using generated_data_ready[OF assms, of t] that
    by (intro follows_declare_tf) (simp add: ready_tf_def data_ready_def)
  have t: "follows_list L (steps_tensors_tf @ steps_declare_tf)
     ([s_tf_constant L, s_m] @ declare_problem_tf L) t" if "split_done L t" for t
    by (rule follows_list_append_spec[where P = "split_done L" and E = "\<lambda>s e. True",
          OF follows_tensors_tf tensors_tf_spec d that]) simp_all
  have g: "follows_list L (steps_generate_data @ steps_tensors_tf @ steps_declare_tf)
     (generate_data L @ [s_tf_constant L, s_m] @ declare_problem_tf L) t" for t
    by (rule follows_list_append_spec[where P = "\<lambda>s. True" and E = "\<lambda>s e. True",
          OF follows_generate_data generate_data_spec t TrueI]) simp_all
  show ?thesis
    unfolding steps_cell3_tf_def cell3_tf_def
    by (rule follows_list_append[OF follows_imports3 g]) simp
qed

lemma follows_cell5_torch:
  assumes "v_Xtrain_requires_grad s"
  shows "follows_list L steps_cell5_torch (cell5_torch L) s"
proof (rule follows_list_inv[where I = v_Xtrain_requires_grad and E = "\<lambda>s e. True"])
  fix c assume "c \<in> set (cell5_torch L)"
  then show "spec v_Xtrain_requires_grad c v_Xtrain_requires_grad (\<lambda>s e. True)"
    unfolding cell5_torch_def s_forward_torch_def s_loss_torch_def s_backward_def
    by (auto intro!: spec_intros)
next
  show "fits L (\<lambda>k. v_Xtrain_requires_grad) 0 steps_cell5_torch (cell5_torch L)"
    unfolding steps_cell5_torch_def cell5_torch_def s_forward_torch_def s_loss_torch_def
      s_backward_def
    by (auto intro!: follows_intros)
qed (rule assms)

lemma follows_cell5_tf: "follows_list L steps_cell5_tf (cell5_tf L) s"
proof -
  have "follows L (Several [Does ''tf.GradientTape'', Does ''tape.watch'', Does ''fit_logreg'',
               Does ''loss''])
     (with_block (call L ''tf.GradientTape'' id)
        [call L ''tape.watch'' id, s_forward_tf L, s_test_loss_tf L]) t" for t
    unfolding s_forward_tf_def s_test_loss_tf_def
    by (rule With, rule follows_list_any) (auto intro!: follows_intros)
  then show ?thesis
    unfolding steps_cell5_tf_def cell5_tf_def s_tape_gradient_def
    by (intro follows_list_any) (auto intro!: follows_intros)
qed

lemma follows_prepare_plot:
  assumes "v_Xtrain_grad s \<noteq> None"
    and cs: "cs = [call L ''LogisticRegression'' id,
      s_lr_fit L,
      call L ''flatten'' (\<lambda>s. s\<lparr>v_beta_train := flatten (slope_of s)\<rparr>),
      call L ''flatten'' (\<lambda>s. s\<lparr>v_beta_test := fst (v_lr s)\<rparr>),
      call L ''numpy'' (\<lambda>s. s\<lparr>v_b_train := scalar_of (icpt_of s)\<rparr>),
      assign (\<lambda>s. s\<lparr>v_b_test := snd (v_lr s)\<rparr>),
      call L ''numpy'' (\<lambda>s. s\<lparr>v_Xtrain_np := v_Xtrain s\<rparr>),
      s_Xtrain_grad_np L,
      s_ytrain_np L]"
  shows "follows_list L steps_prepare_plot cs s"
proof (rule follows_list_inv[where I = "\<lambda>s. v_Xtrain_grad s \<noteq> None" and E = "\<lambda>s e. True"])
  fix c assume "c \<in> set cs"
  then show "spec (\<lambda>s. v_Xtrain_grad s \<noteq> None) c (\<lambda>s. v_Xtrain_grad s \<noteq> None) (\<lambda>s e. True)"
    unfolding cs s_lr_fit_def s_Xtrain_grad_np_def s_ytrain_np_def
    by (auto intro!: spec_intros)
next
  show "fits L (\<lambda>k s. v_Xtrain_grad s \<noteq> None) 0 steps_prepare_plot cs"
    unfolding cs steps_prepare_plot_def s_lr_fit_def s_Xtrain_grad_np_def s_ytrain_np_def
    by (auto intro!: follows_intros)
qed (rule assms(1))

lemma plot_statement_keeps:
  assumes "c \<in> set (plot_statements L)"
  shows "spec plot_ready c plot_ready (\<lambda>s e. True)"
proof -
  have arrow: "spec plot_ready (for_range v_m (s_arrow L)) plot_ready (\<lambda>s e. True)"
    by (rule spec_for_any) (auto intro!: spec_intros simp: s_arrow_def plot_ready_def)
  from assms show ?thesis
    unfolding plot_statements_def s_scatter_def s_plot_def
    using arrow
    by (auto intro!: spec_callI spec_guardI simp: plot_ready_def)
qed

lemma follows_arrows:
  assumes "plot_ready s"
  shows "follows L (Several (replicate 30 (Does ''plt.arrow''))) (for_range v_m (s_arrow L)) s"
proof (rule For)
  from assms have m: "v_m s = 30" by (simp add: plot_ready_def)
  have "follows_list L (replicate (30 - 0) (Does ''plt.arrow'')) (map (s_arrow L) [0..<30]) s"
  proof (rule follows_list_loop[where I = plot_ready and E = "\<lambda>s e. True"])
    fix i :: nat assume "i < 30"
    show "spec plot_ready (s_arrow L i) plot_ready (\<lambda>s e. True)"
      by (auto intro!: spec_intros simp: s_arrow_def plot_ready_def)
  next
    fix i :: nat and t assume "i < 30" "plot_ready t"
    then show "follows L (Does ''plt.arrow'') (s_arrow L i) t"
      unfolding s_arrow_def
      by (auto intro!: follows_intros simp: plot_ready_def entry_None)
  qed (use assms in simp_all)
  then show "follows_list L (replicate 30 (Does ''plt.arrow'')) (map (s_arrow L) [0..<v_m s]) s"
    by (simp add: m)
qed

lemma follows_plot:
  assumes "plot_ready s"
  shows "follows_list L steps_plot (plot_statements L) s"
proof (rule follows_list_inv[where I = plot_ready and E = "\<lambda>s e. True"])
  show "fits L (\<lambda>k. plot_ready) 0 steps_plot (plot_statements L)"
    unfolding steps_plot_def plot_statements_def s_scatter_def s_plot_def
    by (auto intro!: follows_intros follows_arrows
        simp: plot_ready_def masked_column_None hyperplane_line_None)
qed (use assms plot_statement_keeps in auto)

lemma follows_cell7_torch:
  assumes "lib_contract L" and "fitted v_a_tch s"
  shows "follows_list L steps_cell7_torch (cell7_torch L) s"
proof -
  have f: "follows_list L [Does ''plt.savefig'', Does ''plt.show'']
             [s_savefig L ''data_poisoning.pdf'', s_show L] t" for t
    unfolding s_savefig_def s_show_def
    by (rule follows_list_any) (auto intro!: follows_intros)
  have p: "follows_list L (steps_plot @ [Does ''plt.savefig'', Does ''plt.show''])
             (plot_statements L @ [s_savefig L ''data_poisoning.pdf'', s_show L]) t"
    if "plot_ready t" for t
    by (rule follows_list_append_spec[where P = plot_ready,
          OF follows_plot plot_statements_spec f that])
  have pp: "follows_list L steps_prepare_plot (prepare_plot_torch L) t"
    if "fitted v_a_tch t" for t
    using that by (intro follows_prepare_plot[where slope_of = v_a_tch and icpt_of = v_b_tch])
      (auto simp: fitted_def prepare_plot_torch_def)
  show ?thesis
    unfolding steps_cell7_torch_def cell7_torch_def
    by (rule follows_list_append_spec[where P = "fitted v_a_tch",
          OF pp prepare_plot_torch_spec[OF assms(1)] p assms(2)])
qed

lemma follows_cell7_tf:
  assumes "lib_contract L" and "fitted v_slope s"
  shows "follows_list L steps_cell7_tf (cell7_tf L) s"
proof -
  have f: "follows_list L [Does ''plt.show''] [s_show L] t" for t
    unfolding s_show_def
    by (rule follows_list_any) (auto intro!: follows_intros)
  have p: "follows_list L (steps_plot @ [Does ''plt.show'']) (plot_statements L @ [s_show L]) t"
    if "plot_ready t" for t
    by (rule follows_list_append_spec[where P = plot_ready,
          OF follows_plot plot_statements_spec f that])
  have pp: "follows_list L steps_prepare_plot (prepare_plot_tf L) t" if "fitted v_slope t" for t
    using that by (intro follows_prepare_plot[where slope_of = v_slope and icpt_of = v_intercept])
      (auto simp: fitted_def prepare_plot_tf_def)
  show ?thesis
    unfolding steps_cell7_tf_def cell7_tf_def
    by (rule follows_list_append_spec[where P = "fitted v_slope",
          OF pp prepare_plot_tf_spec[OF assms(1)] p assms(2)])
qed

lemma follows_notebook_torch:
  assumes "lib_contract L"
  shows "follows L (Several steps_torch) (notebook_torch L) s"
  unfolding notebook_torch_def steps_torch_def
proof (rule Seq)
  have 5: "follows_list L (steps_cell5_torch @ steps_cell7_torch)
             (cell5_torch L @ cell7_torch L) t" if "ready_torch L t" for t
    by (rule follows_list_append_spec[where P = "ready_torch L",
          OF follows_cell5_torch cell5_torch_spec[OF assms] follows_cell7_torch[OF assms] that])
      (simp add: ready_torch_def)
  have 3: "follows_list L (steps_cell3_torch @ steps_cell5_torch @ steps_cell7_torch)
             (cell3_torch L @ cell5_torch L @ cell7_torch L) t" for t
    by (rule follows_list_append_spec[where P = "\<lambda>s. True",
          OF follows_cell3_torch[OF assms] cell3_torch_raised[OF assms] 5 TrueI])
  show "follows_list L
          (steps_cell1_torch @ steps_cell3_torch @ steps_cell5_torch @ steps_cell7_torch)
          (cell1_torch L @ cell3_torch L @ cell5_torch L @ cell7_torch L) s"
    by (rule follows_list_append[OF follows_cell1_torch 3])
qed

lemma follows_notebook_tf:
  assumes "lib_contract L"
  shows "follows L (Several steps_tf) (notebook_tf L) s"
  unfolding notebook_tf_def steps_tf_def
proof (rule Seq)
  have 5: "follows_list L (steps_cell5_tf @ steps_cell7_tf) (cell5_tf L @ cell7_tf L) t"
    if "ready_tf L t" for t
    by (rule follows_list_append_spec[where P = "ready_tf L",
          OF follows_cell5_tf cell5_tf_spec[OF assms] follows_cell7_tf[OF assms] that])
  have 3: "follows_list L (steps_cell3_tf @ steps_cell5_tf @ steps_cell7_tf)
             (cell3_tf L @ cell5_tf L @ cell7_tf L) t" for t
    by (rule follows_list_append_spec[where P = "\<lambda>s. True",
          OF follows_cell3_tf[OF assms] cell3_tf_raised[OF assms] 5 TrueI])
  show "follows_list L (steps_cell1_tf @ steps_cell3_tf @ steps_cell5_tf @ steps_cell7_tf)
          (cell1_tf L @ cell3_tf L @ cell5_tf L @ cell7_tf L) s"
    by (rule follows_list_append[OF follows_cell1_tf 3])
qed

subsection \<open>What follows for a run\<close>

lemma follows_completes:
  assumes "follows L sh c s" and "c s = (s', None)"
  shows "calls s' = calls s @ calls_of sh" and "n \<in> set (calls_of sh) \<Longrightarrow> \<exists>t. raises L n t = None"
  using follows_run(1)[OF assms(1)] assms(2) by blast+

lemma follows_raises:
  assumes "follows L sh c s" and "c s = (s', Some e)"
  shows "\<exists>k < length (calls_of sh). calls s' = calls s @ take k (calls_of sh)
            \<and> raises L (calls_of sh ! k) s' = Some e"
  using follows_run(1)[OF assms(1)] assms(2) by blast

lemma follows_must_raise:
  assumes "follows L sh c s" and "name \<in> set (calls_of sh)" and "\<forall>t. raises L name t \<noteq> None"
  shows "snd (c s) \<noteq> None"
proof
  assume "snd (c s) = None"
  then have "c s = (fst (c s), None)" by (metis prod.collapse)
  from follows_completes(2)[OF assms(1) this assms(2)] assms(3) show False by blast
qed

subsection \<open>The library that fails in \<^verbatim>\<open>plt.xlim\<close>\<close>

lemma only_xlim_fails:
  "raises failing_lib name t = Some e \<Longrightarrow> e = LibraryError ''RuntimeError''"
  "raises failing_lib ''plt.xlim'' t \<noteq> None"
  by (auto simp: failing_lib_def split: if_splits)

lemma xlim_called:
  "''plt.xlim'' \<in> set (calls_of (Several steps_torch))"
  "''plt.xlim'' \<in> set (calls_of (Several steps_tf))"
  by (simp_all add: steps_torch_def steps_tf_def steps_cell7_torch_def steps_cell7_tf_def
      steps_plot_def)

section \<open>The claims about the notebooks as programs\<close>

subsection \<open>The script is linear\<close>

text \<open>
  C4: each notebook is a linear script.  A run that completes adds to the log exactly
  the four phase calls, in this order: the dataset is generated (\<^verbatim>\<open>make_blobs\<close>), the layer
  is applied (\<^verbatim>\<open>fit_logreg\<close>), the gradient is computed (\<^verbatim>\<open>loss.backward\<close> in the PyTorch
  notebook, \<^verbatim>\<open>tape.gradient\<close> in the TensorFlow notebook), the chart is shown (\<^verbatim>\<open>plt.show\<close>);
  the layer's forward function is called once and the gradient is computed once.
\<close>

theorem notebook_runs_each_phase_once:
  "(notebook_torch L s = (s', None) \<longrightarrow>
      phases s' = phases s @ [''make_blobs'', ''fit_logreg'', ''loss.backward'', ''plt.show''] \<and>
      count_list (calls s') ''fit_logreg'' = count_list (calls s) ''fit_logreg'' + 1 \<and>
      count_list (calls s') ''loss.backward'' = count_list (calls s) ''loss.backward'' + 1) \<and>
   (notebook_tf L s = (s', None) \<longrightarrow>
      phases s' = phases s @ [''make_blobs'', ''fit_logreg'', ''tape.gradient'', ''plt.show''] \<and>
      count_list (calls s') ''fit_logreg'' = count_list (calls s) ''fit_logreg'' + 1 \<and>
      count_list (calls s') ''tape.gradient'' = count_list (calls s) ''tape.gradient'' + 1)"
proof -
  have p: "is_phase ''fit_logreg''" "is_phase ''loss.backward''" "is_phase ''tape.gradient''"
    by (simp_all add: is_phase_def)
  show ?thesis
    using spec_result[OF notebook_torch_log outputs_here, of L s s']
      spec_result[OF notebook_tf_log outputs_here, of L s s']
    by (simp add: count_phase[OF p(1)] count_phase[OF p(2)] count_phase[OF p(3)])
qed

theorem notebook_runs_each_phase_once_witness:
  "notebook_torch sample_lib fresh_kernel = (fst (notebook_torch sample_lib fresh_kernel), None) \<and>
   phases (fst (notebook_torch sample_lib fresh_kernel))
     = [''make_blobs'', ''fit_logreg'', ''loss.backward'', ''plt.show''] \<and>
   notebook_tf sample_lib fresh_kernel = (fst (notebook_tf sample_lib fresh_kernel), None) \<and>
   phases (fst (notebook_tf sample_lib fresh_kernel))
     = [''make_blobs'', ''fit_logreg'', ''tape.gradient'', ''plt.show'']"
proof -
  have 1: "notebook_torch sample_lib fresh_kernel
             = (fst (notebook_torch sample_lib fresh_kernel), None)"
    using sample_run_torch[of fresh_kernel] run_result[of "notebook_torch sample_lib" fresh_kernel]
    by simp
  have 2: "notebook_tf sample_lib fresh_kernel
             = (fst (notebook_tf sample_lib fresh_kernel), None)"
    using sample_run_tf[of fresh_kernel] run_result[of "notebook_tf sample_lib" fresh_kernel]
    by simp
  have 0: "phases fresh_kernel = []" by (simp add: phases_def fresh_kernel_def)
  from notebook_runs_each_phase_once[of sample_lib fresh_kernel
      "fst (notebook_torch sample_lib fresh_kernel)"] 1
    notebook_runs_each_phase_once[of sample_lib fresh_kernel
      "fst (notebook_tf sample_lib fresh_kernel)"] 2 0
  show ?thesis by simp
qed

subsection \<open>The dataset\<close>

text \<open>
  C5: under the libraries' promises on shapes, the third cell of either notebook builds
  the fixed toy dataset.  \<^verbatim>\<open>make_blobs\<close> is called on the generator seeded with \<open>0\<close> for
  \<open>N = 60\<close> points in \<open>n = 2\<close> dimensions, with centers \<open>(2, 2)\<close> and \<open>(-2, -2)\<close> and standard
  deviation \<open>3\<close>, and returns sixty points and sixty labels.  The split with
  \<open>test_size = 0.5\<close> takes the generator's permutation \<open>p\<close> of the sixty indices: the test
  points are the thirty points at the first thirty indices of \<open>p\<close>, the \<open>m = 30\<close> training
  points are those at the last thirty, each with its label, so that every point is a
  training point or a test point and none is both.  When the cell ends the name \<^verbatim>\<open>X\<close> holds
  the parameter of shape \<open>(30, 2)\<close>.
\<close>

theorem dataset_is_the_toy_dataset:
  assumes "lib_contract L"
    and "seq (cell3_torch L) s = (s', None) \<or> seq (cell3_tf L) s = (s', None)"
    and "blobs = make_blobs L (np_seed L 0) 60 2 [[2, 2], [- 2, - 2]] 3"
    and "p = fst (permutation L (snd blobs) 60)"
  shows "v_N s' = 60 \<and> v_n s' = 2 \<and> v_m s' = 30 \<and>
     has_shape (fst (fst blobs)) 60 2 \<and> length (snd (fst blobs)) = 60 \<and>
     distinct p \<and> set p = {..<60} \<and>
     v_Xtest s' = map ((!) (fst (fst blobs))) (take 30 p) \<and>
     v_Xtrain s' = map ((!) (fst (fst blobs))) (drop 30 p) \<and>
     v_ytest s' = map ((!) (snd (fst blobs))) (take 30 p) \<and>
     v_ytrain s' = map ((!) (snd (fst blobs))) (drop 30 p) \<and>
     has_shape (v_Xtrain s') 30 2 \<and> has_shape (v_Xtest s') 30 2 \<and>
     length (v_ytrain s') = 30 \<and> length (v_ytest s') = 30 \<and>
     v_y s' = snd (fst blobs) \<and> v_X s' = Parameter 30 2"
proof -
  from assms(2) have g: "generated L s'" and X: "v_X s' = Parameter (v_m s') (v_n s')"
    using cell3_declared[of L s s']
    by (auto simp: declared_torch_def declared_tf_def ready_torch_def ready_tf_def)
  from generated_data_ready[OF assms(1) g] have r: "data_ready s'" .
  have b: "blobs = seeded_blobs L" by (simp add: assms(3) seeded_blobs_def)
  from seeded_blobs_shape[OF assms(1)] b
  have sh: "has_shape (fst (fst blobs)) 60 2" "length (snd (fst blobs)) = 60" by simp_all
  then have len: "length (fst (fst blobs)) = 60" by (simp add: has_shape_def)
  from contract_permutation[OF assms(1), of "snd blobs" 60] assms(4)
  have p: "length p = 60" "set p = {..<60}" "distinct p" by simp_all
  from g have "dataset s' = fst (train_test_split L (snd blobs) (fst (fst blobs)) (snd (fst blobs)) (1 / 2))"
    by (simp add: generated_def split_done_def seeded_dataset_def b)
  with split_rows[OF len p(1) assms(4)]
  have d: "v_Xtest s' = map ((!) (fst (fst blobs))) (take 30 p)"
    "v_Xtrain s' = map ((!) (fst (fst blobs))) (drop 30 p)"
    "v_ytest s' = map ((!) (snd (fst blobs))) (take 30 p)"
    "v_ytrain s' = map ((!) (snd (fst blobs))) (drop 30 p)"
    by (simp_all add: dataset_def)
  from g b have y: "v_N s' = 60" "v_y s' = snd (fst blobs)"
    by (simp_all add: generated_def split_done_def)
  from r X have X': "v_X s' = Parameter 30 2" by (simp add: data_ready_def)
  from r sh p d y X' show ?thesis by (simp add: data_ready_def)
qed

theorem dataset_is_the_toy_dataset_witness:
  "lib_contract sample_lib \<and>
   seq (cell3_torch sample_lib) fresh_kernel
     = (fst (seq (cell3_torch sample_lib) fresh_kernel), None) \<and>
   make_blobs sample_lib (np_seed sample_lib 0) 60 2 [[2, 2], [- 2, - 2]] 3
     = ((map (\<lambda>i. [real i, real i]) [0..<60], map (\<lambda>i. int (i mod 2)) [0..<60]), 1) \<and>
   fst (permutation sample_lib 1 60) = rev [0..<60] \<and>
   v_m (fst (seq (cell3_torch sample_lib) fresh_kernel)) = 30 \<and>
   v_X (fst (seq (cell3_torch sample_lib) fresh_kernel)) = Parameter 30 2 \<and>
   v_Xtest (fst (seq (cell3_torch sample_lib) fresh_kernel))
     = map (\<lambda>i. [real i, real i]) (rev [30..<60]) \<and>
   v_Xtrain (fst (seq (cell3_torch sample_lib) fresh_kernel))
     = map (\<lambda>i. [real i, real i]) (rev [0..<30]) \<and>
   v_ytrain (fst (seq (cell3_torch sample_lib) fresh_kernel))
     = map (\<lambda>i. int (i mod 2)) (rev [0..<30])"
proof -
  have 1: "seq (cell3_torch sample_lib) fresh_kernel
             = (fst (seq (cell3_torch sample_lib) fresh_kernel), None)"
    using sample_cell3_torch[of fresh_kernel]
      run_result[of "seq (cell3_torch sample_lib)" fresh_kernel] by simp
  have b: "make_blobs sample_lib (np_seed sample_lib 0) 60 2 [[2, 2], [- 2, - 2]] 3
     = ((map (\<lambda>i. [real i, real i]) [0..<60], map (\<lambda>i. int (i mod 2)) [0..<60]), 1)"
    by (simp add: sample_lib_def numeral_2_eq_2)
  have p: "fst (permutation sample_lib 1 60) = rev [0..<60]"
    by (simp add: sample_lib_def)
  have t: "take 30 (rev [0..<60]) = rev [30..<60]" "drop 30 (rev [0..<60]) = rev [0..<30]"
    by (simp_all add: take_rev drop_rev take_upt drop_upt)
  have m: "map ((!) (map f [0..<60])) (rev [a..<b]) = map f (rev [a..<b])" if "b \<le> 60"
    for f :: "nat \<Rightarrow> 'a" and a b
    using that by (simp add: rev_map[symmetric])
  from dataset_is_the_toy_dataset[OF sample_lib_contract disjI1, OF 1 refl refl]
    sample_lib_contract 1 b p
  show ?thesis by (simp add: t m)
qed

text \<open>
  C9: dataset generation is deterministic.  Any two runs of the data-generation cell
  that complete, of the same notebook or of the two, from any two states (whatever the
  generators held before), leave the same \<open>Xtrain\<close>, \<open>Xtest\<close>, \<open>ytrain\<close> and \<open>ytest\<close>.
\<close>

theorem data_generation_is_deterministic:
  "(seq (cell3_torch L) s1 = (s1', None) \<and> seq (cell3_torch L) s2 = (s2', None)
      \<longrightarrow> dataset s1' = dataset s2') \<and>
   (seq (cell3_tf L) s1 = (s1', None) \<and> seq (cell3_tf L) s2 = (s2', None)
      \<longrightarrow> dataset s1' = dataset s2') \<and>
   (seq (cell3_torch L) s1 = (s1', None) \<and> seq (cell3_tf L) s2 = (s2', None)
      \<longrightarrow> dataset s1' = dataset s2')"
  using cell3_torch_generated[of L] cell3_tf_generated[of L]
  by (auto simp: generated_def split_done_def)

theorem data_generation_is_deterministic_witness:
  "seq (cell3_torch sample_lib) fresh_kernel
     = (fst (seq (cell3_torch sample_lib) fresh_kernel), None) \<and>
   seq (cell3_torch sample_lib) (fresh_kernel\<lparr>np_rng := 7, fw_rng := 9\<rparr>)
     = (fst (seq (cell3_torch sample_lib) (fresh_kernel\<lparr>np_rng := 7, fw_rng := 9\<rparr>)), None) \<and>
   dataset (fst (seq (cell3_torch sample_lib) fresh_kernel))
     = dataset (fst (seq (cell3_torch sample_lib) (fresh_kernel\<lparr>np_rng := 7, fw_rng := 9\<rparr>)))"
proof -
  have 1: "seq (cell3_torch sample_lib) s = (fst (seq (cell3_torch sample_lib) s), None)" for s
    using sample_cell3_torch[of s] run_result[of "seq (cell3_torch sample_lib)" s] by simp
  from data_generation_is_deterministic[of sample_lib fresh_kernel
      "fst (seq (cell3_torch sample_lib) fresh_kernel)"
      "fresh_kernel\<lparr>np_rng := 7, fw_rng := 9\<rparr>"
      "fst (seq (cell3_torch sample_lib) (fresh_kernel\<lparr>np_rng := 7, fw_rng := 9\<rparr>))"]
    1[of fresh_kernel] 1[of "fresh_kernel\<lparr>np_rng := 7, fw_rng := 9\<rparr>"]
  show ?thesis by blast
qed

subsection \<open>Exceptions\<close>

text \<open>
  C6: the notebooks handle no failure of their own.  Under the libraries' promises on
  shapes, every statement of either notebook, in the state in which a run reaches it,
  raises exactly when its library call raises, with the same exception and the state as
  it was, and completes otherwise (\<^const>\<open>follows\<close>, for the calls listed in
  \<^const>\<open>steps_torch\<close> and \<^const>\<open>steps_tf\<close>).  So a run that raises has made the calls before
  the one that failed, is left in the state in which that call was made, and raises what
  that call raised; a run cannot complete when one of the notebook's calls always
  raises; and a run in which no library call raises completes.
\<close>

theorem notebooks_raise_what_the_library_raises:
  assumes "lib_contract L"
  shows "follows L (Several steps_torch) (notebook_torch L) s \<and>
     follows L (Several steps_tf) (notebook_tf L) s \<and>
     (notebook_torch L s = (s', Some e) \<longrightarrow>
        (\<exists>k < length (calls_of (Several steps_torch)).
            calls s' = calls s @ take k (calls_of (Several steps_torch)) \<and>
            raises L (calls_of (Several steps_torch) ! k) s' = Some e)) \<and>
     (notebook_tf L s = (s', Some e) \<longrightarrow>
        (\<exists>k < length (calls_of (Several steps_tf)).
            calls s' = calls s @ take k (calls_of (Several steps_tf)) \<and>
            raises L (calls_of (Several steps_tf) ! k) s' = Some e)) \<and>
     (name \<in> set (calls_of (Several steps_torch)) \<and> (\<forall>t. raises L name t \<noteq> None)
        \<longrightarrow> snd (notebook_torch L s) \<noteq> None) \<and>
     (name \<in> set (calls_of (Several steps_tf)) \<and> (\<forall>t. raises L name t \<noteq> None)
        \<longrightarrow> snd (notebook_tf L s) \<noteq> None) \<and>
     ((\<forall>name t. raises L name t = None)
        \<longrightarrow> snd (notebook_torch L s) = None \<and> snd (notebook_tf L s) = None)"
proof -
  note t = follows_notebook_torch[OF assms, of s] and f = follows_notebook_tf[OF assms, of s]
  have 1: "notebook_torch L s = (s', Some e) \<longrightarrow>
        (\<exists>k < length (calls_of (Several steps_torch)).
            calls s' = calls s @ take k (calls_of (Several steps_torch)) \<and>
            raises L (calls_of (Several steps_torch) ! k) s' = Some e)"
    using follows_raises[OF t] by blast
  have 2: "notebook_tf L s = (s', Some e) \<longrightarrow>
        (\<exists>k < length (calls_of (Several steps_tf)).
            calls s' = calls s @ take k (calls_of (Several steps_tf)) \<and>
            raises L (calls_of (Several steps_tf) ! k) s' = Some e)"
    using follows_raises[OF f] by blast
  have 3: "name \<in> set (calls_of (Several steps_torch)) \<and> (\<forall>t. raises L name t \<noteq> None)
        \<longrightarrow> snd (notebook_torch L s) \<noteq> None"
    using follows_must_raise[OF t] by blast
  have 4: "name \<in> set (calls_of (Several steps_tf)) \<and> (\<forall>t. raises L name t \<noteq> None)
        \<longrightarrow> snd (notebook_tf L s) \<noteq> None"
    using follows_must_raise[OF f] by blast
  have 5: "(\<forall>name t. raises L name t = None)
        \<longrightarrow> snd (notebook_torch L s) = None \<and> snd (notebook_tf L s) = None"
    using quiet_run[OF notebook_torch_spec[OF assms]] quiet_run[OF notebook_tf_spec[OF assms]]
    by blast
  from t f 1 2 3 4 5 show ?thesis by blast
qed

theorem notebooks_raise_what_the_library_raises_witness:
  "lib_contract failing_lib \<and>
   follows failing_lib (Several steps_torch) (notebook_torch failing_lib) fresh_kernel \<and>
   follows failing_lib (Several steps_tf) (notebook_tf failing_lib) fresh_kernel \<and>
   ''plt.xlim'' \<in> set (calls_of (Several steps_torch)) \<and>
   ''plt.xlim'' \<in> set (calls_of (Several steps_tf)) \<and>
   raises failing_lib ''plt.xlim'' fresh_kernel = Some (LibraryError ''RuntimeError'') \<and>
   snd (notebook_torch failing_lib fresh_kernel) = Some (LibraryError ''RuntimeError'') \<and>
   snd (notebook_tf failing_lib fresh_kernel) = Some (LibraryError ''RuntimeError'')"
proof -
  note T = notebooks_raise_what_the_library_raises[OF failing_lib_contract,
      where s = fresh_kernel and name = "''plt.xlim''"]
  have a: "snd (notebook_torch failing_lib fresh_kernel) = Some (LibraryError ''RuntimeError'')"
  proof (cases "notebook_torch failing_lib fresh_kernel")
    case (Pair s' r)
    with T[of s'] xlim_called(1) only_xlim_fails(2) obtain e where r: "r = Some e" by auto
    with Pair T[of s' e] only_xlim_fails(1) show ?thesis by auto
  qed
  have b: "snd (notebook_tf failing_lib fresh_kernel) = Some (LibraryError ''RuntimeError'')"
  proof (cases "notebook_tf failing_lib fresh_kernel")
    case (Pair s' r)
    with T[of s'] xlim_called(2) only_xlim_fails(2) obtain e where r: "r = Some e" by auto
    with Pair T[of s' e] only_xlim_fails(1) show ?thesis by auto
  qed
  have c: "raises failing_lib ''plt.xlim'' fresh_kernel = Some (LibraryError ''RuntimeError'')"
    by (simp add: failing_lib_def)
  from T failing_lib_contract xlim_called a b c show ?thesis by blast
qed

subsection \<open>Files and the screen\<close>

text \<open>
  C7, as the claim states it: a run of either notebook creates or modifies no file.  The
  PyTorch notebook run on a fresh kernel with the sample library completes and leaves a
  file \<^verbatim>\<open>data_poisoning.pdf\<close> that was not there (it calls \<^verbatim>\<open>plt.savefig\<close> before \<^verbatim>\<open>plt.show\<close>).
\<close>

theorem torch_notebook_writes_a_file:
  "snd (notebook_torch sample_lib fresh_kernel) = None \<and>
   disk fresh_kernel ''data_poisoning.pdf'' = None \<and>
   disk (fst (notebook_torch sample_lib fresh_kernel)) ''data_poisoning.pdf''
     = Some (gcf (fst (notebook_torch sample_lib fresh_kernel)))"
proof -
  have 1: "notebook_torch sample_lib fresh_kernel
             = (fst (notebook_torch sample_lib fresh_kernel), None)"
    using sample_run_torch[of fresh_kernel] run_result[of "notebook_torch sample_lib" fresh_kernel]
    by simp
  from spec_result[OF notebook_torch_log outputs_here 1] sample_run_torch[of fresh_kernel]
  show ?thesis by (simp add: fresh_kernel_def)
qed

text \<open>
  C7, amended: a run of the TensorFlow notebook creates or modifies no file, and one
  that completes shows one chart on screen.  A run of the PyTorch notebook creates or
  modifies no file other than \<^verbatim>\<open>data_poisoning.pdf\<close>; one that completes has saved the chart
  to that file and shows the same chart on screen.
\<close>

theorem notebooks_files_and_screen:
  "(notebook_tf L s = (s', r) \<longrightarrow>
      disk s' = disk s \<and> (r = None \<longrightarrow> screen s' = screen s @ [gcf s'])) \<and>
   (notebook_torch L s = (s', r) \<longrightarrow>
      (\<forall>f. f \<noteq> ''data_poisoning.pdf'' \<longrightarrow> disk s' f = disk s f) \<and>
      (r = None \<longrightarrow> disk s' = (disk s)(''data_poisoning.pdf'' \<mapsto> gcf s')
                    \<and> screen s' = screen s @ [gcf s']))"
proof (cases r)
  case None
  then show ?thesis
    using spec_result[OF notebook_torch_log outputs_here, of L s s']
      spec_result[OF notebook_tf_log outputs_here, of L s s']
    by auto
next
  case (Some e)
  then show ?thesis
    using spec_error[OF notebook_torch_log outputs_here, of L s s' e]
      spec_error[OF notebook_tf_log outputs_here, of L s s' e]
    by (auto simp: off_pdf_def)
qed

theorem notebooks_files_and_screen_witness:
  "notebook_tf sample_lib fresh_kernel = (fst (notebook_tf sample_lib fresh_kernel), None) \<and>
   disk (fst (notebook_tf sample_lib fresh_kernel)) = Map.empty \<and>
   screen (fst (notebook_tf sample_lib fresh_kernel))
     = [gcf (fst (notebook_tf sample_lib fresh_kernel))] \<and>
   notebook_torch sample_lib fresh_kernel = (fst (notebook_torch sample_lib fresh_kernel), None) \<and>
   disk (fst (notebook_torch sample_lib fresh_kernel))
     = [''data_poisoning.pdf'' \<mapsto> gcf (fst (notebook_torch sample_lib fresh_kernel))] \<and>
   screen (fst (notebook_torch sample_lib fresh_kernel))
     = [gcf (fst (notebook_torch sample_lib fresh_kernel))]"
proof -
  have 1: "notebook_torch sample_lib fresh_kernel
             = (fst (notebook_torch sample_lib fresh_kernel), None)"
    using sample_run_torch[of fresh_kernel] run_result[of "notebook_torch sample_lib" fresh_kernel]
    by simp
  have 2: "notebook_tf sample_lib fresh_kernel
             = (fst (notebook_tf sample_lib fresh_kernel), None)"
    using sample_run_tf[of fresh_kernel] run_result[of "notebook_tf sample_lib" fresh_kernel]
    by simp
  have 0: "disk fresh_kernel = Map.empty" "screen fresh_kernel = []"
    by (simp_all add: fresh_kernel_def)
  from notebooks_files_and_screen[of sample_lib fresh_kernel
      "fst (notebook_tf sample_lib fresh_kernel)" None]
    notebooks_files_and_screen[of sample_lib fresh_kernel
      "fst (notebook_torch sample_lib fresh_kernel)" None] 1 2 0
  show ?thesis by simp
qed

subsection \<open>The frame of the gradient computation\<close>

text \<open>
  C10: the gradient computation does not mutate the data.  \<^verbatim>\<open>loss.backward()\<close> changes
  nothing but the \<^verbatim>\<open>.grad\<close> attribute of \<open>Xtrain\<close> (and the log of calls); \<^verbatim>\<open>tape.gradient\<close>
  changes nothing but the variable its result is assigned to; and the gradient cell of
  either notebook, however it ends, leaves \<open>Xtrain\<close>, \<open>Xtest\<close>, \<open>ytrain\<close> and \<open>ytest\<close> as they
  were.
\<close>

theorem gradient_does_not_mutate_data:
  "(s_backward L s = (s', r) \<longrightarrow>
      s'\<lparr>v_Xtrain_dot_grad := v_Xtrain_dot_grad s, calls := calls s\<rparr> = s) \<and>
   (s_tape_gradient L s = (s', r) \<longrightarrow>
      s'\<lparr>v_Xtrain_grad := v_Xtrain_grad s, calls := calls s\<rparr> = s) \<and>
   (seq (cell5_torch L) s = (s', r) \<or> seq (cell5_tf L) s = (s', r) \<longrightarrow>
      v_Xtrain s' = v_Xtrain s \<and> v_Xtest s' = v_Xtest s \<and>
      v_ytrain s' = v_ytrain s \<and> v_ytest s' = v_ytest s)"
proof -
  have "dataset s' = dataset s" if "seq (cell5_torch L) s = (s', r)"
    using that spec_result[OF cell5_torch_frame refl, of L s s']
      spec_error[OF cell5_torch_frame refl, of L s s'] by (cases r) auto
  moreover have "dataset s' = dataset s" if "seq (cell5_tf L) s = (s', r)"
    using that spec_result[OF cell5_tf_frame refl, of L s s']
      spec_error[OF cell5_tf_frame refl, of L s s'] by (cases r) auto
  ultimately show ?thesis
    using backward_frame[of L s s' r] tape_gradient_frame[of L s s' r]
    by (auto simp: dataset_def)
qed

theorem gradient_does_not_mutate_data_witness:
  "s_backward sample_lib (fresh_kernel\<lparr>v_Xtrain_requires_grad := True, v_Xtrain := [[1, 2]]\<rparr>)
     = (fresh_kernel\<lparr>v_Xtrain_requires_grad := True, v_Xtrain := [[1, 2]],
                      v_Xtrain_dot_grad := Some [[0, 0]], calls := [''loss.backward'']\<rparr>, None) \<and>
   fresh_kernel\<lparr>v_Xtrain_requires_grad := True, v_Xtrain := [[1, 2]],
                v_Xtrain_dot_grad := Some [[0, 0]], calls := [''loss.backward''],
                v_Xtrain_dot_grad := None, calls := []\<rparr>
     = fresh_kernel\<lparr>v_Xtrain_requires_grad := True, v_Xtrain := [[1, 2]]\<rparr>"
proof -
  have 1: "s_backward sample_lib (fresh_kernel\<lparr>v_Xtrain_requires_grad := True, v_Xtrain := [[1, 2]]\<rparr>)
     = (fresh_kernel\<lparr>v_Xtrain_requires_grad := True, v_Xtrain := [[1, 2]],
                      v_Xtrain_dot_grad := Some [[0, 0]], calls := [''loss.backward'']\<rparr>, None)"
    by (simp add: s_backward_def guard_def call_def sample_lib_def fresh_kernel_def accumulate_def)
  from gradient_does_not_mutate_data[of sample_lib
      "fresh_kernel\<lparr>v_Xtrain_requires_grad := True, v_Xtrain := [[1, 2]]\<rparr>"
      "fresh_kernel\<lparr>v_Xtrain_requires_grad := True, v_Xtrain := [[1, 2]],
                      v_Xtrain_dot_grad := Some [[0, 0]], calls := [''loss.backward'']\<rparr>" None] 1
  show ?thesis by (simp add: fresh_kernel_def)
qed

section \<open>The layer and the values it computes\<close>

lemma cell5_torch_values:
  "spec (\<lambda>s. v_n s = n0 \<and> v_fit_logreg s = F \<and> v_Xtrain s = X0 \<and> v_Xtest s = Xt \<and>
             v_ytest s = yt \<and> v_Xtrain_requires_grad s \<and> v_Xtrain_dot_grad s = None)
     (seq (cell5_torch L))
     (\<lambda>s. (v_a_tch s, v_b_tch s) = layer_out (solve L n0 (F [X0])) \<and>
          v_Xtrain_grad s = Some (autodiff L
            (\<lambda>X. loss_torch Xt yt (layer_out (solve L n0 (F [X])))) X0))
     (\<lambda>s e. True)"
proof -
  define A where "A k s \<longleftrightarrow>
     v_n s = n0 \<and> v_fit_logreg s = F \<and> v_Xtrain s = X0 \<and> v_Xtest s = Xt \<and> v_ytest s = yt \<and>
     v_Xtrain_requires_grad s \<and>
     (k \<le> 3 \<longrightarrow> v_Xtrain_dot_grad s = None) \<and>
     (2 \<le> k \<longrightarrow> (v_a_tch s, v_b_tch s) = layer_out (solve L n0 (F [X0]))) \<and>
     (4 \<le> k \<longrightarrow> v_Xtrain_dot_grad s = Some (autodiff L
            (\<lambda>X. loss_torch Xt yt (layer_out (solve L n0 (F [X])))) X0)) \<and>
     (5 \<le> k \<longrightarrow> v_Xtrain_grad s = Some (autodiff L
            (\<lambda>X. loss_torch Xt yt (layer_out (solve L n0 (F [X])))) X0))"
    for k :: nat and s :: nb
  have "chain A 0 (cell5_torch L) (\<lambda>s e. True)"
    unfolding cell5_torch_def s_forward_torch_def s_loss_torch_def s_backward_def
    by (auto intro!: spec_intros simp: A_def accumulate_def)
  then have "spec (A 0) (seq (cell5_torch L)) (A 5) (\<lambda>s e. True)"
    by (rule spec_chain_len) (simp add: cell5_torch_def)
  then show ?thesis
    by (rule spec_conseq) (auto simp: A_def)
qed

lemma cell5_tf_values:
  "spec (\<lambda>s. v_n s = n0 \<and> v_fit_logreg s = F \<and> v_Xtrain s = X0 \<and> v_Xtest s = Xt \<and>
             v_ytest s = yt)
     (seq (cell5_tf L))
     (\<lambda>s. (v_slope s, v_intercept s) = layer_out (solve L n0 (F [X0, lambda1_tf, lambda2_tf])) \<and>
          v_Xtrain_grad s = Some (autodiff L
            (\<lambda>X. test_loss_tf Xt yt
                    (layer_out (solve L n0 (F [X, lambda1_tf, lambda2_tf])))) X0))
     (\<lambda>s e. True)"
proof -
  define I where "I s \<longleftrightarrow>
     v_n s = n0 \<and> v_fit_logreg s = F \<and> v_Xtrain s = X0 \<and> v_Xtest s = Xt \<and> v_ytest s = yt"
    for s :: nb
  define B where "B k s \<longleftrightarrow> I s \<and>
     (2 \<le> k \<longrightarrow> (v_slope s, v_intercept s)
          = layer_out (solve L n0 (F [X0, lambda1_tf, lambda2_tf])))"
    for k :: nat and s
  let ?body = "[call L ''tape.watch'' id, s_forward_tf L, s_test_loss_tf L]"
  have "chain B 0 ?body (\<lambda>s e. True)"
    unfolding s_forward_tf_def s_test_loss_tf_def
    by (auto intro!: spec_intros simp: B_def I_def)
  then have body: "spec (B 0) (seq ?body) (B 3) (\<lambda>s e. True)"
    by (rule spec_chain_len) simp
  have enter: "spec (B 0) (call L ''tf.GradientTape'' id) (B 0) (\<lambda>s e. True)"
    by (auto intro!: spec_intros simp: B_def I_def)
  have w: "spec (B 0) (with_block (call L ''tf.GradientTape'' id) ?body) (B 3) (\<lambda>s e. True)"
    using enter body by (rule spec_with)
  define A where "A k s \<longleftrightarrow> I s \<and>
     (3 \<le> k \<longrightarrow> (v_slope s, v_intercept s)
          = layer_out (solve L n0 (F [X0, lambda1_tf, lambda2_tf]))) \<and>
     (4 \<le> k \<longrightarrow> v_Xtrain_grad s = Some (autodiff L
            (\<lambda>X. test_loss_tf Xt yt
                    (layer_out (solve L n0 (F [X, lambda1_tf, lambda2_tf])))) X0))"
    for k :: nat and s
  have AB: "A 2 = B 0" "A 3 = B 3"
    by (auto simp: A_def B_def fun_eq_iff)
  have "spec (A 2) (with_block (call L ''tf.GradientTape'' id) ?body) (A (Suc 2)) (\<lambda>s e. True)"
    using w AB by (simp add: eval_nat_numeral)
  then have "chain A 0 (cell5_tf L) (\<lambda>s e. True)"
    unfolding cell5_tf_def s_tape_gradient_def
    by (auto intro!: spec_callI simp: A_def I_def eval_nat_numeral)
  then have "spec (A 0) (seq (cell5_tf L)) (A 4) (\<lambda>s e. True)"
    by (rule spec_chain_len) (simp add: cell5_tf_def)
  then show ?thesis
    by (rule spec_conseq) (auto simp: A_def I_def)
qed

lemma feasible_iff: "feasible n v \<longleftrightarrow> (\<exists>a b. v = (col a, [[b]]) \<and> length a = n)"
proof
  assume "feasible n v"
  then obtain a b where "fst v = col a" "length a = n" "snd v = [[b]]"
    using shape_col_ex[of "fst v" n] shape_one[of "snd v"] by (auto simp: feasible_def)
  then show "\<exists>a b. v = (col a, [[b]]) \<and> length a = n" by (cases v) auto
next
  assume "\<exists>a b. v = (col a, [[b]]) \<and> length a = n"
  then show "feasible n v"
    by (auto simp: feasible_def has_shape_def col_def list_all_iff)
qed

lemma declared_problem_torch:
  assumes "declared_torch L s" and "lib_contract L" and "has_shape X 30 2"
  shows "v_fit_logreg s [X] = prob_torch 30 (newaxis (v_ytrain s)) X"
    and "length a = 2 \<Longrightarrow>
         objective_torch 30 (newaxis (v_ytrain s)) X (col a) [[b]]
           = spec_objective X (map real_of_int (v_ytrain s)) a b"
proof -
  from assms(1) have g: "generated L s" by (simp add: declared_torch_def ready_torch_def)
  from generated_data_ready[OF assms(2) g] have r: "data_ready s" .
  from assms(1) r show "v_fit_logreg s [X] = prob_torch 30 (newaxis (v_ytrain s)) X"
    by (simp add: declared_torch_def data_ready_def)
  assume "length a = 2"
  with objectives_spec[OF assms(3), of "v_ytrain s" a b] r
  show "objective_torch 30 (newaxis (v_ytrain s)) X (col a) [[b]]
           = spec_objective X (map real_of_int (v_ytrain s)) a b"
    by (simp add: data_ready_def)
qed

lemma declared_problem_tf:
  assumes "declared_tf L s" and "lib_contract L" and "has_shape X 30 2"
  shows "v_fit_logreg s [X, l1, l2] = prob_tf 30 (newaxis (v_ytrain s)) X l1 l2"
    and "length a = 2 \<Longrightarrow>
         scalar_of (objective_tf 30 (newaxis (v_ytrain s)) X lambda1_tf lambda2_tf (col a) [[b]])
           = spec_objective X (map real_of_int (v_ytrain s)) a b"
proof -
  from assms(1) have g: "generated L s" by (simp add: declared_tf_def ready_tf_def)
  from generated_data_ready[OF assms(2) g] have r: "data_ready s" .
  from assms(1) r show "v_fit_logreg s [X, l1, l2] = prob_tf 30 (newaxis (v_ytrain s)) X l1 l2"
    by (simp add: declared_tf_def data_ready_def)
  assume "length a = 2"
  with objectives_spec[OF assms(3), of "v_ytrain s" a b] r
  show "scalar_of (objective_tf 30 (newaxis (v_ytrain s)) X lambda1_tf lambda2_tf (col a) [[b]])
           = spec_objective X (map real_of_int (v_ytrain s)) a b"
    by (simp add: data_ready_def scalar_of_def)
qed

lemma solutions_Maximize:
  assumes "\<And>a b. length a = n \<Longrightarrow> f (col a, [[b]]) = g a b"
  shows "solutions n (Maximize f) =
     {(col a, [[b]]) | a b. length a = n \<and> (\<forall>a' b'. length a' = n \<longrightarrow> g a' b' \<le> g a b)}"
proof (intro set_eqI iffI)
  fix v assume "v \<in> solutions n (Maximize f)"
  then have fe: "feasible n v" and mx: "\<And>w. feasible n w \<Longrightarrow> f w \<le> f v" by auto
  from fe obtain a b where v: "v = (col a, [[b]])" "length a = n"
    unfolding feasible_iff by blast
  have "g a' b' \<le> g a b" if "length a' = n" for a' b'
  proof -
    from that have "feasible n (col a', [[b']])" unfolding feasible_iff by blast
    from mx[OF this] show ?thesis using assms that v by simp
  qed
  with v show "v \<in> {(col a, [[b]]) | a b. length a = n \<and>
                  (\<forall>a' b'. length a' = n \<longrightarrow> g a' b' \<le> g a b)}"
    by blast
next
  fix v assume "v \<in> {(col a, [[b]]) | a b. length a = n \<and>
                  (\<forall>a' b'. length a' = n \<longrightarrow> g a' b' \<le> g a b)}"
  then obtain a b where v: "v = (col a, [[b]])" "length a = n"
    and mx: "\<And>a' b'. length a' = n \<Longrightarrow> g a' b' \<le> g a b" by blast
  from v have fe: "feasible n v" unfolding feasible_iff by blast
  have "f w \<le> f v" if "feasible n w" for w
  proof -
    from that obtain a' b' where w: "w = (col a', [[b']])" "length a' = n"
      unfolding feasible_iff by blast
    with mx[of a' b'] assms v show ?thesis by simp
  qed
  with fe show "v \<in> solutions n (Maximize f)" by simp
qed

lemma sample_cell3_run:
  "seq (cell3_torch sample_lib) s = (fst (seq (cell3_torch sample_lib) s), None)"
  "seq (cell3_tf sample_lib) s = (fst (seq (cell3_tf sample_lib) s), None)"
  using sample_cell3_torch[of s] sample_cell3_tf[of s]
    run_result[of "seq (cell3_torch sample_lib)" s] run_result[of "seq (cell3_tf sample_lib)" s]
  by simp_all

text \<open>
  C3: the problem handed to the layer is the maximum-likelihood problem of logistic
  regression with elastic-net regularization.  After the cell that declares the problem
  (under the libraries' promises on shapes), \<open>m = 30\<close> is the number of training points,
  and for every value \<open>X\<close> of the parameter (thirty rows of two entries) the layer holds a
  \<^verbatim>\<open>cp.Maximize\<close> problem whose objective at \<open>(a, b)\<close> is
  \<open>(1/m) \<Sum>\<^sub>i [Y\<^sub>i (x\<^sub>i\<^sup>T a + b) - log (1 + exp (x\<^sub>i\<^sup>T a + b))] - 0.1 \<parallel>a\<parallel>\<^sub>1 - 0.1 \<parallel>a\<parallel>\<^sub>2\<^sup>2\<close> with \<open>Y\<close> the
  training labels and \<open>x\<^sub>i\<close> the rows of \<open>X\<close>; its solutions are the points where this
  objective is largest; and the forward call of the next cell returns what the solver
  returns for this problem at the training points.  In the TensorFlow notebook the two
  weights are parameters of the layer, and the statement is for the values \<open>0.1\<close> that the
  forward call supplies.
\<close>

theorem problem_handed_to_the_layer_is_max_likelihood:
  assumes "lib_contract L" and "has_shape X 30 2"
  shows
   "(seq (cell3_torch L) s = (s', None) \<longrightarrow>
       v_m s' = 30 \<and> length (v_Xtrain s') = 30 \<and>
       (\<exists>f. v_fit_logreg s' [X] = Maximize f \<and>
            (\<forall>a b. length a = 2 \<longrightarrow>
               f (col a, [[b]]) = spec_objective X (map real_of_int (v_ytrain s')) a b)) \<and>
       solutions 2 (v_fit_logreg s' [X]) =
         {(col a, [[b]]) | a b. length a = 2 \<and>
            (\<forall>a' b'. length a' = 2 \<longrightarrow>
               spec_objective X (map real_of_int (v_ytrain s')) a' b'
                 \<le> spec_objective X (map real_of_int (v_ytrain s')) a b)} \<and>
       (seq (cell5_torch L) s' = (s'', None) \<longrightarrow>
          (v_a_tch s'', v_b_tch s'') = layer_out (solve L 2 (v_fit_logreg s' [v_Xtrain s'])))) \<and>
    (seq (cell3_tf L) s = (s', None) \<longrightarrow>
       v_m s' = 30 \<and> length (v_Xtrain s') = 30 \<and>
       (\<exists>f. v_fit_logreg s' [X, lambda1_tf, lambda2_tf] = Maximize f \<and>
            (\<forall>a b. length a = 2 \<longrightarrow>
               f (col a, [[b]]) = spec_objective X (map real_of_int (v_ytrain s')) a b)) \<and>
       solutions 2 (v_fit_logreg s' [X, lambda1_tf, lambda2_tf]) =
         {(col a, [[b]]) | a b. length a = 2 \<and>
            (\<forall>a' b'. length a' = 2 \<longrightarrow>
               spec_objective X (map real_of_int (v_ytrain s')) a' b'
                 \<le> spec_objective X (map real_of_int (v_ytrain s')) a b)} \<and>
       (seq (cell5_tf L) s' = (s'', None) \<longrightarrow>
          (v_slope s'', v_intercept s'')
            = layer_out (solve L 2 (v_fit_logreg s' [v_Xtrain s', lambda1_tf, lambda2_tf]))))"
proof (intro conjI impI)
  let ?y = "map real_of_int (v_ytrain s')"
  {
    assume run: "seq (cell3_torch L) s = (s', None)"
    from cell3_declared(1)[OF run] have d: "declared_torch L s'" .
    then have g: "generated L s'" and rdy: "ready_torch L s'"
      by (simp_all add: declared_torch_def ready_torch_def)
    from generated_data_ready[OF assms(1) g] have r: "data_ready s'" .
    from r show "v_m s' = 30" "length (v_Xtrain s') = 30"
      by (simp_all add: data_ready_def has_shape_def)
    have P: "v_fit_logreg s' [X]
               = Maximize (\<lambda>v. objective_torch 30 (newaxis (v_ytrain s')) X (fst v) (snd v))"
      using declared_problem_torch(1)[OF d assms] by (simp add: prob_torch_def)
    have o: "objective_torch 30 (newaxis (v_ytrain s')) X (col a) [[b]]
               = spec_objective X ?y a b" if "length a = 2" for a b
      using declared_problem_torch(2)[OF d assms that] .
    from P o show "\<exists>f. v_fit_logreg s' [X] = Maximize f \<and>
            (\<forall>a b. length a = 2 \<longrightarrow> f (col a, [[b]]) = spec_objective X ?y a b)"
      by simp
    show "solutions 2 (v_fit_logreg s' [X]) =
         {(col a, [[b]]) | a b. length a = 2 \<and>
            (\<forall>a' b'. length a' = 2 \<longrightarrow> spec_objective X ?y a' b' \<le> spec_objective X ?y a b)}"
      unfolding P by (rule solutions_Maximize) (simp add: o)
    assume run5: "seq (cell5_torch L) s' = (s'', None)"
    have "v_n s' = 2 \<and> v_fit_logreg s' = v_fit_logreg s' \<and> v_Xtrain s' = v_Xtrain s' \<and>
          v_Xtest s' = v_Xtest s' \<and> v_ytest s' = v_ytest s' \<and> v_Xtrain_requires_grad s' \<and>
          v_Xtrain_dot_grad s' = None"
      using r rdy by (simp add: data_ready_def ready_torch_def)
    from spec_result[OF cell5_torch_values this run5]
    show "(v_a_tch s'', v_b_tch s'') = layer_out (solve L 2 (v_fit_logreg s' [v_Xtrain s']))"
      by simp
  }
  {
    assume run: "seq (cell3_tf L) s = (s', None)"
    from cell3_declared(2)[OF run] have d: "declared_tf L s'" .
    then have g: "generated L s'" by (simp add: declared_tf_def ready_tf_def)
    from generated_data_ready[OF assms(1) g] have r: "data_ready s'" .
    from r show "v_m s' = 30" "length (v_Xtrain s') = 30"
      by (simp_all add: data_ready_def has_shape_def)
    have P: "v_fit_logreg s' [X, lambda1_tf, lambda2_tf]
               = Maximize (\<lambda>v. scalar_of (objective_tf 30 (newaxis (v_ytrain s')) X
                                lambda1_tf lambda2_tf (fst v) (snd v)))"
      using declared_problem_tf(1)[OF d assms] by (simp add: prob_tf_def)
    have o: "scalar_of (objective_tf 30 (newaxis (v_ytrain s')) X lambda1_tf lambda2_tf
                 (col a) [[b]]) = spec_objective X ?y a b" if "length a = 2" for a b
      using declared_problem_tf(2)[OF d assms that] .
    from P o show "\<exists>f. v_fit_logreg s' [X, lambda1_tf, lambda2_tf] = Maximize f \<and>
            (\<forall>a b. length a = 2 \<longrightarrow> f (col a, [[b]]) = spec_objective X ?y a b)"
      by simp
    show "solutions 2 (v_fit_logreg s' [X, lambda1_tf, lambda2_tf]) =
         {(col a, [[b]]) | a b. length a = 2 \<and>
            (\<forall>a' b'. length a' = 2 \<longrightarrow> spec_objective X ?y a' b' \<le> spec_objective X ?y a b)}"
      unfolding P by (rule solutions_Maximize) (simp add: o)
    assume run5: "seq (cell5_tf L) s' = (s'', None)"
    have "v_n s' = 2 \<and> v_fit_logreg s' = v_fit_logreg s' \<and> v_Xtrain s' = v_Xtrain s' \<and>
          v_Xtest s' = v_Xtest s' \<and> v_ytest s' = v_ytest s'"
      using r by (simp add: data_ready_def)
    from spec_result[OF cell5_tf_values this run5]
    show "(v_slope s'', v_intercept s'')
            = layer_out (solve L 2 (v_fit_logreg s' [v_Xtrain s', lambda1_tf, lambda2_tf]))"
      by simp
  }
qed

theorem problem_handed_to_the_layer_is_max_likelihood_witness:
  "lib_contract sample_lib \<and> has_shape (zeros 30 2) 30 2 \<and>
   seq (cell3_torch sample_lib) fresh_kernel
     = (fst (seq (cell3_torch sample_lib) fresh_kernel), None) \<and>
   (\<exists>f. v_fit_logreg (fst (seq (cell3_torch sample_lib) fresh_kernel)) [zeros 30 2] = Maximize f \<and>
        f (col [1, 2], [[3]])
          = spec_objective (zeros 30 2)
              (map real_of_int (v_ytrain (fst (seq (cell3_torch sample_lib) fresh_kernel))))
              [1, 2] 3) \<and>
   seq (cell3_tf sample_lib) fresh_kernel
     = (fst (seq (cell3_tf sample_lib) fresh_kernel), None) \<and>
   (\<exists>f. v_fit_logreg (fst (seq (cell3_tf sample_lib) fresh_kernel))
          [zeros 30 2, lambda1_tf, lambda2_tf] = Maximize f \<and>
        f (col [1, 2], [[3]])
          = spec_objective (zeros 30 2)
              (map real_of_int (v_ytrain (fst (seq (cell3_tf sample_lib) fresh_kernel))))
              [1, 2] 3)"
proof -
  have X: "has_shape (zeros 30 2) 30 2" by (simp add: has_shape_def zeros_def list_all_iff)
  have l: "length [1, 2 :: real] = 2" by simp
  let ?s1 = "fst (seq (cell3_torch sample_lib) fresh_kernel)"
  let ?s2 = "fst (seq (cell3_tf sample_lib) fresh_kernel)"
  note T1 = problem_handed_to_the_layer_is_max_likelihood[OF sample_lib_contract X,
      of fresh_kernel ?s1 ?s1, THEN conjunct1, THEN mp, OF sample_cell3_run(1),
      THEN conjunct2, THEN conjunct2, THEN conjunct1]
  note T2 = problem_handed_to_the_layer_is_max_likelihood[OF sample_lib_contract X,
      of fresh_kernel ?s2 ?s2, THEN conjunct2, THEN mp, OF sample_cell3_run(2),
      THEN conjunct2, THEN conjunct2, THEN conjunct1]
  from T1 obtain f where f: "v_fit_logreg ?s1 [zeros 30 2] = Maximize f"
    "\<forall>a b. length a = 2 \<longrightarrow> f (col a, [[b]])
        = spec_objective (zeros 30 2) (map real_of_int (v_ytrain ?s1)) a b"
    by (elim exE conjE)
  from T2 obtain h where h: "v_fit_logreg ?s2 [zeros 30 2, lambda1_tf, lambda2_tf] = Maximize h"
    "\<forall>a b. length a = 2 \<longrightarrow> h (col a, [[b]])
        = spec_objective (zeros 30 2) (map real_of_int (v_ytrain ?s2)) a b"
    by (elim exE conjE)
  from f(2)[rule_format, OF l, of 3] f(1)
  have 1: "\<exists>f. v_fit_logreg ?s1 [zeros 30 2] = Maximize f \<and>
        f (col [1, 2], [[3]])
          = spec_objective (zeros 30 2) (map real_of_int (v_ytrain ?s1)) [1, 2] 3"
    by (intro exI[of _ f] conjI)
  from h(2)[rule_format, OF l, of 3] h(1)
  have 2: "\<exists>f. v_fit_logreg ?s2 [zeros 30 2, lambda1_tf, lambda2_tf] = Maximize f \<and>
        f (col [1, 2], [[3]])
          = spec_objective (zeros 30 2) (map real_of_int (v_ytrain ?s2)) [1, 2] 3"
    by (intro exI[of _ h] conjI)
  from sample_lib_contract X sample_cell3_run(1)[of fresh_kernel] 1
    sample_cell3_run(2)[of fresh_kernel] 2
  show ?thesis by (intro conjI)
qed

end
